(* ===== verification/Prelude.thy ===== *)
theory Prelude
  imports Main "HOL-Library.Word" "HOL-Library.Monad_Syntax"
begin

text \<open>
  Shared vocabulary of the development: the machine integers of the Rust code, array and slice
  access with the panic made explicit, and the byte sums of the frame checksums.

  A Rust array or slice is a list.  An index or a range outside the list panics in Rust; here
  \<open>get_at\<close>, \<open>set_at\<close> and \<open>slice\<close> return \<open>None\<close> for it, so that a definition written with them
  has \<open>None\<close> exactly where the code panics and "never panics" is a theorem about it.
\<close>

named_theorems wf_intros \<open>well-formedness of the model's states\<close>
named_theorems access_simps \<open>array and slice access that is in range\<close>
named_theorems sum_simps \<open>byte sums\<close>

section \<open>Machine integers\<close>

type_synonym u8 = "8 word"
type_synonym u16 = "16 word"
type_synonym u32 = "32 word"
type_synonym u64 = "64 word"

text \<open>The vendor id that every crate of the repository looks for.\<close>

definition AFFINE_VID :: u16 where "AFFINE_VID = 0xAFF1"

text \<open>\<open>x.saturating_sub(y)\<close> on unsigned integers.\<close>

definition saturating_sub :: "('a::len) word \<Rightarrow> 'a word \<Rightarrow> 'a word" where
  "saturating_sub x y = (if y \<le> x then x - y else 0)"

lemma unat_saturating_sub: "unat (saturating_sub x y) = unat x - unat y"
  by (auto simp: saturating_sub_def unat_sub_if' word_le_nat_alt)

lemma unat_u8_less: "unat (b :: u8) < 256"
  using unsigned_less [of b] by simp

lemma unat_plus_one_u64: "unat (x :: u64) + 1 < 2 ^ 64 \<Longrightarrow> unat (x + 1) = unat x + 1"
  by (simp add: unat_word_ariths)

section \<open>Arrays and slices with explicit panics\<close>

definition get_at :: "'a list \<Rightarrow> nat \<Rightarrow> 'a option" where
  "get_at xs i = (if i < length xs then Some (xs ! i) else None)"

definition set_at :: "'a list \<Rightarrow> nat \<Rightarrow> 'a \<Rightarrow> 'a list option" where
  "set_at xs i v = (if i < length xs then Some (xs[i := v]) else None)"

text \<open>\<open>&xs[a..b]\<close>.\<close>

definition slice :: "'a list \<Rightarrow> nat \<Rightarrow> nat \<Rightarrow> 'a list option" where
  "slice xs a b = (if a \<le> b \<and> b \<le> length xs then Some (take (b - a) (drop a xs)) else None)"

lemma get_at_in [access_simps]: "i < length xs \<Longrightarrow> get_at xs i = Some (xs ! i)"
  by (simp add: get_at_def)

lemma set_at_in [access_simps]: "i < length xs \<Longrightarrow> set_at xs i v = Some (xs[i := v])"
  by (simp add: set_at_def)

lemma slice_in [access_simps]:
  "a \<le> b \<Longrightarrow> b \<le> length xs \<Longrightarrow> slice xs a b = Some (take (b - a) (drop a xs))"
  by (simp add: slice_def)

lemma get_at_Some_iff: "get_at xs i = Some v \<longleftrightarrow> i < length xs \<and> v = xs ! i"
  by (auto simp: get_at_def)

lemma set_at_Some_iff: "set_at xs i v = Some ys \<longleftrightarrow> i < length xs \<and> ys = xs[i := v]"
  by (auto simp: set_at_def)

lemma slice_Some_iff:
  "slice xs a b = Some ys \<longleftrightarrow> a \<le> b \<and> b \<le> length xs \<and> ys = take (b - a) (drop a xs)"
  by (auto simp: slice_def)

lemma length_slice: "slice xs a b = Some ys \<Longrightarrow> length ys = b - a"
  by (auto simp: slice_Some_iff)

text \<open>Writing one past a filled prefix extends the prefix.\<close>

lemma take_Suc_update: "i < length xs \<Longrightarrow> take (Suc i) (xs[i := v]) = take i xs @ [v]"
  by (simp add: take_Suc_conv_app_nth)

lemma take_Suc_nth_in: "i < n \<Longrightarrow> i < length xs \<Longrightarrow> take n xs ! i = xs ! i"
  by simp

text \<open>The list of an optional value: \<open>if let Some(x) = ...\<close> run zero times or once.\<close>

fun opt_list :: "'a option \<Rightarrow> 'a list" where
  "opt_list None = []"
| "opt_list (Some x) = [x]"

lemma in_opt_list [simp]: "x \<in> set (opt_list v) \<longleftrightarrow> v = Some x"
  by (cases v) auto

section \<open>Byte sums\<close>

text \<open>\<open>iter().fold(0u8, |sum, &byte| sum.wrapping_add(byte))\<close>.\<close>

definition sum8 :: "u8 list \<Rightarrow> u8" where
  "sum8 xs = foldl (\<lambda>sum byte. sum + byte) 0 xs"

text \<open>\<open>iter().fold(0u8, |sum, &byte| sum.wrapping_sub(byte))\<close>.\<close>

definition neg_sum8 :: "u8 list \<Rightarrow> u8" where
  "neg_sum8 xs = foldl (\<lambda>sum byte. sum - byte) 0 xs"

lemma foldl_add_sum_list: "foldl (\<lambda>sum byte. sum + byte) a xs = a + sum_list (xs :: u8 list)"
  by (induction xs arbitrary: a) (auto simp: algebra_simps)

lemma foldl_sub_sum_list: "foldl (\<lambda>sum byte. sum - byte) a xs = a - sum_list (xs :: u8 list)"
  by (induction xs arbitrary: a) (auto simp: algebra_simps)

lemma sum8_sum_list [sum_simps]: "sum8 xs = sum_list xs"
  by (simp add: sum8_def foldl_add_sum_list)

lemma neg_sum8_sum_list [sum_simps]: "neg_sum8 xs = - sum_list xs"
  by (simp add: neg_sum8_def foldl_sub_sum_list)

section \<open>Byte streams into a message parser\<close>

text \<open>
  A parser that takes one byte at a time and may complete a message, run over a list of bytes:
  the messages in order and the final state.  This is the inner
  \<open>for &byte in &buf[..read] { if let Some(packet) = parser.push(byte) ... }\<close> of the
  device threads, for any parser.
\<close>

fun feed :: "('s \<Rightarrow> u8 \<Rightarrow> 's \<times> 'm list) \<Rightarrow> 's \<Rightarrow> u8 list \<Rightarrow> 's \<times> 'm list" where
  "feed st s [] = (s, [])"
| "feed st s (b # bs) =
     (let (s1, ms1) = st s b; (s2, ms2) = feed st s1 bs in (s2, ms1 @ ms2))"

lemma feed_append:
  "feed st s (xs @ ys) =
     (let (s1, ms1) = feed st s xs; (s2, ms2) = feed st s1 ys in (s2, ms1 @ ms2))"
  by (induction xs arbitrary: s) (auto simp: split_beta Let_def)

text \<open>A parser that simulates another one step by step does so on every stream.\<close>

lemma feed_simulation:
  assumes step: "\<And>s b. good s \<Longrightarrow> good (fst (st s b)) \<and> at (ab s) b = (ab (fst (st s b)), snd (st s b))"
    and "good s"
  shows "good (fst (feed st s bs)) \<and> feed at (ab s) bs = (ab (fst (feed st s bs)), snd (feed st s bs))"
  using \<open>good s\<close>
proof (induction bs arbitrary: s)
  case Nil
  then show ?case by simp
next
  case (Cons b bs)
  then show ?case using step [OF Cons.prems, of b] Cons.IH [of "fst (st s b)"]
    by (simp add: split_beta Let_def)
qed

text \<open>
  The interface a wire format offers to the loops that use it: a message that is acceptable
  (\<open>ok\<close>) is encoded to bytes that, fed to the parser in any good state, give exactly that
  message and leave a good state.
\<close>

locale wire_format =
  fixes encode :: "'m \<Rightarrow> u8 list"
    and step :: "'s \<Rightarrow> u8 \<Rightarrow> 's \<times> 'r list"
    and view :: "'m \<Rightarrow> 'r"
    and ok :: "'m \<Rightarrow> bool"
    and good :: "'s \<Rightarrow> bool"
  assumes decode_one: "ok m \<Longrightarrow> good s \<Longrightarrow>
      \<exists>s'. feed step s (encode m) = (s', [view m]) \<and> good s'"
begin

lemma decode_stream:
  "(\<And>m. m \<in> set ms \<Longrightarrow> ok m) \<Longrightarrow> good s \<Longrightarrow>
     \<exists>s'. feed step s (concat (map encode ms)) = (s', map view ms) \<and> good s'"
proof (induction ms arbitrary: s)
  case Nil
  then show ?case by simp
next
  case (Cons m ms)
  from Cons.prems obtain s1 where
    s1: "feed step s (encode m) = (s1, [view m])" "good s1"
    using decode_one [of m s] by auto
  with Cons obtain s2 where
    "feed step s1 (concat (map encode ms)) = (s2, map view ms)" "good s2"
    by fastforce
  with s1 show ?case by (simp add: feed_append)
qed

text \<open>Reads of any size: the stream may be cut anywhere.\<close>

lemma decode_chunked:
  assumes "\<And>m. m \<in> set ms \<Longrightarrow> ok m" and "good s"
    and "concat chunks = concat (map encode ms)"
  shows "\<exists>s'. feed step s (concat chunks) = (s', map view ms) \<and> good s'"
  using decode_stream [of ms s] assms by simp

end

section \<open>Transition systems\<close>

text \<open>
  A component that runs beside its callers is a step relation with its initial states; a property
  that holds initially and that every step keeps holds whenever it is looked at.
\<close>

locale invariant_system =
  fixes initial :: "'s \<Rightarrow> bool"
    and step :: "'s \<Rightarrow> 's \<Rightarrow> bool"
    and good :: "'s \<Rightarrow> bool"
  assumes initial_good: "initial s \<Longrightarrow> good s"
    and step_good: "good s \<Longrightarrow> step s s' \<Longrightarrow> good s'"
begin

lemma steps_good: "step\<^sup>*\<^sup>* s s' \<Longrightarrow> good s \<Longrightarrow> good s'"
  by (induction rule: rtranclp_induct) (auto intro: step_good)

lemma reachable_good: "initial s \<Longrightarrow> step\<^sup>*\<^sup>* s s' \<Longrightarrow> good s'"
  using steps_good initial_good by blast

end

end
