(* ===== verification/Rust_Text.thy ===== *)
theory Rust_Text
  imports Prelude "HOL-Library.Char_ord"
begin

text \<open>
  The part of Rust's string library the code uses.  A \<open>str\<close> is the list of its Unicode scalar
  values (\<open>rstr\<close>); a literal \<open>''abc''\<close> of the source is \<open>lit ''abc''\<close>.  Modelled are \<open>trim\<close>,
  \<open>lines\<close>, \<open>split_once\<close>, \<open>strip_prefix\<close>, \<open>eq_ignore_ascii_case\<close>, \<open>contains\<close>/\<open>find\<close>,
  \<open>from_str_radix\<close>, the number formats \<open>{}\<close>, \<open>{:X}\<close>, \<open>{:04X}\<close>, and the lossy decoders of UTF-8 and
  UTF-16.
\<close>

section \<open>Strings\<close>

type_synonym rstr = "nat list"

definition lit :: "string \<Rightarrow> rstr" where
  "lit s = map of_char s"

text \<open>\<open>char::is_whitespace\<close> (the White_Space property) and \<open>str::trim\<close>.\<close>

definition is_whitespace :: "nat \<Rightarrow> bool" where
  "is_whitespace c \<longleftrightarrow> (9 \<le> c \<and> c \<le> 13) \<or> c = 32 \<or> c = 0x85 \<or> c = 0xA0 \<or> c = 0x1680 \<or>
     (0x2000 \<le> c \<and> c \<le> 0x200A) \<or> c = 0x2028 \<or> c = 0x2029 \<or> c = 0x202F \<or> c = 0x205F \<or> c = 0x3000"

definition trim_start :: "rstr \<Rightarrow> rstr" where
  "trim_start s = dropWhile is_whitespace s"

definition trim :: "rstr \<Rightarrow> rstr" where
  "trim s = rev (trim_start (rev (trim_start s)))"

definition ascii_lower :: "nat \<Rightarrow> nat" where
  "ascii_lower c = (if 65 \<le> c \<and> c \<le> 90 then c + 32 else c)"

definition eq_ignore_ascii_case :: "rstr \<Rightarrow> rstr \<Rightarrow> bool" where
  "eq_ignore_ascii_case s t \<longleftrightarrow> map ascii_lower s = map ascii_lower t"

definition starts_with :: "rstr \<Rightarrow> rstr \<Rightarrow> bool" where
  "starts_with pat s \<longleftrightarrow> take (length pat) s = pat"

definition ends_with :: "rstr \<Rightarrow> rstr \<Rightarrow> bool" where
  "ends_with pat s \<longleftrightarrow> starts_with (rev pat) (rev s)"

definition strip_prefix :: "rstr \<Rightarrow> rstr \<Rightarrow> rstr option" where
  "strip_prefix pat s = (if starts_with pat s then Some (drop (length pat) s) else None)"

text \<open>\<open>trim_start_matches(pat)\<close> for a non-empty pattern: strip it as often as it occurs.\<close>

function trim_start_matches :: "rstr \<Rightarrow> rstr \<Rightarrow> rstr" where
  "trim_start_matches pat s =
     (if pat \<noteq> [] \<and> starts_with pat s then trim_start_matches pat (drop (length pat) s) else s)"
  by pat_completeness auto
termination
proof (relation "measure (\<lambda>(pat, s). length s)")
  fix pat s :: rstr
  assume "pat \<noteq> [] \<and> starts_with pat s"
  then have "pat \<noteq> []" "s \<noteq> []" by (auto simp: starts_with_def)
  then show "((pat, drop (length pat) s), pat, s) \<in> measure (\<lambda>(pat, s). length s)"
    by simp
qed simp

declare trim_start_matches.simps [simp del]

definition split_once :: "nat \<Rightarrow> rstr \<Rightarrow> (rstr \<times> rstr) option" where
  "split_once c s =
     (if c \<in> set s then Some (takeWhile (\<lambda>x. x \<noteq> c) s, tl (dropWhile (\<lambda>x. x \<noteq> c) s)) else None)"

text \<open>
  \<open>str::lines\<close>: lines end in \<open>\n\<close> or \<open>\r\n\<close>; the last one may lack its terminator, and then keeps a
  trailing \<open>\r\<close>.
\<close>

definition strip_cr :: "rstr \<Rightarrow> rstr" where
  "strip_cr l = (if l \<noteq> [] \<and> last l = 13 then butlast l else l)"

function rlines :: "rstr \<Rightarrow> rstr list" where
  "rlines s = (if s = [] then []
     else case dropWhile (\<lambda>c. c \<noteq> 10) s of
       [] \<Rightarrow> [s]
     | _ # rest \<Rightarrow> strip_cr (takeWhile (\<lambda>c. c \<noteq> 10) s) # rlines rest)"
  by pat_completeness auto
termination
proof (relation "measure length")
  fix s :: rstr and x rest
  assume "dropWhile (\<lambda>c. c \<noteq> 10) s = x # rest"
  then have "length (x # rest) \<le> length s"
    by (metis length_dropWhile_le)
  then show "(rest, s) \<in> measure length" by simp
qed simp

declare rlines.simps [simp del]

text \<open>\<open>find(pat)\<close> followed by the slice from the index found: the suffix at the first occurrence.\<close>

fun find_suffix :: "rstr \<Rightarrow> rstr \<Rightarrow> rstr option" where
  "find_suffix pat [] = (if pat = [] then Some [] else None)"
| "find_suffix pat (c # s) = (if starts_with pat (c # s) then Some (c # s) else find_suffix pat s)"

definition contains :: "rstr \<Rightarrow> rstr \<Rightarrow> bool" where
  "contains pat s \<longleftrightarrow> find_suffix pat s \<noteq> None"

lemma starts_with_append: "starts_with pat s \<longleftrightarrow> (\<exists>t. s = pat @ t)"
  by (auto simp: starts_with_def) (metis append_take_drop_id)

lemma find_suffix_Some: "find_suffix pat s = Some t \<Longrightarrow> \<exists>a. s = a @ t \<and> starts_with pat t"
proof (induction s)
  case Nil
  then show ?case by (auto simp: starts_with_def split: if_splits)
next
  case (Cons c s)
  show ?case
  proof (cases "starts_with pat (c # s)")
    case True
    with Cons.prems show ?thesis by auto
  next
    case False
    with Cons obtain a where "s = a @ t" "starts_with pat t" by auto
    then have "c # s = (c # a) @ t" by simp
    with \<open>starts_with pat t\<close> show ?thesis by blast
  qed
qed

lemma find_suffix_exists: "find_suffix pat (a @ pat @ b) \<noteq> None"
proof (induction a)
  case Nil
  have "starts_with pat (pat @ b)" by (auto simp: starts_with_append)
  then show ?case by (cases "pat @ b") (auto simp: starts_with_def)
next
  case (Cons c a)
  then show ?case by simp
qed

lemma contains_iff: "contains pat s \<longleftrightarrow> (\<exists>a b. s = a @ pat @ b)"
proof
  assume "contains pat s"
  then obtain t where "find_suffix pat s = Some t" by (auto simp: contains_def)
  then show "\<exists>a b. s = a @ pat @ b"
    using find_suffix_Some [of pat s t] by (auto simp: starts_with_append)
next
  assume "\<exists>a b. s = a @ pat @ b"
  then show "contains pat s" using find_suffix_exists by (auto simp: contains_def)
qed

section \<open>Numbers\<close>

text \<open>\<open>char::to_digit(radix)\<close>.\<close>

definition to_digit :: "nat \<Rightarrow> nat \<Rightarrow> nat option" where
  "to_digit radix c =
     (let d = (if 48 \<le> c \<and> c \<le> 57 then Some (c - 48)
               else if 65 \<le> c \<and> c \<le> 90 then Some (c - 55)
               else if 97 \<le> c \<and> c \<le> 122 then Some (c - 87) else None)
      in case d of None \<Rightarrow> None | Some v \<Rightarrow> if v < radix then Some v else None)"

text \<open>
  \<open>u32::from_str_radix\<close> (and \<open>parse::<u32>\<close>, radix 10): a lone sign or an empty string is an error,
  a leading \<open>+\<close> is skipped, every character is a digit, and multiplying and adding are checked.
\<close>

fun radix_digits :: "nat \<Rightarrow> nat \<Rightarrow> rstr \<Rightarrow> nat option" where
  "radix_digits radix acc [] = Some acc"
| "radix_digits radix acc (c # cs) =
     (case to_digit radix c of
        None \<Rightarrow> None
      | Some d \<Rightarrow> if acc * radix + d < 2 ^ 32 then radix_digits radix (acc * radix + d) cs else None)"

definition u32_from_str_radix :: "rstr \<Rightarrow> nat \<Rightarrow> u32 option" where
  "u32_from_str_radix s radix =
     (case s of
        [] \<Rightarrow> None
      | c # cs \<Rightarrow>
          if (c = 43 \<or> c = 45) \<and> cs = [] then None
          else map_option of_nat (radix_digits radix 0 (if c = 43 then cs else s)))"

definition digit_char :: "nat \<Rightarrow> nat" where
  "digit_char d = (if d < 10 then 48 + d else 55 + d)"

text \<open>\<open>{}\<close> (radix 10) and \<open>{:X}\<close> (radix 16); \<open>{:04X}\<close> pads with zeros.\<close>

function show_radix :: "nat \<Rightarrow> nat \<Rightarrow> rstr" where
  "show_radix radix n =
     (if radix < 2 \<or> n < radix then [digit_char n]
      else show_radix radix (n div radix) @ [digit_char (n mod radix)])"
  by pat_completeness auto
termination
  by (relation "measure snd") auto

declare show_radix.simps [simp del]

definition show_dec :: "nat \<Rightarrow> rstr" where
  "show_dec n = show_radix 10 n"

definition show_HEX :: "nat \<Rightarrow> nat \<Rightarrow> rstr" where
  "show_HEX width n = (let s = show_radix 16 n in replicate (width - length s) 48 @ s)"

lemma to_digit_digit_char: "d < radix \<Longrightarrow> radix \<le> 16 \<Longrightarrow> to_digit radix (digit_char d) = Some d"
  by (auto simp: to_digit_def digit_char_def)

lemma radix_digits_append:
  "radix_digits radix acc (xs @ ys) =
     (case radix_digits radix acc xs of None \<Rightarrow> None | Some a \<Rightarrow> radix_digits radix a ys)"
  by (induction xs arbitrary: acc) (auto split: option.splits)

lemma radix_digits_show:
  assumes "2 \<le> radix" "radix \<le> 16" "n < 2 ^ 32"
  shows "radix_digits radix 0 (show_radix radix n) = Some n"
  using assms
proof (induction radix n rule: show_radix.induct)
  case (1 radix n)
  show ?case
  proof (cases "n < radix")
    case True
    then show ?thesis using 1 by (simp add: show_radix.simps [of radix n] to_digit_digit_char)
  next
    case False
    have "n div radix \<le> n" by simp
    then have "n div radix < 2 ^ 32" using "1.prems" by linarith
    then have "radix_digits radix 0 (show_radix radix (n div radix)) = Some (n div radix)"
      using 1 False by simp
    moreover have "n div radix * radix + n mod radix = n" by simp
    ultimately show ?thesis using False "1.prems"
      by (simp add: show_radix.simps [of radix n] radix_digits_append to_digit_digit_char)
  qed
qed

lemma show_radix_chars:
  "c \<in> set (show_radix radix n) \<Longrightarrow> radix \<le> 16 \<Longrightarrow> 2 \<le> radix \<Longrightarrow> 48 \<le> c \<and> c \<le> 70"
proof (induction radix n rule: show_radix.induct)
  case (1 radix n)
  have "n mod radix < radix" using "1.prems" by simp
  then have "n mod radix < 16" using "1.prems" by linarith
  then have "48 \<le> digit_char (n mod radix) \<and> digit_char (n mod radix) \<le> 70"
    using "1.prems" by (simp add: digit_char_def)
  with 1 show ?case
    by (subst (asm) (2) show_radix.simps) (auto simp: digit_char_def split: if_splits)
qed

lemma show_radix_nonempty: "show_radix radix n \<noteq> []"
  by (subst show_radix.simps) simp

lemma u32_from_str_radix_digits:
  assumes "s \<noteq> []" "\<And>c. c \<in> set s \<Longrightarrow> 48 \<le> c"
  shows "u32_from_str_radix s radix = map_option of_nat (radix_digits radix 0 s)"
proof (cases s)
  case (Cons c cs)
  then have "48 \<le> c" using assms(2) [of c] by simp
  then show ?thesis by (simp add: u32_from_str_radix_def Cons)
qed (use assms in simp)

lemma u32_from_str_radix_show:
  assumes "2 \<le> radix" "radix \<le> 16" "n < 2 ^ 32"
  shows "u32_from_str_radix (show_radix radix n) radix = Some (of_nat n)"
  using u32_from_str_radix_digits [of "show_radix radix n" radix] show_radix_chars [of _ radix n]
    show_radix_nonempty radix_digits_show [OF assms] assms by simp

lemma radix_digits_zeros:
  "2 \<le> radix \<Longrightarrow> radix_digits radix 0 (replicate k 48 @ s) = radix_digits radix 0 s"
  by (induction k) (auto simp: to_digit_def)

lemma u32_from_str_radix_padded:
  assumes "n < 2 ^ 32"
  shows "u32_from_str_radix (replicate k 48 @ show_radix 16 n) 16 = Some (of_nat n)"
  using u32_from_str_radix_digits [of "replicate k 48 @ show_radix 16 n" 16] radix_digits_show [of 16 n]
    show_radix_chars [of _ 16 n] show_radix_nonempty [of 16 n] assms
  by (auto simp: radix_digits_zeros)

section \<open>Lossy decoding\<close>

text \<open>
  \<open>String::from_utf8_lossy\<close>: each maximal prefix of a well-formed sequence that is cut short is one
  replacement character.  \<open>utf8_next b bs\<close> is the number of bytes of \<open>bs\<close> consumed after \<open>b\<close>, and
  the character, or \<open>None\<close> for an invalid sequence.  Bytes past the end read as 0.
\<close>

definition byte_at :: "u8 list \<Rightarrow> nat \<Rightarrow> nat" where
  "byte_at bs i = (if i < length bs then unat (bs ! i) else 0)"

definition utf8_cont :: "nat \<Rightarrow> bool" where
  "utf8_cont b \<longleftrightarrow> 128 \<le> b \<and> b < 192"

definition utf8_next :: "u8 \<Rightarrow> u8 list \<Rightarrow> nat \<times> nat option" where
  "utf8_next b bs =
     (let b0 = unat b; b1 = byte_at bs 0; b2 = byte_at bs 1; b3 = byte_at bs 2 in
      if b0 < 128 then (0, Some b0)
      else if 0xC2 \<le> b0 \<and> b0 \<le> 0xDF then
        if utf8_cont b1 then (1, Some ((b0 - 0xC0) * 64 + (b1 - 128))) else (0, None)
      else if 0xE0 \<le> b0 \<and> b0 \<le> 0xEF then
        if (b0 = 0xE0 \<and> 0xA0 \<le> b1 \<and> b1 \<le> 0xBF) \<or>
           (b0 = 0xED \<and> 0x80 \<le> b1 \<and> b1 \<le> 0x9F) \<or>
           (b0 \<noteq> 0xE0 \<and> b0 \<noteq> 0xED \<and> 0x80 \<le> b1 \<and> b1 \<le> 0xBF)
        then if utf8_cont b2
             then (2, Some ((b0 - 0xE0) * 4096 + (b1 - 128) * 64 + (b2 - 128)))
             else (1, None)
        else (0, None)
      else if 0xF0 \<le> b0 \<and> b0 \<le> 0xF4 then
        if (b0 = 0xF0 \<and> 0x90 \<le> b1 \<and> b1 \<le> 0xBF) \<or>
           (b0 = 0xF4 \<and> 0x80 \<le> b1 \<and> b1 \<le> 0x8F) \<or>
           (b0 \<noteq> 0xF0 \<and> b0 \<noteq> 0xF4 \<and> 0x80 \<le> b1 \<and> b1 \<le> 0xBF)
        then if utf8_cont b2
             then if utf8_cont b3
                  then (3, Some ((b0 - 0xF0) * 262144 + (b1 - 128) * 4096 + (b2 - 128) * 64 + (b3 - 128)))
                  else (2, None)
             else (1, None)
        else (0, None)
      else (0, None))"

function utf8_lossy :: "u8 list \<Rightarrow> rstr" where
  "utf8_lossy [] = []"
| "utf8_lossy (b # bs) =
     (case utf8_next b bs of
        (k, Some c) \<Rightarrow> c # utf8_lossy (drop k bs)
      | (k, None) \<Rightarrow> 0xFFFD # utf8_lossy (drop k bs))"
  by pat_completeness auto
termination
  by (relation "measure length") auto

text \<open>\<open>String::from_utf8\<close>: the same decoding, failing on the first invalid sequence.\<close>

function from_utf8 :: "u8 list \<Rightarrow> rstr option" where
  "from_utf8 [] = Some []"
| "from_utf8 (b # bs) =
     (case utf8_next b bs of
        (k, Some c) \<Rightarrow> map_option ((#) c) (from_utf8 (drop k bs))
      | (k, None) \<Rightarrow> None)"
  by pat_completeness auto
termination
  by (relation "measure length") auto

lemma utf8_lossy_ascii: "(\<And>b. b \<in> set bs \<Longrightarrow> unat b < 128) \<Longrightarrow> utf8_lossy bs = map unat bs"
  by (induction bs) (auto simp: utf8_next_def)

lemma from_utf8_lossy: "from_utf8 bs = Some s \<Longrightarrow> utf8_lossy bs = s"
proof (induction bs arbitrary: s rule: from_utf8.induct)
  case 1
  then show ?case by simp
next
  case (2 b bs)
  then show ?case by (auto split: prod.splits option.splits)
qed

text \<open>\<open>String::from_utf16_lossy\<close>: an unpaired surrogate is one replacement character.\<close>

fun utf16_lossy :: "u16 list \<Rightarrow> rstr" where
  "utf16_lossy [] = []"
| "utf16_lossy [u] = [if unat u < 0xD800 \<or> 0xE000 \<le> unat u then unat u else 0xFFFD]"
| "utf16_lossy (u # v # us) =
     (if unat u < 0xD800 \<or> 0xE000 \<le> unat u then unat u # utf16_lossy (v # us)
      else if 0xDC00 \<le> unat u then 0xFFFD # utf16_lossy (v # us)
      else if 0xDC00 \<le> unat v \<and> unat v < 0xE000
      then (0x10000 + (unat u - 0xD800) * 0x400 + (unat v - 0xDC00)) # utf16_lossy us
      else 0xFFFD # utf16_lossy (v # us))"

lemma utf16_lossy_bmp:
  "(\<And>u. u \<in> set us \<Longrightarrow> unat u < 0xD800) \<Longrightarrow> utf16_lossy us = map unat us"
  by (induction us rule: utf16_lossy.induct) auto

section \<open>Decimal arguments\<close>

text \<open>\<open>parse::<u64>\<close>: an optional \<open>+\<close>, then decimal digits whose value fits.\<close>

fun u64_digits :: "nat \<Rightarrow> rstr \<Rightarrow> nat option" where
  "u64_digits acc [] = Some acc"
| "u64_digits acc (c # cs) =
     (case to_digit 10 c of
        None \<Rightarrow> None
      | Some d \<Rightarrow> if acc * 10 + d < 2 ^ 64 then u64_digits (acc * 10 + d) cs else None)"

definition u64_from_str :: "rstr \<Rightarrow> nat option" where
  "u64_from_str s =
     (case s of
        [] \<Rightarrow> None
      | c # cs \<Rightarrow>
          if (c = 43 \<or> c = 45) \<and> cs = [] then None else u64_digits 0 (if c = 43 then cs else s))"

end
