(* ===== verification/Mai2_Frames.thy ===== *)
theory Mai2_Frames
  imports Rust_Text
begin

unbundle bit_operations_syntax

text \<open>
  The wire formats of \<open>crates/affine-mai2/src/lib.rs\<close>: the receive-buffer parser
  \<open>try_parse_frame\<close> with \<open>consume\<close> and \<open>parse_board_info\<close>, the frame encoders \<open>send_frame\<close> and
  \<open>send_hid_frame\<close>, the touch HID reports with their assembler, and the button and touch bit
  repacking.

  \<open>try_parse_frame\<close> is the code's loop over the fixed buffer with \<open>None\<close> for a panic.  \<open>scan\<close> decides
  what the bytes at the head of the buffer are; \<open>parse_bytes\<close> and \<open>drain\<close> are the parser over plain
  lists, and \<open>try_parse_frame_refines\<close> relates the two.
\<close>

section \<open>Constants\<close>

definition MAI2_PID_1P :: u16 where "MAI2_PID_1P = 0x52A5"
definition MAI2_PID_2P :: u16 where "MAI2_PID_2P = 0x52A6"
definition AFFINE_CMD_HEARTBEAT :: u8 where "AFFINE_CMD_HEARTBEAT = 0x11"
definition AFFINE_CMD_GET_BOARD_INFO :: u8 where "AFFINE_CMD_GET_BOARD_INFO = 0xF0"
definition MAI2_VENDOR_HID_REPORT_LEN :: nat where "MAI2_VENDOR_HID_REPORT_LEN = 65"
definition MAI2_VENDOR_HID_FRAME_LEN :: nat where "MAI2_VENDOR_HID_FRAME_LEN = 64"
definition MAI2_TOUCH_HID_REPORT_ID :: u8 where "MAI2_TOUCH_HID_REPORT_ID = 0x31"
definition MAI2_TOUCH_HID_REPORT_LEN :: nat where "MAI2_TOUCH_HID_REPORT_LEN = 64"
definition MAI2_TOUCH_HID_PART_COUNT :: u8 where "MAI2_TOUCH_HID_PART_COUNT = 2"
definition AFFINE_SERIAL_RX_BUF_LEN :: nat where "AFFINE_SERIAL_RX_BUF_LEN = 512"

lemmas mai2_frame_consts = AFFINE_CMD_HEARTBEAT_def AFFINE_CMD_GET_BOARD_INFO_def
  MAI2_VENDOR_HID_REPORT_LEN_def MAI2_VENDOR_HID_FRAME_LEN_def MAI2_TOUCH_HID_REPORT_ID_def
  MAI2_TOUCH_HID_REPORT_LEN_def MAI2_TOUCH_HID_PART_COUNT_def AFFINE_SERIAL_RX_BUF_LEN_def

section \<open>Encoders\<close>

text \<open>The bytes \<open>send_frame\<close> writes to the serial port.\<close>

definition mai2_frame :: "u8 \<Rightarrow> u8 list \<Rightarrow> u8 list" where
  "mai2_frame cmd payload =
     (let frame = [0xFF, cmd, of_nat (length payload)] @ payload
      in frame @ [sum8 frame])"

text \<open>
  The 65-byte report \<open>send_hid_frame\<close> writes: report id 0, the frame, zero padding.  \<open>None\<close>: the
  payload does not fit and the function returns false without writing.
\<close>

definition hid_frame_report :: "u8 \<Rightarrow> u8 list \<Rightarrow> u8 list option" where
  "hid_frame_report cmd payload =
     (if length payload + 4 > MAI2_VENDOR_HID_FRAME_LEN then None
      else
        let frame = [0xFF, cmd, of_nat (length payload)] @ payload;
            report = [0] @ frame @ [sum8 frame]
        in Some (report @ replicate (MAI2_VENDOR_HID_REPORT_LEN - length report) 0))"

section \<open>The receive-buffer parser\<close>

datatype parsed_frame =
    FrameTouch "u8 option" "u8 option" "u8 list option"
  | FrameBoardInfo rstr

definition parse_board_info :: "u8 list \<Rightarrow> rstr" where
  "parse_board_info data =
     (case data of
        [] \<Rightarrow> lit ''unknown''
      | d0 # rest \<Rightarrow>
          let n = unat d0 in
          if n = 0 \<or> n + 1 > length data then lit ''unknown''
          else utf8_lossy (take n rest))"

text \<open>\<open>copy_within(count..rx_len, 0)\<close> moves the tail to the front and leaves what is behind it.\<close>

definition consume :: "u8 list \<Rightarrow> nat \<Rightarrow> nat \<Rightarrow> (u8 list \<times> nat) option" where
  "consume rx_buf rx_len count =
     (if count \<ge> rx_len then Some (rx_buf, 0)
      else do {
        seg \<leftarrow> slice rx_buf count rx_len;
        Some (seg @ drop (length seg) rx_buf, rx_len - count)
      })"

lemma consume_decreases: "consume buf n c = Some (buf', n') \<Longrightarrow> 0 < c \<Longrightarrow> 0 < n \<Longrightarrow> n' < n"
  by (auto simp: consume_def split: if_splits bind_splits)

function try_parse_frame :: "u8 list \<Rightarrow> nat \<Rightarrow> (parsed_frame option \<times> u8 list \<times> nat) option" where
  "try_parse_frame rx_buf rx_len =
     (if rx_len = 0 then Some (None, rx_buf, rx_len)
      else do {
        b0 \<leftarrow> get_at rx_buf 0;
        if b0 = 0xFF then
          if rx_len < 3 then Some (None, rx_buf, rx_len)
          else do {
            b1 \<leftarrow> get_at rx_buf 1;
            b2 \<leftarrow> get_at rx_buf 2;
            if b1 = 0x01 \<and> (b2 = 0x0A \<or> b2 = 0x00) then
              if rx_len < 14 then Some (None, rx_buf, rx_len)
              else do {
                body \<leftarrow> slice rx_buf 0 13;
                b13 \<leftarrow> get_at rx_buf 13;
                if b13 = sum8 body then do {
                  b3 \<leftarrow> get_at rx_buf 3;
                  b4 \<leftarrow> get_at rx_buf 4;
                  b5 \<leftarrow> get_at rx_buf 5;
                  touch \<leftarrow> slice rx_buf 6 13;
                  (rx_buf', rx_len') \<leftarrow> consume rx_buf rx_len 14;
                  Some (Some (FrameTouch (Some ((b3 AND 0x0F) OR (b4 AND 0xF0)))
                                         (Some (b5 AND 0x3F)) (Some touch)), rx_buf', rx_len')
                } else do {
                  (rx_buf', rx_len') \<leftarrow> consume rx_buf rx_len 1;
                  try_parse_frame rx_buf' rx_len'
                }
              }
            else if b1 = AFFINE_CMD_GET_BOARD_INFO then
              let total = 3 + unat b2 + 1 in
              if total > length rx_buf then do {
                (rx_buf', rx_len') \<leftarrow> consume rx_buf rx_len 1;
                try_parse_frame rx_buf' rx_len'
              }
              else if rx_len < total then Some (None, rx_buf, rx_len)
              else do {
                payload \<leftarrow> slice rx_buf 3 (3 + unat b2);
                (rx_buf', rx_len') \<leftarrow> consume rx_buf rx_len total;
                Some (Some (FrameBoardInfo (parse_board_info payload)), rx_buf', rx_len')
              }
            else do {
              (rx_buf', rx_len') \<leftarrow> consume rx_buf rx_len 1;
              try_parse_frame rx_buf' rx_len'
            }
          }
        else if b0 = 0x28 then
          if rx_len < 9 then Some (None, rx_buf, rx_len)
          else do {
            b8 \<leftarrow> get_at rx_buf 8;
            if b8 = 0x29 then do {
              touch \<leftarrow> slice rx_buf 1 8;
              (rx_buf', rx_len') \<leftarrow> consume rx_buf rx_len 9;
              Some (Some (FrameTouch None None (Some touch)), rx_buf', rx_len')
            } else do {
              (rx_buf', rx_len') \<leftarrow> consume rx_buf rx_len 1;
              try_parse_frame rx_buf' rx_len'
            }
          }
        else do {
          (rx_buf', rx_len') \<leftarrow> consume rx_buf rx_len 1;
          try_parse_frame rx_buf' rx_len'
        }
      })"
  by pat_completeness auto
termination
  by (relation "measure snd") (auto dest: consume_decreases)

declare try_parse_frame.simps [simp del]

section \<open>The parser over lists\<close>

datatype scanned = Wait | Skip | Emit parsed_frame nat

definition scan :: "u8 list \<Rightarrow> scanned" where
  "scan xs =
     (if xs = [] then Wait
      else if xs ! 0 = 0xFF then
        if length xs < 3 then Wait
        else if xs ! 1 = 0x01 \<and> (xs ! 2 = 0x0A \<or> xs ! 2 = 0x00) then
          if length xs < 14 then Wait
          else if xs ! 13 = sum8 (take 13 xs)
          then Emit (FrameTouch (Some ((xs ! 3 AND 0x0F) OR (xs ! 4 AND 0xF0)))
                       (Some (xs ! 5 AND 0x3F)) (Some (take 7 (drop 6 xs)))) 14
          else Skip
        else if xs ! 1 = AFFINE_CMD_GET_BOARD_INFO then
          if length xs < unat (xs ! 2) + 4 then Wait
          else Emit (FrameBoardInfo (parse_board_info (take (unat (xs ! 2)) (drop 3 xs))))
                 (unat (xs ! 2) + 4)
        else Skip
      else if xs ! 0 = 0x28 then
        if length xs < 9 then Wait
        else if xs ! 8 = 0x29
        then Emit (FrameTouch None None (Some (take 7 (drop 1 xs)))) 9
        else Skip
      else Skip)"

lemma scan_Emit_bounds: "scan xs = Emit f k \<Longrightarrow> 4 \<le> k \<and> k \<le> length xs"
  by (auto simp: scan_def split: if_splits)

lemma scan_Skip_nonempty: "scan xs = Skip \<Longrightarrow> xs \<noteq> []"
  by (auto simp: scan_def)

lemma scan_Nil [simp]: "scan [] = Wait"
  by (simp add: scan_def)

text \<open>A decision, once made, does not depend on what arrives later; while none is made, the bytes held are few.\<close>

lemma scan_append:
  assumes "scan xs \<noteq> Wait"
  shows "scan (xs @ ys) = scan xs"
proof -
  have nth: "i < length xs \<Longrightarrow> (xs @ ys) ! i = xs ! i" for i
    by (simp add: nth_append)
  have sub: "a + n \<le> length xs \<Longrightarrow> take n (drop a (xs @ ys)) = take n (drop a xs)" for a n
    by simp
  have ne: "xs \<noteq> []" "xs @ ys \<noteq> []" using assms by auto
  then have n0: "(xs @ ys) ! 0 = xs ! 0" by (intro nth) simp
  consider (other) "xs ! 0 \<noteq> 0xFF" "xs ! 0 \<noteq> 0x28" | (legacy) "xs ! 0 = 0x28" "9 \<le> length xs"
    | (ff) "xs ! 0 = 0xFF" "3 \<le> length xs"
    using assms ne by (fastforce simp: scan_def split: if_splits)
  then show ?thesis
  proof cases
    case other
    then show ?thesis using ne n0 by (simp add: scan_def)
  next
    case legacy
    then show ?thesis using ne n0 nth [of 8] sub [of 1 7] by (simp add: scan_def)
  next
    case ff
    then have n12: "(xs @ ys) ! 1 = xs ! 1" "(xs @ ys) ! 2 = xs ! 2" by (auto intro: nth)
    show ?thesis
    proof (cases "xs ! 1 = 0x01 \<and> (xs ! 2 = 0x0A \<or> xs ! 2 = 0x00)")
      case True
      then have "14 \<le> length xs" using assms ff ne by (fastforce simp: scan_def split: if_splits)
      with True show ?thesis
        using ne n0 n12 ff nth [of 13] nth [of 3] nth [of 4] nth [of 5] sub [of 0 13] sub [of 6 7]
        by (simp add: scan_def)
    next
      case False
      then show ?thesis
        using assms ne n0 n12 ff sub [of 3 "unat (xs ! 2)"]
        by (simp add: scan_def AFFINE_CMD_GET_BOARD_INFO_def split: if_splits)
    qed
  qed
qed

lemma scan_Wait_short: "scan xs = Wait \<Longrightarrow> length xs \<le> 258"
proof -
  assume "scan xs = Wait"
  moreover have "unat (xs ! 2) \<le> 255" using unat_u8_less [of "xs ! 2"] by simp
  ultimately show ?thesis by (auto simp: scan_def split: if_splits)
qed

function parse_bytes :: "u8 list \<Rightarrow> parsed_frame option \<times> u8 list" where
  "parse_bytes xs =
     (case scan xs of
        Wait \<Rightarrow> (None, xs)
      | Skip \<Rightarrow> parse_bytes (tl xs)
      | Emit f k \<Rightarrow> (Some f, drop k xs))"
  by pat_completeness auto
termination
  by (relation "measure length") (auto dest: scan_Skip_nonempty)

declare parse_bytes.simps [simp del]

function drain :: "u8 list \<Rightarrow> parsed_frame list \<times> u8 list" where
  "drain xs =
     (case scan xs of
        Wait \<Rightarrow> ([], xs)
      | Skip \<Rightarrow> drain (tl xs)
      | Emit f k \<Rightarrow> (let (fs, rest) = drain (drop k xs) in (f # fs, rest)))"
  by pat_completeness auto
termination
  by (relation "measure length") (auto dest: scan_Skip_nonempty scan_Emit_bounds)

declare drain.simps [simp del]

lemma parse_bytes_drain:
  "drain xs = (case parse_bytes xs of
     (None, rest) \<Rightarrow> ([], rest)
   | (Some f, rest) \<Rightarrow> (let (fs, r) = drain rest in (f # fs, r)))"
proof (induction xs rule: parse_bytes.induct)
  case (1 xs)
  then show ?case
    by (subst drain.simps, subst parse_bytes.simps) (auto split: scanned.splits)
qed

text \<open>Parsing is independent of how the stream is cut: bytes drained so far leave a remainder that carries all that later bytes need.\<close>

lemma drain_append:
  "drain (xs @ ys) =
     (let (fs, rest) = drain xs; (gs, rest') = drain (rest @ ys) in (fs @ gs, rest'))"
proof (induction xs rule: drain.induct)
  case (1 xs)
  show ?case
  proof (cases "scan xs")
    case Wait
    then show ?thesis by (simp add: drain.simps [of xs])
  next
    case Skip
    then have "scan (xs @ ys) = Skip" "xs \<noteq> []"
      using scan_append [of xs ys] scan_Skip_nonempty by auto
    with 1 Skip show ?thesis by (simp add: drain.simps [of "xs @ ys"] drain.simps [of xs])
  next
    case (Emit f k)
    then have "scan (xs @ ys) = Emit f k" "k \<le> length xs"
      using scan_append [of xs ys] scan_Emit_bounds by auto
    with 1 Emit show ?thesis
      by (simp add: drain.simps [of "xs @ ys"] drain.simps [of xs] split_beta Let_def)
  qed
qed

lemma drain_rest_waits: "scan (snd (drain xs)) = Wait"
proof (induction xs rule: drain.induct)
  case (1 xs)
  then show ?case
    by (subst drain.simps) (auto split: scanned.splits simp: split_beta Let_def)
qed

lemma drain_waiting: "scan xs = Wait \<Longrightarrow> drain xs = ([], xs)"
  by (subst drain.simps) simp

section \<open>The loop over the buffer refines the parser over lists\<close>

lemma consume_in:
  assumes "n \<le> length buf" "c \<le> n"
  obtains buf' where "consume buf n c = Some (buf', n - c)" "length buf' = length buf"
    "take (n - c) buf' = drop c (take n buf)"
proof (cases "c = n")
  case True
  then have "consume buf n c = Some (buf, n - c)" by (simp add: consume_def)
  then show ?thesis using that True by simp
next
  case False
  let ?seg = "take (n - c) (drop c buf)"
  have "consume buf n c = Some (?seg @ drop (length ?seg) buf, n - c)"
    using assms False by (simp add: consume_def access_simps)
  moreover have "length ?seg = n - c" using assms by simp
  moreover have "?seg = drop c (take n buf)" by (simp add: drop_take)
  ultimately show ?thesis using that assms by simp
qed

lemma try_parse_frame_scan:
  assumes "n \<le> length buf" "259 \<le> length buf"
  shows "try_parse_frame buf n =
     (case scan (take n buf) of
        Wait \<Rightarrow> Some (None, buf, n)
      | Skip \<Rightarrow> do { (buf', n') \<leftarrow> consume buf n 1; try_parse_frame buf' n' }
      | Emit f k \<Rightarrow> do { (buf', n') \<leftarrow> consume buf n k; Some (Some f, buf', n') })"
proof (cases "n = 0")
  case True
  then show ?thesis by (simp add: try_parse_frame.simps [of buf 0])
next
  case False
  let ?xs = "take n buf"
  have nth: "i < n \<Longrightarrow> ?xs ! i = buf ! i" for i by simp
  have sub: "a + k \<le> n \<Longrightarrow> take k (drop a ?xs) = take k (drop a buf)" for a k
    by (simp add: drop_take min_def)
  have len: "length ?xs = n" using assms by simp
  have get: "i < 259 \<Longrightarrow> get_at buf i = Some (buf ! i)" for i
    using assms by (simp add: access_simps)
  have slices: "slice buf 0 13 = Some (take 13 buf)" "slice buf 6 13 = Some (take 7 (drop 6 buf))"
    using assms by (simp_all add: access_simps)
  have ne: "?xs \<noteq> []" "buf \<noteq> []" and n0: "?xs ! 0 = buf ! 0" using False assms by auto
  consider (other) "buf ! 0 \<noteq> 0xFF" "buf ! 0 \<noteq> 0x28" | (legacy) "buf ! 0 = 0x28"
    | (short) "buf ! 0 = 0xFF" "n < 3" | (ff) "buf ! 0 = 0xFF" "3 \<le> n"
    by linarith
  then show ?thesis
  proof cases
    case other
    then show ?thesis using ne n0 False
      by (subst try_parse_frame.simps) (simp add: scan_def access_simps)
  next
    case legacy
    then show ?thesis
      using ne n0 False len assms nth [of 8] sub [of 1 7]
      by (subst try_parse_frame.simps) (simp add: scan_def access_simps)
  next
    case short
    then show ?thesis using ne n0 False len
      by (subst try_parse_frame.simps) (simp add: scan_def access_simps)
  next
    case ff
    then have n12: "?xs ! 1 = buf ! 1" "?xs ! 2 = buf ! 2" by auto
    have total: "unat (buf ! 2) + 4 \<le> length buf"
      using unat_u8_less [of "buf ! 2"] assms by linarith
    show ?thesis
    proof (cases "buf ! 1 = 0x01 \<and> (buf ! 2 = 0x0A \<or> buf ! 2 = 0x00)")
      case touch: True
      have "scan ?xs = (if n < 14 then Wait else if buf ! 13 = sum8 (take 13 buf)
          then Emit (FrameTouch (Some ((buf ! 3 AND 0x0F) OR (buf ! 4 AND 0xF0)))
                 (Some (buf ! 5 AND 0x3F)) (Some (take 7 (drop 6 buf)))) 14 else Skip)"
        using touch ff ne n0 n12 len sub [of 0 13] sub [of 6 7]
        by (auto simp: scan_def nth)
      then show ?thesis
        using touch ff False get [of 0] get [of 1] get [of 2] get [of 3] get [of 4] get [of 5]
          get [of 13] slices
        by (subst try_parse_frame.simps) auto
    next
      case False
      then show ?thesis
        using ff ne n0 n12 len assms total sub [of 3 "unat (buf ! 2)"] \<open>n \<noteq> 0\<close>
        by (subst try_parse_frame.simps)
          (auto simp: scan_def access_simps AFFINE_CMD_GET_BOARD_INFO_def Let_def add.commute)
    qed
  qed
qed

lemma try_parse_frame_refines:
  assumes "n \<le> length buf" "259 \<le> length buf"
  shows "\<exists>buf' n'. try_parse_frame buf n = Some (fst (parse_bytes (take n buf)), buf', n') \<and>
    length buf' = length buf \<and> n' \<le> n \<and> take n' buf' = snd (parse_bytes (take n buf))"
  using assms
proof (induction n arbitrary: buf rule: less_induct)
  case (less n)
  note step = try_parse_frame_scan [OF less.prems]
  show ?case
  proof (cases "scan (take n buf)")
    case Wait
    then show ?thesis by (simp add: step parse_bytes.simps [of "take n buf"])
  next
    case Skip
    then have "0 < n" using scan_Skip_nonempty by fastforce
    then obtain buf1 where c: "consume buf n 1 = Some (buf1, n - 1)" "length buf1 = length buf"
      "take (n - 1) buf1 = drop 1 (take n buf)"
      using consume_in [of n buf 1] less.prems by auto
    have "parse_bytes (take n buf) = parse_bytes (take (n - 1) buf1)"
      using Skip c by (simp add: parse_bytes.simps [of "take n buf"] drop_Suc)
    moreover have "\<exists>buf' n'. try_parse_frame buf1 (n - 1) =
        Some (fst (parse_bytes (take (n - 1) buf1)), buf', n') \<and> length buf' = length buf1 \<and>
        n' \<le> n - 1 \<and> take n' buf' = snd (parse_bytes (take (n - 1) buf1))"
      using less.IH [of "n - 1" buf1] less.prems c \<open>0 < n\<close> by simp
    ultimately show ?thesis using Skip c by (fastforce simp: step)
  next
    case (Emit f k)
    then have "k \<le> n" using scan_Emit_bounds [OF Emit] by simp
    then obtain buf1 where "consume buf n k = Some (buf1, n - k)" "length buf1 = length buf"
      "take (n - k) buf1 = drop k (take n buf)"
      using consume_in [of n buf k] less.prems by auto
    with Emit show ?thesis by (simp add: step parse_bytes.simps [of "take n buf"])
  qed
qed

section \<open>The serial receive buffer\<close>

text \<open>\<open>while let Some(frame) = try_parse_frame(&mut rx_buf, &mut rx_len)\<close>: the frames in order.\<close>

lemma try_parse_frame_shrinks:
  "try_parse_frame buf n = Some (Some f, buf', n') \<Longrightarrow> n' < n"
proof (induction buf n rule: try_parse_frame.induct)
  case (1 buf n)
  show ?case
    using "1.prems" "1.IH"
    by (subst (asm) try_parse_frame.simps)
      (auto split: if_splits bind_splits simp: Let_def; fastforce dest: consume_decreases)
qed

function drain_frames :: "u8 list \<Rightarrow> nat \<Rightarrow> (parsed_frame list \<times> u8 list \<times> nat) option" where
  "drain_frames rx_buf rx_len =
     (case try_parse_frame rx_buf rx_len of
        None \<Rightarrow> None
      | Some (None, rx_buf', rx_len') \<Rightarrow> Some ([], rx_buf', rx_len')
      | Some (Some f, rx_buf', rx_len') \<Rightarrow>
          map_option (\<lambda>(fs, r). (f # fs, r)) (drain_frames rx_buf' rx_len'))"
  by pat_completeness auto
termination
  by (relation "measure snd") (auto dest: try_parse_frame_shrinks)

declare drain_frames.simps [simp del]

definition buf_ok :: "u8 list \<Rightarrow> nat \<Rightarrow> bool" where
  "buf_ok buf n \<longleftrightarrow> length buf = AFFINE_SERIAL_RX_BUF_LEN \<and> n \<le> length buf"

lemma drain_frames_refines:
  assumes "buf_ok buf n"
  shows "\<exists>buf' n'. drain_frames buf n = Some (fst (drain (take n buf)), buf', n') \<and>
    buf_ok buf' n' \<and> take n' buf' = snd (drain (take n buf))"
  using assms
proof (induction n arbitrary: buf rule: less_induct)
  case (less n)
  then have "n \<le> length buf" "259 \<le> length buf"
    by (auto simp: buf_ok_def AFFINE_SERIAL_RX_BUF_LEN_def)
  then obtain buf1 n1 where p: "try_parse_frame buf n = Some (fst (parse_bytes (take n buf)), buf1, n1)"
      "length buf1 = length buf" "n1 \<le> n" "take n1 buf1 = snd (parse_bytes (take n buf))"
    using try_parse_frame_refines by blast
  then have ok1: "buf_ok buf1 n1" using less.prems by (simp add: buf_ok_def)
  show ?case
  proof (cases "fst (parse_bytes (take n buf))")
    case None
    then show ?thesis using p ok1
      by (cases "parse_bytes (take n buf)")
        (simp add: drain_frames.simps [of buf n] parse_bytes_drain [of "take n buf"])
  next
    case (Some f)
    then have "n1 < n" using p try_parse_frame_shrinks by auto
    from less.IH [OF this ok1] obtain buf2 n2 where
      "drain_frames buf1 n1 = Some (fst (drain (take n1 buf1)), buf2, n2)" "buf_ok buf2 n2"
      "take n2 buf2 = snd (drain (take n1 buf1))"
      by blast
    then show ?thesis using Some p
      by (cases "parse_bytes (take n buf)")
        (simp add: drain_frames.simps [of buf n] parse_bytes_drain [of "take n buf"] split_beta Let_def)
  qed
qed

text \<open>
  One received byte in \<open>serial_reader_thread\<close>: a full buffer is restarted, the byte is stored, and
  the complete frames are taken out.  The state is \<open>(rx_buf, rx_len)\<close>.
\<close>

type_synonym rx_state = "u8 list \<times> nat"

definition rx_init :: rx_state where
  "rx_init = (replicate AFFINE_SERIAL_RX_BUF_LEN 0, 0)"

definition rx_push :: "rx_state \<Rightarrow> u8 \<Rightarrow> (parsed_frame list \<times> rx_state) option" where
  "rx_push s byte =
     (let (rx_buf, rx_len) = s;
          rx_len = (if rx_len \<ge> length rx_buf then 0 else rx_len)
      in do {
        rx_buf \<leftarrow> set_at rx_buf rx_len byte;
        drain_frames rx_buf (rx_len + 1)
      })"

fun rx_run :: "rx_state \<Rightarrow> u8 list \<Rightarrow> (parsed_frame list \<times> rx_state) option" where
  "rx_run s [] = Some ([], s)"
| "rx_run s (b # bs) = do {
     (fs, s1) \<leftarrow> rx_push s b;
     (gs, s2) \<leftarrow> rx_run s1 bs;
     Some (fs @ gs, s2)
   }"

text \<open>Between bytes the buffer holds an incomplete frame, so it is never near its 512 bytes.\<close>

definition rx_held :: "rx_state \<Rightarrow> u8 list" where
  "rx_held s = take (snd s) (fst s)"

definition rx_wf :: "rx_state \<Rightarrow> bool" where
  "rx_wf s \<longleftrightarrow> buf_ok (fst s) (snd s) \<and> scan (rx_held s) = Wait"

lemma rx_wf_init [wf_intros]: "rx_wf rx_init"
  by (simp add: rx_wf_def rx_init_def rx_held_def buf_ok_def AFFINE_SERIAL_RX_BUF_LEN_def)

lemma rx_wf_short: "rx_wf s \<Longrightarrow> snd s \<le> 258"
  using scan_Wait_short [of "rx_held s"] by (auto simp: rx_wf_def rx_held_def buf_ok_def)

lemma rx_push_refines:
  assumes "rx_wf s"
  shows "\<exists>s'. rx_push s b = Some (fst (drain (rx_held s @ [b])), s') \<and> rx_wf s' \<and>
    rx_held s' = snd (drain (rx_held s @ [b]))"
proof -
  obtain buf n where s: "s = (buf, n)" by (cases s)
  have n: "n \<le> 258" "length buf = 512"
    using rx_wf_short [OF assms] assms
    by (auto simp: s rx_wf_def buf_ok_def AFFINE_SERIAL_RX_BUF_LEN_def)
  then have "take (n + 1) (buf[n := b]) = rx_held s @ [b]"
    by (simp add: s rx_held_def take_Suc_update)
  moreover have "buf_ok (buf[n := b]) (n + 1)"
    using n by (simp add: buf_ok_def AFFINE_SERIAL_RX_BUF_LEN_def)
  ultimately obtain buf' n' where
    "drain_frames (buf[n := b]) (n + 1) = Some (fst (drain (rx_held s @ [b])), buf', n')"
    "buf_ok buf' n'" "take n' buf' = snd (drain (rx_held s @ [b]))"
    using drain_frames_refines [of "buf[n := b]" "n + 1"] by auto
  then show ?thesis
    using n drain_rest_waits [of "rx_held s @ [b]"]
    by (auto simp: s rx_push_def access_simps rx_wf_def rx_held_def)
qed

lemma rx_run_refines:
  "rx_wf s \<Longrightarrow> \<exists>s'. rx_run s bs = Some (fst (drain (rx_held s @ bs)), s') \<and> rx_wf s' \<and>
     rx_held s' = snd (drain (rx_held s @ bs))"
proof (induction bs arbitrary: s)
  case Nil
  then show ?case by (auto simp: rx_wf_def drain_waiting)
next
  case (Cons b bs)
  from rx_push_refines [OF Cons.prems] obtain s1 where
    s1: "rx_push s b = Some (fst (drain (rx_held s @ [b])), s1)" "rx_wf s1"
    "rx_held s1 = snd (drain (rx_held s @ [b]))" by blast
  from Cons.IH [OF s1(2)] obtain s2 where
    "rx_run s1 bs = Some (fst (drain (rx_held s1 @ bs)), s2)" "rx_wf s2"
    "rx_held s2 = snd (drain (rx_held s1 @ bs))" by blast
  with s1 show ?case using drain_append [of "rx_held s @ [b]" bs]
    by (simp add: split_beta Let_def)
qed

section \<open>Round trips\<close>

text \<open>
  What a board sends, built with the code's own encoder: a touch frame is command 1 with ten bytes
  (two button bytes, the I/O status and seven touch bytes), a firmware reply is the board-info
  command with up to 255 bytes; the legacy touch frame is bracketed by \<open>0x28\<close> and \<open>0x29\<close>.
\<close>

datatype board_msg = MsgTouch "u8 list" | MsgBoardInfo "u8 list" | MsgLegacyTouch "u8 list"

fun board_encode :: "board_msg \<Rightarrow> u8 list" where
  "board_encode (MsgTouch p) = mai2_frame 0x01 p"
| "board_encode (MsgBoardInfo p) = mai2_frame AFFINE_CMD_GET_BOARD_INFO p"
| "board_encode (MsgLegacyTouch t) = [0x28] @ t @ [0x29]"

fun board_view :: "board_msg \<Rightarrow> parsed_frame" where
  "board_view (MsgTouch p) =
     FrameTouch (Some ((p ! 0 AND 0x0F) OR (p ! 1 AND 0xF0))) (Some (p ! 2 AND 0x3F)) (Some (drop 3 p))"
| "board_view (MsgBoardInfo p) = FrameBoardInfo (parse_board_info p)"
| "board_view (MsgLegacyTouch t) = FrameTouch None None (Some t)"

fun board_ok :: "board_msg \<Rightarrow> bool" where
  "board_ok (MsgTouch p) = (length p = 10)"
| "board_ok (MsgBoardInfo p) = (length p \<le> 255)"
| "board_ok (MsgLegacyTouch t) = (length t = 7)"

lemma length_mai2_frame: "length (mai2_frame cmd p) = length p + 4"
  by (simp add: mai2_frame_def Let_def)

lemma scan_board_encode:
  assumes "board_ok m"
  shows "scan (board_encode m) = Emit (board_view m) (length (board_encode m))"
proof (cases m)
  case (MsgTouch p)
  then have "length p = 10" using assms by simp
  then obtain a b c t where "p = a # b # c # t" "length t = 7"
    by (auto simp: length_Suc_conv numeral_eq_Suc)
  then show ?thesis
    by (simp add: MsgTouch scan_def mai2_frame_def Let_def nth_append)
next
  case (MsgBoardInfo p)
  then have "length p \<le> 255" using assms by simp
  then have "unat (of_nat (length p) :: u8) = length p" by (simp add: unat_of_nat)
  then show ?thesis
    by (simp add: MsgBoardInfo scan_def mai2_frame_def Let_def AFFINE_CMD_GET_BOARD_INFO_def)
next
  case (MsgLegacyTouch t)
  then show ?thesis using assms by (simp add: scan_def nth_append)
qed

lemma drain_board_encode: "board_ok m \<Longrightarrow> drain (board_encode m) = ([board_view m], [])"
  by (subst drain.simps) (simp add: scan_board_encode drain_waiting)

definition rx_step :: "rx_state \<Rightarrow> u8 \<Rightarrow> rx_state \<times> parsed_frame list" where
  "rx_step s b = (case rx_push s b of None \<Rightarrow> (s, []) | Some (fs, s') \<Rightarrow> (s', fs))"

lemma rx_run_feed: "rx_wf s \<Longrightarrow> rx_run s bs = Some (snd (feed rx_step s bs), fst (feed rx_step s bs))"
proof (induction bs arbitrary: s)
  case Nil
  then show ?case by simp
next
  case (Cons b bs)
  obtain s' where "rx_push s b = Some (fst (drain (rx_held s @ [b])), s')" "rx_wf s'"
    using rx_push_refines [OF Cons.prems] by blast
  with Cons.IH [of s'] show ?case by (simp add: rx_step_def split_beta Let_def)
qed

lemma feed_board_encode:
  assumes "board_ok m" "rx_wf s" "rx_held s = []"
  shows "\<exists>s'. feed rx_step s (board_encode m) = (s', [board_view m]) \<and> rx_wf s' \<and> rx_held s' = []"
  using rx_run_refines [OF assms(2), of "board_encode m"] rx_run_feed [OF assms(2), of "board_encode m"]
    drain_board_encode [OF assms(1)] assms(3)
  by (cases "feed rx_step s (board_encode m)") auto

interpretation board_serial: wire_format board_encode rx_step board_view board_ok
  "\<lambda>s. rx_wf s \<and> rx_held s = []"
  by unfold_locales (use feed_board_encode in blast)

section \<open>Soundness\<close>

lemma drain_sound:
  "f \<in> set (fst (drain xs)) \<Longrightarrow>
     \<exists>a m b. xs = a @ m @ b \<and> scan (m @ b) = Emit f (length m)"
proof (induction xs rule: drain.induct)
  case (1 xs)
  show ?case
  proof (cases "scan xs")
    case Wait
    with "1.prems" show ?thesis by (simp add: drain_waiting)
  next
    case Skip
    then obtain x ys where xs: "xs = x # ys" using scan_Skip_nonempty by (cases xs) auto
    with Skip "1.prems" have "f \<in> set (fst (drain ys))" by (simp add: xs drain.simps [of "x # ys"])
    with "1.IH"(1) [OF Skip] obtain a m b where "ys = a @ m @ b" "scan (m @ b) = Emit f (length m)"
      by (auto simp: xs)
    then show ?thesis by (metis append_Cons xs)
  next
    case (Emit g k)
    note k = scan_Emit_bounds [OF Emit]
    have f: "f = g \<or> f \<in> set (fst (drain (drop k xs)))"
      using Emit "1.prems" by (auto simp: drain.simps [of xs] split_beta Let_def)
    show ?thesis
    proof (cases "f = g")
      case True
      have "xs = [] @ take k xs @ drop k xs" "length (take k xs) = k"
        using k by auto
      with Emit True show ?thesis by (metis append_take_drop_id)
    next
      case False
      with f "1.IH"(2) [OF Emit] obtain a m b where
        "drop k xs = a @ m @ b" "scan (m @ b) = Emit f (length m)" by blast
      then show ?thesis by (metis append_assoc append_take_drop_id)
    qed
  qed
qed

lemma scan_Emit_buttons:
  assumes "scan xs = Emit (FrameTouch (Some b) io t) k"
  shows "k = 14 \<and> 14 \<le> length xs \<and> take 2 xs = [0xFF, 0x01] \<and>
    xs ! 13 = sum8 (take 13 xs) \<and> t = Some (take 7 (drop 6 xs)) \<and>
    b = (xs ! 3 AND 0x0F) OR (xs ! 4 AND 0xF0) \<and> io = Some (xs ! 5 AND 0x3F)"
proof -
  have "xs \<noteq> []" "xs ! 0 = 0xFF" "xs ! 1 = 0x01" "14 \<le> length xs"
    using assms by (auto simp: scan_def split: if_splits)
  then show ?thesis
    using assms by (auto simp: scan_def take_Suc_conv_app_nth numeral_2_eq_2 split: if_splits)
qed

section \<open>Properties\<close>

text \<open>
  C7. The serial reader never panics on any byte stream, and its frames are those of the parser over
  the whole stream, however the stream was cut into reads; the 512-byte buffer never holds more
  than 258 bytes between bytes, so the branch that restarts a full buffer is never taken.
\<close>

theorem serial_reader_refines_drain:
  "\<exists>s. rx_run rx_init bs = Some (fst (drain bs), s) \<and> rx_held s = snd (drain bs) \<and>
     snd s \<le> 258 \<and> length (fst s) = 512"
proof -
  have "rx_held rx_init = []" by (simp add: rx_held_def rx_init_def)
  then obtain s where "rx_run rx_init bs = Some (fst (drain bs), s)" "rx_wf s"
      "rx_held s = snd (drain bs)"
    using rx_run_refines [OF rx_wf_init, of bs] by auto
  then show ?thesis
    using rx_wf_short [of s] by (auto simp: rx_wf_def buf_ok_def AFFINE_SERIAL_RX_BUF_LEN_def)
qed

text \<open>
  C34. Round trip: any sequence of well-sized touch, board-info and legacy touch frames arriving at
  the serial reader in any chunks is delivered as exactly those frames, in order.
\<close>

theorem board_stream_roundtrip:
  assumes "\<forall>m \<in> set ms. board_ok m"
    and "concat chunks = concat (map board_encode ms)"
  shows "\<exists>s. rx_run rx_init (concat chunks) = Some (map board_view ms, s) \<and> rx_held s = []"
proof -
  have "rx_held rx_init = []" by (simp add: rx_held_def rx_init_def)
  then show ?thesis
    using board_serial.decode_chunked [of ms rx_init chunks] assms rx_wf_init
      rx_run_feed [OF rx_wf_init, of "concat chunks"] by auto
qed

theorem board_stream_roundtrip_witness:
  "\<exists>s. rx_run rx_init (concat [[0x28, 1, 2, 3, 4], [5, 6, 7, 0x29]]) =
     Some ([FrameTouch None None (Some [1, 2, 3, 4, 5, 6, 7])], s) \<and> rx_held s = []"
  using board_stream_roundtrip [of "[MsgLegacyTouch [1, 2, 3, 4, 5, 6, 7]]"
      "[[0x28, 1, 2, 3, 4], [5, 6, 7, 0x29]]"]
  by simp

text \<open>
  No invented input: every frame with button state that the reader delivers is 14 consecutive
  bytes of the stream that start with \<open>0xFF 0x01\<close> and end with the wrapping sum of the other 13, and
  its fields are those bytes.
\<close>

theorem serial_buttons_checked:
  assumes "rx_run rx_init bs = Some (fs, s)"
    and "FrameTouch (Some b) io t \<in> set fs"
  shows "\<exists>a m c. bs = a @ m @ c \<and> length m = 14 \<and> take 2 m = [0xFF, 0x01] \<and>
    m ! 13 = sum8 (take 13 m) \<and> b = (m ! 3 AND 0x0F) OR (m ! 4 AND 0xF0) \<and>
    io = Some (m ! 5 AND 0x3F) \<and> t = Some (take 7 (drop 6 m))"
proof -
  have "rx_held rx_init = []" by (simp add: rx_held_def rx_init_def)
  then have "fs = fst (drain bs)"
    using rx_run_refines [OF rx_wf_init, of bs] assms(1) by auto
  with assms(2) obtain a m c where m: "bs = a @ m @ c"
    "scan (m @ c) = Emit (FrameTouch (Some b) io t) (length m)"
    using drain_sound by blast
  note e = scan_Emit_buttons [OF m(2)]
  then have "length m = 14" by simp
  moreover have "(m @ c) ! i = m ! i" if "i < 14" for i
    using that \<open>length m = 14\<close> by (simp add: nth_append)
  ultimately have "bs = a @ m @ c \<and> length m = 14 \<and> take 2 m = [0xFF, 0x01] \<and>
    m ! 13 = sum8 (take 13 m) \<and> b = (m ! 3 AND 0x0F) OR (m ! 4 AND 0xF0) \<and>
    io = Some (m ! 5 AND 0x3F) \<and> t = Some (take 7 (drop 6 m))"
    using e m(1) by (elim conjE) simp
  then show ?thesis by blast
qed

theorem serial_buttons_checked_witness:
  "\<exists>a m c. board_encode (MsgTouch [5, 0x30, 1, 1, 2, 3, 4, 5, 6, 7]) = a @ m @ c \<and> length m = 14 \<and>
     m ! 13 = sum8 (take 13 m) \<and> (0x35 :: u8) = (m ! 3 AND 0x0F) OR (m ! 4 AND 0xF0)"
proof -
  let ?m = "MsgTouch [5, 0x30, 1, 1, 2, 3, 4, 5, 6, 7]"
  obtain s where "rx_run rx_init (board_encode ?m) = Some ([board_view ?m], s)"
    using feed_board_encode [of ?m rx_init] rx_wf_init rx_run_feed [OF rx_wf_init, of "board_encode ?m"]
    by (auto simp: rx_held_def rx_init_def simp del: board_encode.simps board_view.simps)
  from serial_buttons_checked [OF this, of "0x35" "Some 1" "Some [1, 2, 3, 4, 5, 6, 7]"]
  show ?thesis by (fastforce simp del: board_encode.simps)
qed

end
