(* ===== verification/Mai2_Hid.thy ===== *)
theory Mai2_Hid
  imports Mai2_Frames
begin

unbundle bit_operations_syntax

text \<open>
  The HID side of \<open>crates/affine-mai2/src/lib.rs\<close>: parsing a touch report
  (\<open>parse_touch_hid_part\<close>), joining its two parts (\<open>TouchHidAssembler::push\<close>), repacking the touch
  bits for the game (\<open>pack_legacy_touch_bits\<close>), the button map (\<open>map_buttons\<close>) and the target
  colours of a fade frame (\<open>button_rgb_payload\<close>).
\<close>

section \<open>Bits\<close>

lemma and_exp_nonzero: "(x :: u8) AND 2 ^ k \<noteq> 0 \<longleftrightarrow> bit x k"
  by (simp add: and_exp_eq_0_iff_not_bit)

lemma bit_exp_u8: "bit (2 ^ k :: u8) n \<longleftrightarrow> n = k \<and> k < 8"
  by (auto simp: bit_exp_iff)

lemma bit_exp_u16: "bit (2 ^ k :: u16) n \<longleftrightarrow> n = k \<and> k < 16"
  by (auto simp: bit_exp_iff)

section \<open>Touch reports\<close>

record touch_hid_part =
  tp_stream_seq :: u8
  tp_part_index :: u8
  tp_part_count :: u8
  tp_touch_bits :: "u8 list"

text \<open>
  \<open>parse_touch_hid_part\<close>: the report id is the first byte or, behind a leading id byte, the second.
  The outer option is the panic of an index out of range.
\<close>

definition parse_touch_hid_part :: "u8 list \<Rightarrow> touch_hid_part option option" where
  "parse_touch_hid_part report =
     (case (if report \<noteq> [] \<and> hd report = MAI2_TOUCH_HID_REPORT_ID then Some 0
            else if length report > 1 \<and> report ! 1 = MAI2_TOUCH_HID_REPORT_ID then Some 1
            else None) of
        None \<Rightarrow> Some None
      | Some start \<Rightarrow>
          if length report - start < MAI2_TOUCH_HID_REPORT_LEN then Some None
          else do {
            data \<leftarrow> slice report start (start + MAI2_TOUCH_HID_REPORT_LEN);
            part_index \<leftarrow> get_at data 4;
            part_count \<leftarrow> get_at data 5;
            d1 \<leftarrow> get_at data 1;
            d2 \<leftarrow> get_at data 2;
            d3 \<leftarrow> get_at data 3;
            d7 \<leftarrow> get_at data 7;
            d12 \<leftarrow> get_at data 12;
            touch_bits \<leftarrow> slice data 50 55;
            if d1 \<noteq> 1 \<or> d2 \<noteq> 1 \<or> part_count \<noteq> MAI2_TOUCH_HID_PART_COUNT
               \<or> part_index \<ge> part_count \<or> d7 = 0 \<or> d7 > 17 \<or> d12 AND 0x04 = 0
            then Some None
            else Some (Some \<lparr>tp_stream_seq = d3, tp_part_index = part_index,
                             tp_part_count = part_count, tp_touch_bits = touch_bits\<rparr>)
          })"

text \<open>A part the assembler accepts.\<close>

definition part_ok :: "touch_hid_part \<Rightarrow> bool" where
  "part_ok p \<longleftrightarrow> tp_part_count p = 2 \<and> tp_part_index p < 2 \<and> length (tp_touch_bits p) = 5"

lemma parse_touch_hid_part_ok:
  "parse_touch_hid_part report \<noteq> None \<and>
     (\<forall>p. parse_touch_hid_part report = Some (Some p) \<longrightarrow> part_ok p)"
  by (auto simp: parse_touch_hid_part_def access_simps part_ok_def mai2_frame_consts
      linorder_not_le split: option.splits if_splits)

section \<open>Packing touch bits\<close>

text \<open>
  Five touch areas per packed byte, 34 areas in all; the \<open>break\<close> at area 34 ends a loop whose
  remaining areas are all past 34.
\<close>

definition pack_group :: "u8 list \<Rightarrow> nat \<Rightarrow> u8" where
  "pack_group touch_bits g =
     foldl (\<lambda>packed k.
        let touch_index = g * 5 + k in
        if touch_index \<ge> 34 then packed
        else if touch_bits ! (touch_index div 8) AND push_bit (touch_index mod 8) 1 \<noteq> 0
        then packed OR push_bit k 1
        else packed) 0 [0..<5]"

definition pack_legacy_touch_bits :: "u8 list \<Rightarrow> u8 list" where
  "pack_legacy_touch_bits touch_bits = map (pack_group touch_bits) [0..<7]"

text \<open>Area \<open>i\<close> of the 34 in the report, and in the packed form.\<close>

definition area :: "u8 list \<Rightarrow> nat \<Rightarrow> bool" where
  "area touch_bits i = bit (touch_bits ! (i div 8)) (i mod 8)"

definition packed_area :: "u8 list \<Rightarrow> nat \<Rightarrow> bool" where
  "packed_area touch i = bit (touch ! (i div 5)) (i mod 5)"

lemma bit_pack_fold:
  "bit (foldl (\<lambda>packed k. let i = g * 5 + k in
        if i \<ge> 34 then packed
        else if tb ! (i div 8) AND push_bit (i mod 8) 1 \<noteq> 0 then packed OR push_bit k 1
        else packed) (a :: u8) ks) n \<longleftrightarrow>
     bit a n \<or> (n \<in> set ks \<and> n < 8 \<and> g * 5 + n < 34 \<and> area tb (g * 5 + n))"
proof (induction ks arbitrary: a)
  case Nil
  then show ?case by simp
next
  case (Cons k ks)
  have "bit (let i = g * 5 + k in
        if i \<ge> 34 then a
        else if tb ! (i div 8) AND push_bit (i mod 8) 1 \<noteq> 0 then a OR push_bit k 1
        else a) n \<longleftrightarrow> bit a n \<or> (n = k \<and> n < 8 \<and> g * 5 + n < 34 \<and> area tb (g * 5 + n))"
    using and_exp_nonzero by (auto simp: Let_def area_def bit_or_iff bit_exp_u8)
  then show ?case by (simp add: Cons.IH) blast
qed

lemma bit_pack_group:
  "bit (pack_group tb g) n \<longleftrightarrow> n < 5 \<and> g * 5 + n < 34 \<and> area tb (g * 5 + n)"
  unfolding pack_group_def bit_pack_fold by auto

lemma packed_area_pack: "i < 34 \<Longrightarrow> packed_area (pack_legacy_touch_bits tb) i = area tb i"
proof -
  assume "i < 34"
  then have "i div 5 < 7" by simp
  then show ?thesis using \<open>i < 34\<close>
    by (simp add: packed_area_def pack_legacy_touch_bits_def bit_pack_group)
qed

section \<open>The assembler\<close>

record touch_hid_assembler =
  ta_stream_seq :: u8
  ta_part_mask :: u8
  ta_touch_bits :: "u8 list"

definition touch_hid_assembler_default :: touch_hid_assembler where
  "touch_hid_assembler_default = \<lparr>ta_stream_seq = 0, ta_part_mask = 0, ta_touch_bits = replicate 5 0\<rparr>"

definition assembler_push ::
  "touch_hid_assembler \<Rightarrow> touch_hid_part \<Rightarrow> touch_hid_assembler \<times> u8 list option" where
  "assembler_push a part =
     (if tp_part_count part \<noteq> MAI2_TOUCH_HID_PART_COUNT \<or> tp_part_index part \<ge> tp_part_count part
      then (a, None)
      else
        let a = (if ta_part_mask a = 0 \<or> ta_stream_seq a \<noteq> tp_stream_seq part
                 then a\<lparr>ta_stream_seq := tp_stream_seq part, ta_part_mask := 0,
                        ta_touch_bits := replicate 5 0\<rparr>
                 else a);
            a = a\<lparr>ta_touch_bits := tp_touch_bits part,
                  ta_part_mask := ta_part_mask a OR push_bit (unat (tp_part_index part)) 1\<rparr>
        in if ta_part_mask a = push_bit (unat (tp_part_count part)) 1 - 1
           then (a\<lparr>ta_part_mask := 0\<rparr>, Some (pack_legacy_touch_bits (ta_touch_bits a)))
           else (a, None))"

text \<open>
  What the assembler remembers: nothing, or the stream number and index of one part that waits for
  the other.
\<close>

definition assembler_pending :: "touch_hid_assembler \<Rightarrow> (u8 \<times> u8) option" where
  "assembler_pending a =
     (if ta_part_mask a = 0 then None
      else Some (ta_stream_seq a, if ta_part_mask a = 1 then 0 else 1))"

definition assembler_wf :: "touch_hid_assembler \<Rightarrow> bool" where
  "assembler_wf a \<longleftrightarrow> ta_part_mask a \<in> {0, 1, 2}"

definition pair_step :: "(u8 \<times> u8) option \<Rightarrow> touch_hid_part \<Rightarrow> (u8 \<times> u8) option \<times> u8 list option" where
  "pair_step pending p =
     (case pending of
        Some (sq, i) \<Rightarrow>
          if sq = tp_stream_seq p \<and> i \<noteq> tp_part_index p
          then (None, Some (pack_legacy_touch_bits (tp_touch_bits p)))
          else (Some (tp_stream_seq p, tp_part_index p), None)
      | None \<Rightarrow> (Some (tp_stream_seq p, tp_part_index p), None))"

lemma assembler_push_pairs:
  assumes "assembler_wf a" "part_ok p"
  shows "assembler_wf (fst (assembler_push a p)) \<and>
    pair_step (assembler_pending a) p =
      (assembler_pending (fst (assembler_push a p)), snd (assembler_push a p))"
proof -
  have idx: "tp_part_index p = 0 \<or> tp_part_index p = 1"
  proof -
    have "unat (tp_part_index p) < 2"
      using assms(2) by (simp add: part_ok_def word_less_nat_alt)
    then have "unat (tp_part_index p) = 0 \<or> unat (tp_part_index p) = 1" by linarith
    then show ?thesis by (auto simp: word_unat_eq_iff)
  qed
  have mask: "ta_part_mask a = 0 \<or> ta_part_mask a = 1 \<or> ta_part_mask a = 2"
    using assms(1) by (auto simp: assembler_wf_def)
  have cnt: "tp_part_count p = 2" using assms(2) by (simp add: part_ok_def)
  have le: "\<not> (2 :: u8) \<le> 1" by (simp add: word_le_nat_alt)
  from idx mask show ?thesis
    by (elim disjE) (simp_all add: cnt le assembler_push_def pair_step_def assembler_pending_def
        assembler_wf_def MAI2_TOUCH_HID_PART_COUNT_def Let_def)
qed

fun assembler_run :: "touch_hid_assembler \<Rightarrow> touch_hid_part list \<Rightarrow> touch_hid_assembler \<times> u8 list list" where
  "assembler_run a [] = (a, [])"
| "assembler_run a (p # ps) =
     (let (a1, r) = assembler_push a p; (a2, rs) = assembler_run a1 ps in (a2, opt_list r @ rs))"

fun pair_run :: "(u8 \<times> u8) option \<Rightarrow> touch_hid_part list \<Rightarrow> (u8 \<times> u8) option \<times> u8 list list" where
  "pair_run s [] = (s, [])"
| "pair_run s (p # ps) =
     (let (s1, r) = pair_step s p; (s2, rs) = pair_run s1 ps in (s2, opt_list r @ rs))"

lemma assembler_run_pairs:
  "assembler_wf a \<Longrightarrow> (\<And>p. p \<in> set ps \<Longrightarrow> part_ok p) \<Longrightarrow>
     pair_run (assembler_pending a) ps =
       (assembler_pending (fst (assembler_run a ps)), snd (assembler_run a ps))"
proof (induction ps arbitrary: a)
  case Nil
  then show ?case by simp
next
  case (Cons p ps)
  then have "assembler_wf (fst (assembler_push a p))" "pair_step (assembler_pending a) p =
      (assembler_pending (fst (assembler_push a p)), snd (assembler_push a p))"
    using assembler_push_pairs [of a p] by auto
  with Cons show ?case by (simp add: split_beta Let_def)
qed

text \<open>
  The frames of a list of accepted parts, read from the left: two neighbours of the same stream number
  and with different indices make a frame, packed from the second, and are both used up.
\<close>

fun paired_frames :: "touch_hid_part list \<Rightarrow> u8 list list" where
  "paired_frames (p # q # ps) =
     (if tp_stream_seq p = tp_stream_seq q \<and> tp_part_index p \<noteq> tp_part_index q
      then pack_legacy_touch_bits (tp_touch_bits q) # paired_frames ps
      else paired_frames (q # ps))"
| "paired_frames ps = []"

lemma pair_run_paired_frames:
  "snd (pair_run (Some (tp_stream_seq p, tp_part_index p)) ps) = paired_frames (p # ps)"
  "snd (pair_run None ps) = paired_frames ps"
proof (induction ps arbitrary: p rule: length_induct)
  case (1 ps)
  {
    case 1
    then show ?case using "1.IH" by (cases ps) (auto simp: pair_step_def split_beta Let_def)
  next
    case 2
    then show ?case using "1.IH" by (cases ps) (auto simp: pair_step_def split_beta Let_def)
  }
qed

section \<open>Buttons\<close>

definition MAI2_IO_GAMEBTN_SELECT :: u16 where "MAI2_IO_GAMEBTN_SELECT = 0x100"
definition MAI2_AFFINE_EXT_SELECT_BIT :: nat where "MAI2_AFFINE_EXT_SELECT_BIT = 0"

text \<open>\<open>if buttons & mask != 0 { out |= button }\<close>, the step \<open>map_buttons\<close> repeats.\<close>

definition map_one :: "u8 \<Rightarrow> u8 \<Rightarrow> u16 \<Rightarrow> u16 \<Rightarrow> u16" where
  "map_one buttons m button out = (if buttons AND m \<noteq> 0 then out OR button else out)"

definition map_buttons :: "u8 \<Rightarrow> u8 \<Rightarrow> u16" where
  "map_buttons buttons0 buttons1 =
     (let out = 0;
          out = map_one buttons0 0x01 0x01 out;
          out = map_one buttons0 0x02 0x02 out;
          out = map_one buttons0 0x04 0x04 out;
          out = map_one buttons0 0x08 0x08 out;
          out = map_one buttons0 0x10 0x10 out;
          out = map_one buttons0 0x20 0x20 out;
          out = map_one buttons0 0x40 0x40 out;
          out = map_one buttons0 0x80 0x80 out
      in map_one buttons1 (push_bit MAI2_AFFINE_EXT_SELECT_BIT 1) MAI2_IO_GAMEBTN_SELECT out)"

lemma bit_map_one:
  "bit (map_one buttons (2 ^ k) (2 ^ j) out) n \<longleftrightarrow>
     bit out n \<or> (bit buttons k \<and> n = j \<and> j < 16)"
  using and_exp_nonzero by (auto simp: map_one_def bit_or_iff bit_exp_u16)

lemma map_buttons_shifts:
  "map_buttons b0 b1 =
     map_one b1 (2 ^ 0) (2 ^ 8)
      (foldl (\<lambda>out k. map_one b0 (2 ^ k) (2 ^ k) out) 0 [0..<8])"
  by (simp add: map_buttons_def MAI2_AFFINE_EXT_SELECT_BIT_def MAI2_IO_GAMEBTN_SELECT_def
      upt_rec)

lemma bit_map_fold:
  "\<forall>k \<in> set ks. k < 8 \<Longrightarrow>
   bit (foldl (\<lambda>out k. map_one b (2 ^ k) (2 ^ k) out) out ks) n \<longleftrightarrow>
     bit out n \<or> (n \<in> set ks \<and> bit b n)"
  by (induction ks arbitrary: out) (auto simp: bit_map_one)

section \<open>Target colours\<close>

text \<open>\<open>button_rgb_payload\<close>: of each button's seven bytes (start, target, speed) the target colour.\<close>

definition button_rgb_payload :: "u8 list \<Rightarrow> u8 list" where
  "button_rgb_payload buttons =
     concat (map (\<lambda>i. [buttons ! (i * 7 + 3), buttons ! (i * 7 + 4), buttons ! (i * 7 + 5)]) [0..<8])"

section \<open>Properties\<close>

text \<open>
  C35. Repacking for the game loses nothing and invents nothing: the result is seven bytes, bit \<open>n\<close> of
  byte \<open>g\<close> is set exactly when \<open>n\<close> is below five and area \<open>g * 5 + n\<close> exists and is on in the report, and
  two reports are packed alike exactly when they agree on all 34 touch areas.
\<close>

theorem pack_legacy_touch_bits_exact:
  "length (pack_legacy_touch_bits tb) = 7 \<and>
   (\<forall>g < 7. \<forall>n. bit (pack_legacy_touch_bits tb ! g) n \<longleftrightarrow> n < 5 \<and> g * 5 + n < 34 \<and> area tb (g * 5 + n)) \<and>
   (\<forall>x \<in> set (pack_legacy_touch_bits tb). unat x < 32) \<and>
   (\<forall>i < 34. packed_area (pack_legacy_touch_bits tb) i = area tb i) \<and>
   (pack_legacy_touch_bits tb = pack_legacy_touch_bits tb' \<longleftrightarrow> (\<forall>i < 34. area tb i = area tb' i))"
proof -
  have small: "unat (pack_group tb g) < 32" for g
  proof -
    have "take_bit 5 (pack_group tb g) = pack_group tb g"
      by (rule bit_eqI) (auto simp: bit_take_bit_iff bit_pack_group)
    then have "pack_group tb g = pack_group tb g AND mask 5"
      by (simp add: take_bit_eq_mask)
    then have "pack_group tb g \<le> mask 5" by (metis word_and_le1)
    then have "pack_group tb g \<le> 31" by (simp add: mask_eq_exp_minus_1)
    then have "unat (pack_group tb g) \<le> unat (31 :: u8)" by (simp only: word_le_nat_alt)
    then show ?thesis by simp
  qed
  have "pack_group tb g = pack_group tb' g" if "\<forall>i < 34. area tb i = area tb' i" for g
    using that by (intro bit_eqI) (auto simp: bit_pack_group)
  then have "pack_legacy_touch_bits tb = pack_legacy_touch_bits tb'" if "\<forall>i < 34. area tb i = area tb' i"
    using that by (simp add: pack_legacy_touch_bits_def)
  moreover have "\<forall>i < 34. area tb i = area tb' i"
    if "pack_legacy_touch_bits tb = pack_legacy_touch_bits tb'"
    using packed_area_pack [of _ tb] packed_area_pack [of _ tb'] that by auto
  moreover have "\<forall>x \<in> set (pack_legacy_touch_bits tb). unat x < 32"
    using small by (auto simp: pack_legacy_touch_bits_def)
  moreover have "\<forall>g < 7. \<forall>n. bit (pack_legacy_touch_bits tb ! g) n \<longleftrightarrow>
      n < 5 \<and> g * 5 + n < 34 \<and> area tb (g * 5 + n)"
    by (simp add: pack_legacy_touch_bits_def bit_pack_group)
  ultimately show ?thesis
    using packed_area_pack [of _ tb] by (auto simp: pack_legacy_touch_bits_def)
qed

theorem pack_legacy_touch_bits_exact_witness:
  "length (pack_legacy_touch_bits [1, 0, 0, 0, 2]) = 7 \<and>
   packed_area (pack_legacy_touch_bits [1, 0, 0, 0, 2]) 33 = True \<and>
   packed_area (pack_legacy_touch_bits [1, 0, 0, 0, 2]) 1 = False"
  using pack_legacy_touch_bits_exact [of "[1, 0, 0, 0, 2]" "[]"] by (auto simp: area_def bit_numeral_rec)

text \<open>
  The body of the read loop of \<open>touch_hid_thread\<close>: one report, the new assembler and the touch frame
  it completes (\<open>None\<close>: a panic), and the loop over the reports.
\<close>

definition touch_hid_report ::
  "touch_hid_assembler \<Rightarrow> u8 list \<Rightarrow> (touch_hid_assembler \<times> u8 list option) option" where
  "touch_hid_report a report = do {
     part \<leftarrow> parse_touch_hid_part report;
     Some (case part of None \<Rightarrow> (a, None) | Some p \<Rightarrow> assembler_push a p)
   }"

fun touch_hid_reports ::
  "touch_hid_assembler \<Rightarrow> u8 list list \<Rightarrow> (touch_hid_assembler \<times> u8 list list) option" where
  "touch_hid_reports a [] = Some (a, [])"
| "touch_hid_reports a (r # rs) = do {
     (a1, t) \<leftarrow> touch_hid_report a r;
     (a2, ts) \<leftarrow> touch_hid_reports a1 rs;
     Some (a2, opt_list t @ ts)
   }"

definition report_parts :: "u8 list list \<Rightarrow> touch_hid_part list" where
  "report_parts rs = concat (map (\<lambda>r. opt_list (Option.bind (parse_touch_hid_part r) id)) rs)"

lemma touch_hid_reports_run:
  "\<exists>a'. touch_hid_reports a rs = Some (a', snd (assembler_run a (report_parts rs)))"
proof (induction rs arbitrary: a)
  case Nil
  then show ?case by (simp add: report_parts_def)
next
  case (Cons r rs)
  obtain part where part: "parse_touch_hid_part r = Some part"
    using parse_touch_hid_part_ok [of r] by blast
  show ?case
  proof (cases part)
    case None
    with part Cons.IH [of a] show ?thesis by (auto simp: touch_hid_report_def report_parts_def)
  next
    case (Some p)
    obtain a1 t where "assembler_push a p = (a1, t)" by (cases "assembler_push a p")
    with Some part Cons.IH [of a1] show ?thesis
      by (auto simp: touch_hid_report_def report_parts_def split_beta Let_def)
  qed
qed

text \<open>
  C36. Touch reports: no report, whatever its length and contents, makes the touch thread panic, and
  the frames it applies are those of neighbouring accepted parts: an accepted part completes a frame
  exactly when the accepted part right before it has the same stream number and the other index and
  did not itself complete a frame; the frame is packed from the later part.  Two parts of a stream with
  an accepted part of another stream between them make no frame.
\<close>

theorem touch_hid_frames_are_pairs:
  "\<exists>a. touch_hid_reports touch_hid_assembler_default rs = Some (a, paired_frames (report_parts rs)) \<and>
     set (report_parts rs) \<subseteq> {p. part_ok p}"
proof -
  have ok: "part_ok p" if p: "p \<in> set (report_parts rs)" for p
  proof -
    obtain r where "Option.bind (parse_touch_hid_part r) id = Some p"
      using p by (auto simp: report_parts_def)
    then show ?thesis using parse_touch_hid_part_ok [of r] by (auto simp: bind_eq_Some_conv)
  qed
  have "assembler_wf touch_hid_assembler_default" "assembler_pending touch_hid_assembler_default = None"
    by (auto simp: assembler_wf_def assembler_pending_def touch_hid_assembler_default_def)
  with assembler_run_pairs [of touch_hid_assembler_default "report_parts rs"] ok
  have "snd (assembler_run touch_hid_assembler_default (report_parts rs)) =
      snd (pair_run None (report_parts rs))"
    by simp
  then show ?thesis
    using touch_hid_reports_run [of touch_hid_assembler_default rs] ok pair_run_paired_frames(2) by auto
qed

text \<open>
  The game's button word is exactly the eight button bits and, as bit 8, the select bit of the
  I/O status.
\<close>

theorem map_buttons_exact:
  "bit (map_buttons buttons0 buttons1) n \<longleftrightarrow> (n < 8 \<and> bit buttons0 n) \<or> (n = 8 \<and> bit buttons1 0)"
proof -
  have "bit (map_buttons buttons0 buttons1) n \<longleftrightarrow>
      (n \<in> set [0..<8] \<and> bit buttons0 n) \<or> (bit buttons1 0 \<and> n = 8)"
    unfolding map_buttons_shifts bit_map_one by (subst bit_map_fold) auto
  then show ?thesis by auto
qed

text \<open>
  A command sent over the vendor HID pipe is the serial frame of the same command behind report
  id 0, padded with zeros to 65 bytes; exactly the payloads of more than 60 bytes are refused.
\<close>

theorem hid_frame_is_serial_frame:
  "if length payload \<le> 60
   then (\<exists>r. hid_frame_report cmd payload = Some r \<and> length r = 65 \<and>
     r = [0] @ mai2_frame cmd payload @ replicate (60 - length payload) 0)
   else hid_frame_report cmd payload = None"
  by (simp add: hid_frame_report_def mai2_frame_def mai2_frame_consts Let_def)

end
