(* ===== verification/Types.thy ===== *)
theory Types
  imports Prelude
begin

text \<open>
  \<open>crates/affine-core/src/types.rs\<close>: the result codes of the exported functions and the guards for the
  pointers a game hands in.  The game's address space is a map from addresses to bytes; the null
  pointer is address 0.  That a non-null pointer is valid is the caller's duty (the \<open>unsafe\<close>
  contract) and is built into the map being total.
\<close>

type_synonym hresult = int

definition S_OK :: hresult where "S_OK = 0"
definition S_FALSE :: hresult where "S_FALSE = 1"
definition E_FAIL :: hresult where "E_FAIL = sint (0x80004005 :: u32)"
definition E_INVALIDARG :: hresult where "E_INVALIDARG = sint (0x80070057 :: u32)"

lemma hresult_values: "S_OK = 0" "S_FALSE = 1" "E_FAIL = -2147467259" "E_INVALIDARG = -2147024809"
  by (simp_all add: S_OK_def S_FALSE_def E_FAIL_def E_INVALIDARG_def)

lemma hresult_distinct [simp]:
  "S_OK \<noteq> S_FALSE" "S_OK \<noteq> E_FAIL" "S_OK \<noteq> E_INVALIDARG" "S_FALSE \<noteq> E_FAIL"
  "S_FALSE \<noteq> E_INVALIDARG" "E_FAIL \<noteq> E_INVALIDARG"
  "S_FALSE \<noteq> S_OK" "E_FAIL \<noteq> S_OK" "E_INVALIDARG \<noteq> S_OK" "E_FAIL \<noteq> S_FALSE"
  "E_INVALIDARG \<noteq> S_FALSE" "E_INVALIDARG \<noteq> E_FAIL"
  by (simp_all add: hresult_values)

section \<open>The game's memory\<close>

type_synonym bytes_memory = "nat \<Rightarrow> u8"

definition load :: "bytes_memory \<Rightarrow> nat \<Rightarrow> nat \<Rightarrow> u8 list" where
  "load m a n = map m [a..<a + n]"

fun store :: "nat \<Rightarrow> u8 list \<Rightarrow> bytes_memory \<Rightarrow> bytes_memory" where
  "store a [] m = m"
| "store a (b # bs) m = store (a + 1) bs (m(a := b))"

text \<open>\<open>write_value\<close> for a value of which \<open>bytes\<close> is the representation in memory.\<close>

definition write_value :: "nat \<Rightarrow> u8 list \<Rightarrow> bytes_memory \<Rightarrow> bytes_memory" where
  "write_value dst bytes m = (if dst = 0 then m else store dst bytes m)"

text \<open>\<open>read_bytes\<close> and \<open>read_mut_bytes\<close>: the slice the pointer stands for.\<close>

definition read_bytes :: "bytes_memory \<Rightarrow> nat \<Rightarrow> nat \<Rightarrow> u8 list option" where
  "read_bytes m src len = (if src = 0 then None else Some (load m src len))"

text \<open>What the callee leaves in a mutable slice is written back with \<open>store\<close>.\<close>

definition read_mut_bytes :: "bytes_memory \<Rightarrow> nat \<Rightarrow> nat \<Rightarrow> u8 list option" where
  "read_mut_bytes m src len = (if src = 0 then None else Some (load m src len))"

text \<open>Integers of \<open>w\<close> bytes in memory, little endian.\<close>

fun le_bytes :: "nat \<Rightarrow> nat \<Rightarrow> u8 list" where
  "le_bytes 0 n = []"
| "le_bytes (Suc w) n = of_nat n # le_bytes w (n div 256)"

fun nat_of_le :: "u8 list \<Rightarrow> nat" where
  "nat_of_le [] = 0"
| "nat_of_le (b # bs) = unat b + 256 * nat_of_le bs"

lemma length_le_bytes [simp]: "length (le_bytes w n) = w"
  by (induction w arbitrary: n) auto

lemma le_bytes_nat_of_le: "le_bytes (length bs) (nat_of_le bs) = bs"
proof (induction bs)
  case (Cons b bs)
  have "(256 :: u8) = 0" by simp
  then have "256 * (of_nat (nat_of_le bs) :: u8) = 0" by (metis mult_zero_left)
  then show ?case using Cons unat_u8_less [of b] by (simp add: div_add1_eq)
qed simp

lemma nat_of_le_le_bytes: "n < 256 ^ w \<Longrightarrow> nat_of_le (le_bytes w n) = n"
proof (induction w arbitrary: n)
  case (Suc w)
  then have "nat_of_le (le_bytes w (n div 256)) = n div 256" by (simp add: less_mult_imp_div_less mult.commute)
  then show ?case by (simp add: unat_of_nat)
qed simp

lemma length_load [simp]: "length (load m a n) = n"
  by (simp add: load_def)

lemma store_apply:
  "store a bs m x = (if a \<le> x \<and> x < a + length bs then bs ! (x - a) else m x)"
proof (induction bs arbitrary: a m)
  case (Cons b bs)
  show ?case by (auto simp: Cons nth_Cons' not_le)
qed auto

lemma load_store: "length bs = n \<Longrightarrow> load (store a bs m) a n = bs"
  by (rule nth_equalityI) (auto simp: load_def store_apply)

lemma load_store_apart:
  "a + length bs \<le> b \<or> b + n \<le> a \<Longrightarrow> load (store a bs m) b n = load m b n"
  by (auto simp: load_def store_apply)

lemma store_load: "store a (load m a n) m = m"
  by (rule ext) (auto simp: store_apply load_def)

lemma nat_of_le_less: "nat_of_le bs < 256 ^ length bs"
proof (induction bs)
  case (Cons b bs)
  have "unat b + 256 * nat_of_le bs < 256 * (nat_of_le bs + 1)" using unat_u8_less [of b] by simp
  also have "\<dots> \<le> 256 * 256 ^ length bs" using Cons by (intro mult_le_mono2) simp
  finally show ?case by simp
qed simp

text \<open>A \<open>u64\<close> read from memory and written back.\<close>

lemma u64_in_memory: "length bs = 8 \<Longrightarrow> le_bytes 8 (unat (of_nat (nat_of_le bs) :: u64)) = bs"
proof -
  assume n: "length bs = 8"
  then have "nat_of_le bs < 2 ^ LENGTH(64)" using nat_of_le_less [of bs] by simp
  then have "unat (of_nat (nat_of_le bs) :: u64) = nat_of_le bs" by (simp add: unat_of_nat)
  then show ?thesis using le_bytes_nat_of_le [of bs] n by simp
qed

section \<open>Calls that work on the game's memory\<close>

definition mem_changes :: "bytes_memory \<Rightarrow> bytes_memory \<Rightarrow> nat set" where
  "mem_changes m m' = {x. m' x \<noteq> m x}"

text \<open>The \<open>n\<close> bytes a non-null pointer stands for.\<close>

definition pointee :: "nat \<Rightarrow> nat \<Rightarrow> nat set" where
  "pointee a n = (if a = 0 then {} else {a..<a + n})"

lemma mem_changes_same [simp]: "mem_changes m m = {}"
  by (simp add: mem_changes_def)

lemma mem_changes_trans: "mem_changes m m' \<subseteq> A \<Longrightarrow> mem_changes m' m'' \<subseteq> B \<Longrightarrow> mem_changes m m'' \<subseteq> A \<union> B"
  unfolding mem_changes_def by (auto, metis (mono_tags, lifting) mem_Collect_eq subsetD)

lemma mem_changes_store: "length bs = n \<Longrightarrow> mem_changes m (store a bs m) \<subseteq> {a..<a + n}"
  by (auto simp: mem_changes_def store_apply)

lemma in_mem_changes_iff: "x \<in> mem_changes m m' \<longleftrightarrow> m' x \<noteq> m x"
  by (simp add: mem_changes_def)

lemma write_value_apply:
  "write_value a bs m x = (if x \<in> pointee a (length bs) then bs ! (x - a) else m x)"
  by (auto simp: write_value_def pointee_def store_apply)

lemma mem_changes_write_value: "length bs = n \<Longrightarrow> mem_changes m (write_value a bs m) \<subseteq> pointee a n"
  using mem_changes_store [of bs n m a] by (simp add: write_value_def pointee_def)

text \<open>A sequence of exported calls; \<open>None\<close> is a call that panics or never returns.\<close>

fun exported_run ::
  "('c \<Rightarrow> bytes_memory \<times> 's \<Rightarrow> (int \<times> bytes_memory \<times> 's) option) \<Rightarrow> 'c list \<Rightarrow> bytes_memory \<times> 's \<Rightarrow>
     (int list \<times> bytes_memory \<times> 's) option" where
  "exported_run call [] s = Some ([], s)"
| "exported_run call (c # cs) s = do {
     (r, s) \<leftarrow> call c s;
     (rs, s) \<leftarrow> exported_run call cs s;
     Some (r # rs, s)
   }"

text \<open>
  The contract of an exported interface: a call writes nothing but the bytes it owns for its duration,
  and without the memory it is a sequence of calls of the crate behind it.
\<close>

locale exported_interface =
  fixes call :: "'c \<Rightarrow> bytes_memory \<times> 's \<Rightarrow> (int \<times> bytes_memory \<times> 's) option"
    and owned :: "'c \<Rightarrow> nat set"
    and inner :: "bytes_memory \<Rightarrow> 'c \<Rightarrow> 's \<Rightarrow> 's option"
    and good :: "'s \<Rightarrow> bool"
  assumes confined: "good s \<Longrightarrow> call c (m, s) = Some (r, m', s') \<Longrightarrow> mem_changes m m' \<subseteq> owned c"
    and inner: "map_option (\<lambda>(r, m', s'). s') (call c (m, s)) = inner m c s"
    and inner_good: "inner m c s = Some s' \<Longrightarrow> good s \<Longrightarrow> good s'"
begin

lemma call_inner: "call c (m, s) = Some (r, m', s') \<Longrightarrow> inner m c s = Some s'"
  using inner [of c m s] by simp

lemma run_confined:
  "exported_run call cs (m, s) = Some (rs, m', s') \<Longrightarrow> good s \<Longrightarrow>
     mem_changes m m' \<subseteq> (\<Union>c \<in> set cs. owned c) \<and> good s'"
proof (induction cs arbitrary: m s rs)
  case (Cons c cs)
  then obtain r m1 s1 rs1 where run: "call c (m, s) = Some (r, m1, s1)"
    "exported_run call cs (m1, s1) = Some (rs1, m', s')"
    by (auto split: bind_splits)
  have "good s1" using inner_good [OF call_inner [OF run(1)] Cons.prems(2)] .
  with mem_changes_trans [OF confined [OF Cons.prems(2) run(1)]] Cons.IH [OF run(2)] show ?case by simp
qed simp

text \<open>
  When the calls that fail are those that use something the state refuses for good, a sequence of calls
  fails exactly if one of them uses it.
\<close>

lemma run_refused:
  assumes fails: "\<forall>m c s. good s \<longrightarrow> (inner m c s = None \<longleftrightarrow> refused s \<and> uses c)"
    and stays: "\<forall>m c s s'. inner m c s = Some s' \<longrightarrow> (refused s' \<longleftrightarrow> refused s)"
  shows "good s \<Longrightarrow> exported_run call cs (m, s) = None \<longleftrightarrow> refused s \<and> list_ex uses cs"
proof (induction cs arbitrary: m s)
  case (Cons c cs)
  show ?case
  proof (cases "call c (m, s)")
    case None
    then have "inner m c s = None" using inner [of c m s] by simp
    with fails Cons.prems None show ?thesis by auto
  next
    case (Some x)
    then obtain r m1 s1 where run: "call c (m, s) = Some (r, m1, s1)" by (cases x) auto
    note i = call_inner [OF run]
    have "inner m c s = None \<longleftrightarrow> refused s \<and> uses c" using fails Cons.prems by blast
    then have "\<not> (refused s \<and> uses c)" using i by simp
    moreover have "refused s1 \<longleftrightarrow> refused s" using stays i by blast
    moreover note Cons.IH [OF inner_good [OF i Cons.prems], of m1]
    moreover have "exported_run call (c # cs) (m, s) = None \<longleftrightarrow> exported_run call cs (m1, s1) = None"
      by (simp add: run bind_eq_None_conv split_beta)
    ultimately show ?thesis by auto
  qed
qed simp

text \<open>What every call of the crate keeps, every sequence of exported calls keeps.\<close>

lemma run_relates:
  assumes refl: "\<forall>s. P s s" and trans: "\<forall>s1 s2 s3. P s1 s2 \<longrightarrow> P s2 s3 \<longrightarrow> P s1 s3"
    and step: "\<forall>m c s s'. inner m c s = Some s' \<longrightarrow> P s s'"
  shows "exported_run call cs (m, s) = Some (rs, m', s') \<Longrightarrow> P s s'"
proof (induction cs arbitrary: m s rs)
  case (Cons c cs)
  then obtain r m1 s1 rs1 where run: "call c (m, s) = Some (r, m1, s1)"
    "exported_run call cs (m1, s1) = Some (rs1, m', s')"
    by (auto split: bind_splits)
  from step call_inner [OF run(1)] Cons.IH [OF run(2)] trans show ?case by blast
qed (simp add: refl)

end

end
