(* ===== verification/Util.thy ===== *)
theory Util
  imports Rust_Text
begin

text \<open>
  \<open>crates/affine-core/src/util.rs\<close>: log lines, the segatools.ini reader and the rate limiter of the
  scan messages.  The file system, the console and the clock are outside the repository: the
  contents of the file (\<open>None\<close> when it cannot be read), whether the console takes colours, and the
  time of a call are arguments.
\<close>

section \<open>Log lines\<close>

datatype log_tag = LogNone | LogOk | LogWarn | LogFail | LogDiag

definition ESC :: nat where "ESC = 0x1B"

text \<open>
  \<open>emit\<close>: what goes to \<open>OutputDebugStringA\<close> (nothing when \<open>CString::new\<close> rejects an interior NUL)
  and the line printed on stderr.
\<close>

definition log_plain :: "log_tag \<Rightarrow> rstr \<Rightarrow> rstr" where
  "log_plain tag body =
     (case tag of
        LogOk \<Rightarrow> body @ lit '' [OK]''
      | LogWarn \<Rightarrow> body @ lit '' [WARN]''
      | LogFail \<Rightarrow> body @ lit '' [FAIL]''
      | LogNone \<Rightarrow> body
      | LogDiag \<Rightarrow> body)"

definition log_colored :: "log_tag \<Rightarrow> rstr \<Rightarrow> rstr" where
  "log_colored tag body =
     (case tag of
        LogNone \<Rightarrow> body
      | LogOk \<Rightarrow> body @ lit '' '' @ [ESC] @ lit ''[32;1m[OK]'' @ [ESC] @ lit ''[0m''
      | LogWarn \<Rightarrow> body @ lit '' '' @ [ESC] @ lit ''[33;1m[WARN]'' @ [ESC] @ lit ''[0m''
      | LogFail \<Rightarrow> body @ lit '' '' @ [ESC] @ lit ''[31;1m[FAIL]'' @ [ESC] @ lit ''[0m''
      | LogDiag \<Rightarrow> [ESC] @ lit ''[90m'' @ body @ [ESC] @ lit ''[0m'')"

definition emit :: "bool \<Rightarrow> log_tag \<Rightarrow> rstr \<Rightarrow> rstr option \<times> rstr" where
  "emit ansi_enabled tag msg =
     (let body = lit ''[Affine IO] '' @ msg;
          plain = log_plain tag body;
          debug_line = plain @ [10]
      in (if 0 \<in> set debug_line then None else Some debug_line,
          if ansi_enabled then log_colored tag body else plain))"

definition log_line :: "bool \<Rightarrow> rstr \<Rightarrow> rstr option \<times> rstr" where
  "log_line ansi line =
     emit ansi LogNone (case strip_prefix (lit ''[Affine IO] '') line of Some r \<Rightarrow> r | None \<Rightarrow> line)"

lemma log_line_legacy_prefix: "log_line ansi (lit ''[Affine IO] '' @ msg) = emit ansi LogNone msg"
  by (simp add: log_line_def strip_prefix_def starts_with_def)

section \<open>The rate limiter\<close>

text \<open>\<open>should_log\<close> at time \<open>now\<close>: the answer and the new \<open>last_scan_log\<close>.\<close>

definition should_log :: "u64 \<Rightarrow> u64 \<Rightarrow> bool \<times> u64" where
  "should_log now last_scan_log =
     (if saturating_sub now last_scan_log \<ge> 5000 then (True, now) else (False, last_scan_log))"

text \<open>The times at which a sequence of calls answers yes.\<close>

fun log_times :: "u64 \<Rightarrow> u64 list \<Rightarrow> u64 list" where
  "log_times prev [] = []"
| "log_times prev (now # ts) =
     (let (yes, prev') = should_log now prev in (if yes then [now] else []) @ log_times prev' ts)"

section \<open>segatools.ini\<close>

definition segatools_config_path :: "rstr option \<Rightarrow> rstr" where
  "segatools_config_path env_var =
     (case env_var of Some p \<Rightarrow> p | None \<Rightarrow> lit ''.'' @ [92] @ lit ''segatools.ini'')"

definition parse_bool :: "rstr \<Rightarrow> bool option" where
  "parse_bool value =
     (if value = lit ''1'' \<or> eq_ignore_ascii_case value (lit ''true'')
         \<or> eq_ignore_ascii_case value (lit ''yes'') \<or> eq_ignore_ascii_case value (lit ''on'')
      then Some True
      else if value = lit ''0'' \<or> eq_ignore_ascii_case value (lit ''false'')
         \<or> eq_ignore_ascii_case value (lit ''no'') \<or> eq_ignore_ascii_case value (lit ''off'')
      then Some False
      else None)"

definition parse_u32 :: "rstr \<Rightarrow> u32 option" where
  "parse_u32 value =
     (case (case strip_prefix (lit ''0x'') value of
              Some hex \<Rightarrow> Some hex
            | None \<Rightarrow> strip_prefix (lit ''0X'') value) of
        Some hex \<Rightarrow> u32_from_str_radix hex 16
      | None \<Rightarrow> u32_from_str_radix value 10)"

text \<open>
  The line loop, the same in \<open>ini_get_bool\<close> and \<open>ini_get_u32\<close> up to the value parser: \<open>cur\<close> is
  \<open>current_section\<close>.  The section slice \<open>line[1..line.len() - 1]\<close> is in range there
  (\<open>ini_section_slice\<close>).
\<close>

fun ini_scan :: "(rstr \<Rightarrow> 'v option) \<Rightarrow> rstr \<Rightarrow> rstr \<Rightarrow> 'v \<Rightarrow> rstr \<Rightarrow> rstr list \<Rightarrow> 'v" where
  "ini_scan parse section key dflt cur [] = dflt"
| "ini_scan parse section key dflt cur (raw_line # rest) =
     (let line = trim raw_line in
      if line = [] \<or> starts_with (lit '';'') line \<or> starts_with (lit ''#'') line
      then ini_scan parse section key dflt cur rest
      else if starts_with (lit ''['') line \<and> ends_with (lit '']'') line
      then ini_scan parse section key dflt (trim (butlast (tl line))) rest
      else if \<not> eq_ignore_ascii_case cur section
      then ini_scan parse section key dflt cur rest
      else case split_once 61 line of
        None \<Rightarrow> ini_scan parse section key dflt cur rest
      | Some (raw_key, raw_value) \<Rightarrow>
          if \<not> eq_ignore_ascii_case (trim raw_key) key
          then ini_scan parse section key dflt cur rest
          else case parse (trim raw_value) of Some v \<Rightarrow> v | None \<Rightarrow> dflt)"

definition ini_get_bool :: "rstr option \<Rightarrow> rstr \<Rightarrow> rstr \<Rightarrow> bool \<Rightarrow> bool" where
  "ini_get_bool contents section key dflt =
     (case contents of
        None \<Rightarrow> dflt
      | Some text \<Rightarrow> ini_scan parse_bool section key dflt [] (rlines text))"

definition ini_get_u32 :: "rstr option \<Rightarrow> rstr \<Rightarrow> rstr \<Rightarrow> u32 \<Rightarrow> u32" where
  "ini_get_u32 contents section key dflt =
     (case contents of
        None \<Rightarrow> dflt
      | Some text \<Rightarrow> ini_scan parse_u32 section key dflt [] (rlines text))"

lemma ini_section_slice:
  assumes "starts_with (lit ''['') line" "ends_with (lit '']'') line"
  shows "slice line 1 (length line - 1) = Some (butlast (tl line))"
proof -
  obtain t where t: "line = 91 # t" using assms(1) by (auto simp: starts_with_append lit_def)
  moreover have "t \<noteq> []" using assms(2) by (auto simp: t ends_with_def starts_with_def lit_def)
  ultimately show ?thesis by (cases t) (auto simp: slice_def butlast_conv_take)
qed

section \<open>What the reader computes\<close>

text \<open>
  The entries of a file in order, each with the section it is in, and the lookup that takes the
  first one whose section and key match.
\<close>

fun ini_entries :: "rstr \<Rightarrow> rstr list \<Rightarrow> (rstr \<times> rstr \<times> rstr) list" where
  "ini_entries cur [] = []"
| "ini_entries cur (raw_line # rest) =
     (let line = trim raw_line in
      if line = [] \<or> starts_with (lit '';'') line \<or> starts_with (lit ''#'') line
      then ini_entries cur rest
      else if starts_with (lit ''['') line \<and> ends_with (lit '']'') line
      then ini_entries (trim (butlast (tl line))) rest
      else (case split_once 61 line of
        None \<Rightarrow> []
      | Some (k, v) \<Rightarrow> [(cur, trim k, trim v)]) @ ini_entries cur rest)"

definition ini_lookup :: "(rstr \<times> rstr \<times> rstr) list \<Rightarrow> rstr \<Rightarrow> rstr \<Rightarrow> rstr option" where
  "ini_lookup es section key =
     map_option (\<lambda>(s, k, v). v)
       (find (\<lambda>(s, k, v). eq_ignore_ascii_case s section \<and> eq_ignore_ascii_case k key) es)"

definition ini_value :: "(rstr \<Rightarrow> 'v option) \<Rightarrow> 'v \<Rightarrow> rstr option \<Rightarrow> 'v" where
  "ini_value parse dflt found =
     (case found of None \<Rightarrow> dflt | Some v \<Rightarrow> (case parse v of Some x \<Rightarrow> x | None \<Rightarrow> dflt))"

lemma ini_scan_lookup:
  "ini_scan parse section key dflt cur ls =
     ini_value parse dflt (ini_lookup (ini_entries cur ls) section key)"
  by (induction ls arbitrary: cur)
    (auto simp: ini_lookup_def ini_value_def Let_def split: option.splits)

section \<open>Files that were written out\<close>

type_synonym ini_file = "(rstr \<times> (rstr \<times> rstr) list) list"

definition ini_section_lines :: "rstr \<times> (rstr \<times> rstr) list \<Rightarrow> rstr list" where
  "ini_section_lines sec = (lit ''['' @ fst sec @ lit '']'') # map (\<lambda>(k, v). k @ lit ''='' @ v) (snd sec)"

definition ini_render :: "ini_file \<Rightarrow> rstr" where
  "ini_render f = concat (map (\<lambda>l. l @ [13, 10]) (concat (map ini_section_lines f)))"

definition ini_flat :: "ini_file \<Rightarrow> (rstr \<times> rstr \<times> rstr) list" where
  "ini_flat f = concat (map (\<lambda>sec. map (\<lambda>(k, v). (fst sec, k, v)) (snd sec)) f)"

definition ini_text_ok :: "rstr \<Rightarrow> bool" where
  "ini_text_ok s \<longleftrightarrow> 10 \<notin> set s \<and> (s = [] \<or> \<not> is_whitespace (hd s) \<and> \<not> is_whitespace (last s))"

definition ini_key_ok :: "rstr \<Rightarrow> bool" where
  "ini_key_ok k \<longleftrightarrow> ini_text_ok k \<and> k \<noteq> [] \<and> 61 \<notin> set k \<and> hd k \<notin> {59, 35, 91}"

definition ini_file_ok :: "ini_file \<Rightarrow> bool" where
  "ini_file_ok f \<longleftrightarrow> (\<forall>sec \<in> set f. ini_text_ok (fst sec) \<and>
     (\<forall>(k, v) \<in> set (snd sec). ini_key_ok k \<and> ini_text_ok v))"

lemma trim_start_id: "\<not> is_whitespace (hd s) \<Longrightarrow> trim_start s = s"
  by (cases s) (auto simp: trim_start_def)

lemma trim_id: "s = [] \<or> \<not> is_whitespace (hd s) \<and> \<not> is_whitespace (last s) \<Longrightarrow> trim s = s"
  by (cases "s = []") (simp_all add: trim_def trim_start_id hd_rev, simp add: trim_start_def)

lemma dropWhile_newline: "10 \<notin> set l \<Longrightarrow> dropWhile (\<lambda>c. c \<noteq> (10::nat)) (l @ [13, 10] @ s) = 10 # s"
  by (induction l) auto

lemma takeWhile_newline: "10 \<notin> set l \<Longrightarrow> takeWhile (\<lambda>c. c \<noteq> (10::nat)) (l @ [13, 10] @ s) = l @ [13]"
  by (induction l) auto

lemma rlines_unlines:
  "(\<And>l. l \<in> set ls \<Longrightarrow> 10 \<notin> set l) \<Longrightarrow> rlines (concat (map (\<lambda>l. l @ [13, 10]) ls)) = ls"
proof (induction ls)
  case Nil
  show ?case by (simp add: rlines.simps)
next
  case (Cons l ls)
  let ?rest = "concat (map (\<lambda>l. l @ [13, 10]) ls)"
  have "10 \<notin> set l" using Cons.prems by simp
  then have "rlines (l @ [13, 10] @ ?rest) = l # rlines ?rest"
    using dropWhile_newline [of l ?rest] takeWhile_newline [of l ?rest]
    by (subst rlines.simps) (simp add: strip_cr_def)
  with Cons show ?case by simp
qed

lemma split_once_key: "61 \<notin> set k \<Longrightarrow> split_once 61 (k @ 61 # v) = Some (k, v)"
proof -
  assume k: "61 \<notin> set k"
  then have "takeWhile (\<lambda>x. x \<noteq> 61) (k @ 61 # v) = k" "dropWhile (\<lambda>x. x \<noteq> 61) (k @ 61 # v) = 61 # v"
    by (induction k) auto
  then show ?thesis by (simp add: split_once_def)
qed

lemma ini_entries_pair:
  assumes "ini_key_ok k" "ini_text_ok v"
  shows "ini_entries cur ((k @ lit ''='' @ v) # ls) = (cur, k, v) # ini_entries cur ls"
proof -
  obtain c t where k: "k = c # t" using assms(1) by (cases k) (auto simp: ini_key_ok_def)
  have "trim (k @ 61 # v) = k @ 61 # v"
    using assms by (intro trim_id) (auto simp: ini_key_ok_def ini_text_ok_def k is_whitespace_def)
  moreover have "trim k = k" "trim v = v"
    using assms by (auto simp: ini_key_ok_def ini_text_ok_def intro!: trim_id)
  moreover have "split_once 61 (k @ 61 # v) = Some (k, v)"
    using assms by (simp add: split_once_key ini_key_ok_def)
  ultimately show ?thesis
    using assms by (simp add: lit_def starts_with_def ini_key_ok_def k)
qed

lemma ini_section_lines_append:
  "ini_section_lines sec @ ls =
     (lit ''['' @ fst sec @ lit '']'') # map (\<lambda>(k, v). k @ lit ''='' @ v) (snd sec) @ ls"
  by (simp add: ini_section_lines_def)

lemma ini_entries_section:
  assumes "ini_text_ok n"
  shows "ini_entries cur ((lit ''['' @ n @ lit '']'') # ls) = ini_entries n ls"
proof -
  have "trim (91 # n @ [93]) = 91 # n @ [93]"
    by (intro trim_id) (auto simp: is_whitespace_def)
  moreover have "trim n = n"
    using assms by (auto simp: ini_text_ok_def intro!: trim_id)
  ultimately show ?thesis
    by (simp add: lit_def starts_with_def ends_with_def butlast_append)
qed

lemma ini_entries_pairs:
  assumes "\<And>k v. (k, v) \<in> set es \<Longrightarrow> ini_key_ok k \<and> ini_text_ok v"
  shows "ini_entries cur (map (\<lambda>(k, v). k @ lit ''='' @ v) es @ ls) =
    map (\<lambda>(k, v). (cur, k, v)) es @ ini_entries cur ls"
  using assms
proof (induction es)
  case (Cons e es)
  obtain k v where "e = (k, v)" by (cases e)
  moreover have "ini_key_ok k" "ini_text_ok v" using Cons.prems [of k v] calculation by auto
  moreover have "ini_entries cur (map (\<lambda>(k, v). k @ lit ''='' @ v) es @ ls) =
    map (\<lambda>(k, v). (cur, k, v)) es @ ini_entries cur ls"
    using Cons.prems by (intro Cons.IH) auto
  ultimately show ?case by (simp add: ini_entries_pair del: ini_entries.simps)
qed simp

lemma ini_entries_render:
  "ini_file_ok f \<Longrightarrow> ini_entries cur (concat (map ini_section_lines f)) = ini_flat f"
proof (induction f arbitrary: cur)
  case Nil
  then show ?case by (simp add: ini_flat_def)
next
  case (Cons sec f)
  then have "ini_text_ok (fst sec)" "\<And>k v. (k, v) \<in> set (snd sec) \<Longrightarrow> ini_key_ok k \<and> ini_text_ok v"
    and "ini_file_ok f"
    by (auto simp: ini_file_ok_def)
  with Cons.IH [of "fst sec"] show ?case
    using ini_entries_pairs [of "snd sec" "fst sec" "concat (map ini_section_lines f)"]
    by (simp add: ini_section_lines_append ini_entries_section ini_flat_def del: ini_entries.simps)
qed

lemma ini_lines_ok:
  assumes "ini_file_ok f" "l \<in> set (concat (map ini_section_lines f))"
  shows "10 \<notin> set l"
  using assms
  by (fastforce simp: ini_file_ok_def ini_section_lines_def ini_text_ok_def ini_key_ok_def lit_def)

section \<open>Properties\<close>

text \<open>
  C40. \<open>should_log\<close> limits the scan messages: two successive yes answers are at least 5000 ms apart,
  and the first is at least 5000 ms after the initial value of \<open>last_scan_log\<close>.
\<close>

theorem should_log_spacing:
  "successively (\<lambda>t u. unat t + 5000 \<le> unat u) (prev # log_times prev ts)"
proof (induction ts arbitrary: prev)
  case Nil
  then show ?case by simp
next
  case (Cons t ts)
  have "unat prev + 5000 \<le> unat t" if "5000 \<le> saturating_sub t prev"
  proof -
    have "unat (5000 :: u64) \<le> unat (saturating_sub t prev)"
      using that by (simp only: word_le_nat_alt)
    then show ?thesis by (simp add: unat_saturating_sub)
  qed
  then show ?case using Cons [of t] Cons [of prev]
    by (auto simp: should_log_def)
qed

text \<open>
  Reading back a file that was written out: for sections, keys and values that survive the
  reader's trimming, both readers return the first entry whose section and key match without
  regard to case, parsed, and the default when there is none or its value does not parse.
\<close>

theorem ini_read_back:
  assumes "ini_file_ok f"
  shows "ini_get_bool (Some (ini_render f)) section key bdef =
      ini_value parse_bool bdef (ini_lookup (ini_flat f) section key) \<and>
    ini_get_u32 (Some (ini_render f)) section key ndef =
      ini_value parse_u32 ndef (ini_lookup (ini_flat f) section key)"
proof -
  have "rlines (ini_render f) = concat (map ini_section_lines f)"
    unfolding ini_render_def using ini_lines_ok [OF assms] by (rule rlines_unlines)
  then show ?thesis
    by (simp add: ini_get_bool_def ini_get_u32_def ini_scan_lookup ini_entries_render assms)
qed

theorem ini_read_back_witness:
  "ini_get_bool (Some (ini_render [(lit ''touch'', [(lit ''p1Enable'', lit ''off'')])]))
     (lit ''Touch'') (lit ''P1ENABLE'') True = False"
proof -
  let ?f = "[(lit ''touch'', [(lit ''p1Enable'', lit ''off'')])]"
  have "ini_file_ok ?f"
    by (simp add: ini_file_ok_def ini_key_ok_def ini_text_ok_def lit_def is_whitespace_def)
  from ini_read_back [OF this, of "lit ''Touch''" "lit ''P1ENABLE''" True 0]
  show ?thesis
    by (simp add: ini_lookup_def ini_flat_def ini_value_def eq_ignore_ascii_case_def lit_def
        ascii_lower_def parse_bool_def)
qed

text \<open>
  \<open>parse_u32\<close> accepts every 32-bit number in decimal and, after \<open>0x\<close> or \<open>0X\<close>, in hexadecimal.
\<close>

theorem parse_u32_roundtrip:
  assumes "n < 2 ^ 32"
  shows "parse_u32 (show_dec n) = Some (of_nat n) \<and>
    parse_u32 (lit ''0x'' @ show_HEX width n) = Some (of_nat n) \<and>
    parse_u32 (lit ''0X'' @ show_HEX width n) = Some (of_nat n)"
proof -
  have hex: "u32_from_str_radix (show_HEX width n) 16 = Some (of_nat n)"
    using assms by (simp add: show_HEX_def u32_from_str_radix_padded Let_def)
  have "120 \<notin> set (show_dec n)" "88 \<notin> set (show_dec n)"
    using show_radix_chars [of _ 10 n] by (force simp: show_dec_def)+
  then have "strip_prefix (lit ''0x'') (show_dec n) = None"
    "strip_prefix (lit ''0X'') (show_dec n) = None"
    by (auto simp: strip_prefix_def starts_with_append lit_def)
  then have "parse_u32 (show_dec n) = Some (of_nat n)"
    using assms by (simp add: parse_u32_def u32_from_str_radix_show show_dec_def)
  then show ?thesis
    using hex by (simp add: parse_u32_def strip_prefix_def starts_with_def lit_def)
qed

theorem parse_u32_roundtrip_witness:
  "parse_u32 (show_dec 112) = Some 112 \<and> parse_u32 (lit ''0x'' @ show_HEX 4 112) = Some 112"
  using parse_u32_roundtrip [of 112 4] by simp

end
