(* ===== verification/Platform.thy ===== *)
theory Platform
  imports Util
begin

text \<open>
  The operating system and the USB stack as the code sees them.  Neither is in the repository, so
  they are a parameter: a record \<open>os\<close> with one function per call the code makes.  Each takes the
  history of the calls made so far and gives the answer, so one \<open>os\<close> is one behaviour of the
  environment, and a theorem about every \<open>os\<close> is a theorem about every behaviour.  The code's calls
  are recorded in order in the history, which is what the trace properties are about.
\<close>

section \<open>Handles and error codes\<close>

type_synonym handle = int

definition NULL_HANDLE :: handle where "NULL_HANDLE = 0"
definition INVALID_HANDLE_VALUE :: handle where "INVALID_HANDLE_VALUE = -1"

definition valid_handle :: "handle \<Rightarrow> bool" where
  "valid_handle x \<longleftrightarrow> x \<noteq> NULL_HANDLE \<and> x \<noteq> INVALID_HANDLE_VALUE"

definition ERROR_INVALID_HANDLE :: u32 where "ERROR_INVALID_HANDLE = 6"
definition ERROR_ALREADY_EXISTS :: u32 where "ERROR_ALREADY_EXISTS = 183"
definition ERROR_NO_MORE_ITEMS :: u32 where "ERROR_NO_MORE_ITEMS = 259"
definition ERROR_OPERATION_ABORTED :: u32 where "ERROR_OPERATION_ABORTED = 995"
definition ERROR_IO_PENDING :: u32 where "ERROR_IO_PENDING = 997"
definition ERROR_DEVICE_NOT_CONNECTED :: u32 where "ERROR_DEVICE_NOT_CONNECTED = 1167"
definition WAIT_OBJECT_0 :: u32 where "WAIT_OBJECT_0 = 0"
definition INFINITE :: u32 where "INFINITE = 0xFFFFFFFF"

text \<open>The answer of a call that can fail: its value, or what \<open>GetLastError\<close> then says.\<close>

datatype 'a answer = Done 'a | Failed u32

section \<open>Calls\<close>

record dcb =
  dcb_baud_rate :: u32
  dcb_byte_size :: u8
  dcb_stop_bits :: u8
  dcb_parity :: u8
  dcb_other :: nat

record comm_timeouts =
  ReadIntervalTimeout :: u32
  ReadTotalTimeoutConstant :: u32
  ReadTotalTimeoutMultiplier :: u32
  WriteTotalTimeoutConstant :: u32
  WriteTotalTimeoutMultiplier :: u32

text \<open>One device interface as the SetupAPI reports it; a buffer property is \<open>None\<close> when its query fails.\<close>

record com_device =
  cd_required :: u32
  cd_detail_ok :: bool
  cd_hwid :: "u8 list option"
  cd_friendly :: "u8 list option"

record hid_info =
  hi_vendor_id :: u16
  hi_product_id :: u16
  hi_usage_page :: u16
  hi_usage :: u16
  hi_path :: rstr

text \<open>
  The events of a history.  \<open>EvReadFile\<close> and \<open>EvWriteFile\<close> say whether the operation is pending when
  the call returns, \<open>EvOverlappedResult\<close> whether the call blocks until the operation has ended, and
  the waits record their answer.
\<close>

datatype (plugins only: size code) event =
    EvCreateFile rstr handle
  | EvCreateEvent handle
  | EvResetEvent handle
  | EvGetCommState handle bool
  | EvSetCommState handle dcb bool
  | EvSetCommTimeouts handle comm_timeouts bool
  | EvReadFile handle nat bool
  | EvWriteFile handle "u8 list" bool
  | EvOverlappedResult handle bool
  | EvWaitForSingleObject handle u32 u32
  | EvCancelIoEx handle bool
  | EvCloseHandle handle
  | EvGetClassDevs bool
  | EvEnumDevice u32
  | EvDestroyDeviceInfoList
  | EvCreateFileMapping rstr handle
  | EvCreateMutex rstr handle
  | EvMapView handle nat
  | EvUnmapView nat
  | EvReleaseMutex handle
  | EvTick
  | EvSleep nat
  | EvLog log_tag rstr
  | EvSpawn rstr
  | EvJoin
  | EvCallbackLock
  | EvCallbackUnlock
  | EvSliderCallback nat "u8 list"
  | EvTouchCallback nat "bool list"
  | EvMai2Callback nat u8 "u8 list"
  | EvKeyState u16
  | EvHidNew bool
  | EvHidOpen rstr bool
  | EvHidRead rstr nat
  | EvHidWrite rstr "u8 list"
  | EvHidClose rstr

type_synonym history = "event list"

record os =
  os_create_file :: "history \<Rightarrow> rstr \<Rightarrow> handle"
  os_create_event :: "history \<Rightarrow> handle"
  os_get_comm_state :: "history \<Rightarrow> handle \<Rightarrow> dcb option"
  os_set_comm_state :: "history \<Rightarrow> handle \<Rightarrow> dcb \<Rightarrow> bool"
  os_set_comm_timeouts :: "history \<Rightarrow> handle \<Rightarrow> comm_timeouts \<Rightarrow> bool"
  os_read_file :: "history \<Rightarrow> handle \<Rightarrow> nat \<Rightarrow> u8 list answer"
  os_write_file :: "history \<Rightarrow> handle \<Rightarrow> u8 list \<Rightarrow> nat answer"
  os_overlapped_read :: "history \<Rightarrow> handle \<Rightarrow> u8 list answer"
  os_overlapped_write :: "history \<Rightarrow> handle \<Rightarrow> nat answer"
  os_wait :: "history \<Rightarrow> handle \<Rightarrow> u32 \<Rightarrow> u32"
  os_class_devs :: "history \<Rightarrow> bool"
  os_enum_device :: "history \<Rightarrow> u32 \<Rightarrow> com_device answer"
  os_create_mapping :: "history \<Rightarrow> rstr \<Rightarrow> handle \<times> u32"
  os_create_mutex :: "history \<Rightarrow> rstr \<Rightarrow> handle"
  os_map_view :: "history \<Rightarrow> handle \<Rightarrow> nat"
  os_tick :: "history \<Rightarrow> u64"
  os_key_state :: "history \<Rightarrow> u16 \<Rightarrow> u16"
  os_hid_new :: "history \<Rightarrow> bool"
  os_hid_devices :: "history \<Rightarrow> hid_info list"
  os_hid_open :: "history \<Rightarrow> rstr \<Rightarrow> bool"
  os_hid_read :: "history \<Rightarrow> rstr \<Rightarrow> nat \<Rightarrow> u8 list option"
  os_hid_write :: "history \<Rightarrow> rstr \<Rightarrow> u8 list \<Rightarrow> nat option"

definition tick_ms :: "os \<Rightarrow> history \<Rightarrow> u64 \<times> history" where
  "tick_ms os h = (os_tick os h, h @ [EvTick])"

definition sleep_ms :: "nat \<Rightarrow> history \<Rightarrow> history" where
  "sleep_ms ms h = h @ [EvSleep ms]"

definition log_event :: "log_tag \<Rightarrow> rstr \<Rightarrow> history \<Rightarrow> history" where
  "log_event tag msg h = h @ [EvLog tag msg]"

text \<open>
  \<open>Instant::now\<close>, the monotonic clock of the standard library, in nanoseconds: a function of what
  happened before, as every answer of the environment.  Reading it is an \<open>EvTick\<close>.
\<close>

type_synonym clock = "history \<Rightarrow> nat"

text \<open>Time passes: along any history the clock gets beyond every point.\<close>

definition clock_runs :: "clock \<Rightarrow> bool" where
  "clock_runs now \<longleftrightarrow> (\<forall>t. \<exists>n. \<forall>h. n \<le> length h \<longrightarrow> t \<le> now h)"

text \<open>
  Induction for a loop that runs until a deadline and does something every time round: it holds when
  the deadline is over, and before that if it holds after more has happened.
\<close>

lemma deadline_induct [consumes 1, case_names over waiting]:
  assumes "clock_runs now"
    and "\<And>h. deadline \<le> now h \<Longrightarrow> P h"
    and "\<And>h. \<not> deadline \<le> now h \<Longrightarrow> (\<And>g. length h < length g \<Longrightarrow> P g) \<Longrightarrow> P h"
  shows "P h"
proof -
  obtain n where n: "\<And>g. n \<le> length g \<Longrightarrow> deadline \<le> now g"
    using assms(1) unfolding clock_runs_def by blast
  show ?thesis
  proof (induction "n - length h" arbitrary: h rule: less_induct)
    case less
    show ?case
    proof (cases "deadline \<le> now h")
      case True
      then show ?thesis by (rule assms(2))
    next
      case False
      then have "length h < n" using n by (meson not_le)
      then have "P g" if "length h < length g" for g using less [of g] that by (simp add: diff_less_mono2)
      with False show ?thesis by (rule assms(3))
    qed
  qed
qed

section \<open>Handle accounting\<close>

text \<open>How many more times a handle was obtained than closed in a history.\<close>

definition gains :: "handle \<Rightarrow> handle \<Rightarrow> int" where
  "gains r x = (if valid_handle r \<and> r = x then 1 else 0)"

fun ev_balance :: "handle \<Rightarrow> event \<Rightarrow> int" where
  "ev_balance x (EvCreateFile _ r) = gains r x"
| "ev_balance x (EvCreateEvent r) = gains r x"
| "ev_balance x (EvCreateFileMapping _ r) = gains r x"
| "ev_balance x (EvCreateMutex _ r) = gains r x"
| "ev_balance x (EvCloseHandle r) = - gains r x"
| "ev_balance x _ = 0"

definition balance :: "handle \<Rightarrow> history \<Rightarrow> int" where
  "balance x h = sum_list (map (ev_balance x) h)"

lemma balance_append [simp]: "balance x (h @ es) = balance x h + balance x es"
  by (simp add: balance_def)

lemma balance_Cons [simp]: "balance x (e # es) = ev_balance x e + balance x es"
  by (simp add: balance_def)

lemma balance_Nil [simp]: "balance x [] = 0"
  by (simp add: balance_def)

lemma gains_null [simp]: "gains NULL_HANDLE x = 0" "gains INVALID_HANDLE_VALUE x = 0"
  by (auto simp: gains_def valid_handle_def)

text \<open>
  An object that holds handles: \<open>owned s x\<close> is how often it holds \<open>x\<close>, and every operation changes
  what it holds by exactly what the history shows it obtained and closed.  Then no sequence of
  operations leaks or double-closes a handle, and an object that ends up holding nothing has closed
  everything it obtained.
\<close>

locale handle_owner =
  fixes owned :: "'s \<Rightarrow> handle \<Rightarrow> int"
    and perform :: "'c \<Rightarrow> 's \<Rightarrow> history \<Rightarrow> 's \<times> history"
    and destroy :: "'s \<Rightarrow> history \<Rightarrow> 's \<times> history"
  assumes op_balance:
      "perform c s h = (s', h') \<Longrightarrow> balance x h' - balance x h = owned s' x - owned s x"
    and destroy_balance:
      "destroy s h = (s', h') \<Longrightarrow> balance x h' - balance x h = owned s' x - owned s x"
    and destroy_empty: "destroy s h = (s', h') \<Longrightarrow> owned s' x = 0"
begin

lemma ops_balance:
  "foldl (\<lambda>(s, h) c. perform c s h) (s, h) ops = (s', h') \<Longrightarrow>
     balance x h' - balance x h = owned s' x - owned s x"
proof (induction ops arbitrary: s h)
  case Nil
  then show ?case by simp
next
  case (Cons a ops)
  obtain s1 h1 where "perform a s h = (s1, h1)" by (cases "perform a s h")
  with Cons.prems Cons.IH [of s1 h1] op_balance [of a s h s1 h1 x] show ?case by simp
qed

lemma no_leak:
  assumes "foldl (\<lambda>(s, h) c. perform c s h) (s, h) ops = (s1, h1)" "destroy s1 h1 = (s2, h2)"
    and "\<And>x. owned s x = 0"
  shows "balance x h2 = balance x h"
  using ops_balance [OF assms(1), of x] destroy_balance [OF assms(2), of x]
    destroy_empty [OF assms(2), of x] assms(3) [of x]
  by simp

end

section \<open>I/O in flight\<close>

text \<open>
  Whether the kernel may still use the caller's \<open>OVERLAPPED\<close> and buffer: from a read or write that
  is pending until its event is signalled or a blocking \<open>GetOverlappedResult\<close> has returned.
\<close>

fun io_after :: "bool \<Rightarrow> event \<Rightarrow> bool" where
  "io_after live (EvReadFile _ _ pending) = (live \<or> pending)"
| "io_after live (EvWriteFile _ _ pending) = (live \<or> pending)"
| "io_after live (EvOverlappedResult _ blocking) = (live \<and> \<not> blocking)"
| "io_after live (EvWaitForSingleObject _ _ r) = (live \<and> r \<noteq> WAIT_OBJECT_0)"
| "io_after live _ = live"

definition io_live :: "history \<Rightarrow> bool" where
  "io_live h = foldl io_after False h"

lemma io_live_snoc: "io_live (h @ es) = foldl io_after (io_live h) es"
  by (simp add: io_live_def)

end
