(* ===== verification/Serial.thy ===== *)
theory Serial
  imports Platform
begin

text \<open>
  \<open>crates/affine-core/src/serial.rs\<close>: the overlapped serial port \<open>SerialPort\<close>, the wait with its
  cancellation, and the search for the COM port of a USB device (\<open>find_com_port\<close>, \<open>match_hwid\<close>,
  \<open>parse_com_name\<close>).  The calls into Windows go through the parameter \<open>os\<close> of theory \<open>Platform\<close>.
\<close>

section \<open>State\<close>

record overlapped_state =
  ov_event :: handle
  ov_hEvent :: handle

record serial_port =
  sp_handle :: handle
  sp_read_state :: overlapped_state
  sp_write_state :: overlapped_state

definition overlapped_default :: overlapped_state where
  "overlapped_default = \<lparr>ov_event = NULL_HANDLE, ov_hEvent = NULL_HANDLE\<rparr>"

definition serial_port_default :: serial_port where
  "serial_port_default = \<lparr>sp_handle = INVALID_HANDLE_VALUE, sp_read_state = overlapped_default,
     sp_write_state = overlapped_default\<rparr>"

definition is_open :: "serial_port \<Rightarrow> bool" where
  "is_open p \<longleftrightarrow> sp_handle p \<noteq> NULL_HANDLE \<and> sp_handle p \<noteq> INVALID_HANDLE_VALUE"

section \<open>Overlapped structures\<close>

definition ensure_event :: "os \<Rightarrow> overlapped_state \<Rightarrow> history \<Rightarrow> bool \<times> overlapped_state \<times> history" where
  "ensure_event os st h =
     (let (st, h) =
        (if ov_event st = NULL_HANDLE
         then (st\<lparr>ov_event := os_create_event os h\<rparr>, h @ [EvCreateEvent (os_create_event os h)])
         else (st, h))
      in if ov_event st = NULL_HANDLE then (False, st, h)
         else (True, st\<lparr>ov_hEvent := ov_event st\<rparr>, h))"

definition prepare_overlapped ::
  "os \<Rightarrow> overlapped_state \<Rightarrow> history \<Rightarrow> bool \<times> overlapped_state \<times> history" where
  "prepare_overlapped os st h =
     (let (ok, st, h) =
        (if ov_event st = NULL_HANDLE then ensure_event os st h else (True, st, h))
      in if \<not> ok then (False, st, h)
         else (True, st\<lparr>ov_hEvent := ov_event st\<rparr>, h @ [EvResetEvent (ov_event st)]))"

definition ensure_events :: "os \<Rightarrow> serial_port \<Rightarrow> history \<Rightarrow> bool \<times> serial_port \<times> history" where
  "ensure_events os p h =
     (let (ok, rs, h) = ensure_event os (sp_read_state p) h;
          p = p\<lparr>sp_read_state := rs\<rparr>
      in if \<not> ok then (False, p, h)
         else
           let (ok, ws, h) = ensure_event os (sp_write_state p) h
           in (ok, p\<lparr>sp_write_state := ws\<rparr>, h))"

section \<open>Opening and closing\<close>

definition sp_close :: "serial_port \<Rightarrow> history \<Rightarrow> serial_port \<times> history" where
  "sp_close p h =
     (let handle = sp_handle p;
          p = p\<lparr>sp_handle := INVALID_HANDLE_VALUE\<rparr>
      in if handle \<noteq> NULL_HANDLE \<and> handle \<noteq> INVALID_HANDLE_VALUE
         then (p, h @ [EvCancelIoEx handle True, EvCloseHandle handle])
         else (p, h))"

definition apply_timeouts :: "os \<Rightarrow> handle \<Rightarrow> comm_timeouts \<Rightarrow> history \<Rightarrow> bool \<times> history" where
  "apply_timeouts os handle timeouts h =
     (let ok = os_set_comm_timeouts os h handle timeouts
      in (ok, h @ [EvSetCommTimeouts handle timeouts ok]))"

definition open_timeouts :: comm_timeouts where
  "open_timeouts = \<lparr>ReadIntervalTimeout = 20, ReadTotalTimeoutConstant = 20,
     ReadTotalTimeoutMultiplier = 5, WriteTotalTimeoutConstant = 50, WriteTotalTimeoutMultiplier = 5\<rparr>"

definition sp_open :: "os \<Rightarrow> rstr \<Rightarrow> u32 \<Rightarrow> serial_port \<Rightarrow> history \<Rightarrow> bool \<times> serial_port \<times> history" where
  "sp_open os path baud p h =
     (let (p, h) = sp_close p h;
          handle = os_create_file os h path;
          h = h @ [EvCreateFile path handle]
      in if handle = INVALID_HANDLE_VALUE then (False, p, h)
      else
        let (ok, p, h) = ensure_events os p h
        in if \<not> ok then (False, p, h @ [EvCloseHandle handle])
        else case os_get_comm_state os h handle of
          None \<Rightarrow> (False, p, h @ [EvGetCommState handle False, EvCloseHandle handle])
        | Some d \<Rightarrow>
            let h = h @ [EvGetCommState handle True];
                d = d\<lparr>dcb_baud_rate := baud, dcb_byte_size := 8, dcb_stop_bits := 0, dcb_parity := 0\<rparr>;
                ok = os_set_comm_state os h handle d;
                h = h @ [EvSetCommState handle d ok]
            in if \<not> ok then (False, p, h @ [EvCloseHandle handle])
            else
              let (ok, h) = apply_timeouts os handle open_timeouts h
              in if \<not> ok then (False, p, h @ [EvCloseHandle handle])
                 else (True, p\<lparr>sp_handle := handle\<rparr>, h))"

definition set_timeouts :: "os \<Rightarrow> comm_timeouts \<Rightarrow> serial_port \<Rightarrow> history \<Rightarrow> bool \<times> history" where
  "set_timeouts os t p h =
     (if \<not> is_open p then (False, h) else apply_timeouts os (sp_handle p) t h)"

text \<open>\<open>Drop for SerialPort\<close>.\<close>

definition sp_drop :: "serial_port \<Rightarrow> history \<Rightarrow> serial_port \<times> history" where
  "sp_drop p h =
     (let (p, h) = sp_close p h;
          (p, h) =
            (if ov_event (sp_read_state p) \<noteq> NULL_HANDLE
             then (p\<lparr>sp_read_state := (sp_read_state p)\<lparr>ov_event := NULL_HANDLE\<rparr>\<rparr>,
                   h @ [EvCloseHandle (ov_event (sp_read_state p))])
             else (p, h))
      in if ov_event (sp_write_state p) \<noteq> NULL_HANDLE
         then (p\<lparr>sp_write_state := (sp_write_state p)\<lparr>ov_event := NULL_HANDLE\<rparr>\<rparr>,
               h @ [EvCloseHandle (ov_event (sp_write_state p))])
         else (p, h))"

section \<open>Reading\<close>

text \<open>
  \<open>read(buf)\<close> for a buffer of \<open>cap\<close> bytes: \<open>None\<close> when the port is gone, otherwise the bytes read, none
  after a transient error.  A read never delivers more than the buffer holds.
\<close>

definition fatal_io_error :: "u32 \<Rightarrow> bool" where
  "fatal_io_error err \<longleftrightarrow> err = ERROR_INVALID_HANDLE \<or> err = ERROR_DEVICE_NOT_CONNECTED
     \<or> err = ERROR_OPERATION_ABORTED"

definition sp_read :: "os \<Rightarrow> nat \<Rightarrow> serial_port \<Rightarrow> history \<Rightarrow> u8 list option \<times> serial_port \<times> history" where
  "sp_read os cap p h =
     (let handle = sp_handle p
      in if handle = NULL_HANDLE \<or> handle = INVALID_HANDLE_VALUE then (None, p, h)
      else
        let (ok, rs, h) = prepare_overlapped os (sp_read_state p) h;
            p = p\<lparr>sp_read_state := rs\<rparr>
        in if \<not> ok then (None, p, h)
        else case os_read_file os h handle cap of
          Done bytes \<Rightarrow> (Some (take cap bytes), p, h @ [EvReadFile handle cap False])
        | Failed err \<Rightarrow>
            let h = h @ [EvReadFile handle cap (err = ERROR_IO_PENDING)] in
            if err = ERROR_IO_PENDING
            then (case os_overlapped_read os h handle of
                Done bytes \<Rightarrow> (Some (take cap bytes), p, h @ [EvOverlappedResult handle True])
              | Failed err' \<Rightarrow>
                  (if fatal_io_error err' then None else Some [], p,
                   h @ [EvOverlappedResult handle True]))
            else (if fatal_io_error err then None else Some [], p, h))"

section \<open>Writing\<close>

definition OVERLAPPED_WRITE_TIMEOUT_MS :: u32 where "OVERLAPPED_WRITE_TIMEOUT_MS = 50"

datatype overlapped_wait = Completed nat | TimedOut | WaitFailed u32

definition wait_overlapped ::
  "os \<Rightarrow> handle \<Rightarrow> overlapped_state \<Rightarrow> u32 \<Rightarrow> history \<Rightarrow> overlapped_wait \<times> history" where
  "wait_overlapped os handle st timeout_ms h =
     (let wait = os_wait os h (ov_event st) timeout_ms;
          h = h @ [EvWaitForSingleObject (ov_event st) timeout_ms wait]
      in if wait \<noteq> WAIT_OBJECT_0
         then (TimedOut, h @ [EvCancelIoEx handle False, EvOverlappedResult handle True])
         else case os_overlapped_write os h handle of
             Done n \<Rightarrow> (Completed n, h @ [EvOverlappedResult handle False])
           | Failed err \<Rightarrow> (WaitFailed err, h @ [EvOverlappedResult handle False]))"

definition sp_write :: "os \<Rightarrow> u8 list \<Rightarrow> serial_port \<Rightarrow> history \<Rightarrow> bool \<times> serial_port \<times> history" where
  "sp_write os buf p h =
     (let handle = sp_handle p
      in if handle = NULL_HANDLE \<or> handle = INVALID_HANDLE_VALUE then (False, p, h)
      else
        let (ok, ws, h) = prepare_overlapped os (sp_write_state p) h;
            p = p\<lparr>sp_write_state := ws\<rparr>
        in if \<not> ok then (False, p, h)
        else case os_write_file os h handle buf of
          Done written \<Rightarrow> (written = length buf, p, h @ [EvWriteFile handle buf False])
        | Failed err \<Rightarrow>
            let h = h @ [EvWriteFile handle buf (err = ERROR_IO_PENDING)] in
            if err = ERROR_IO_PENDING
            then (case wait_overlapped os handle ws OVERLAPPED_WRITE_TIMEOUT_MS h of
                (Completed written, h) \<Rightarrow> (written = length buf, p, h)
              | (TimedOut, h) \<Rightarrow> (False, p, h)
              | (WaitFailed err', h) \<Rightarrow> (False, p, h))
            else (False, p, h))"

section \<open>Handles are accounted for\<close>

datatype serial_op =
    SerialOpen rstr u32
  | SerialClose
  | SerialSetTimeouts comm_timeouts
  | SerialRead nat
  | SerialWrite "u8 list"

fun serial_do :: "os \<Rightarrow> serial_op \<Rightarrow> serial_port \<Rightarrow> history \<Rightarrow> serial_port \<times> history" where
  "serial_do os (SerialOpen path baud) p h = snd (sp_open os path baud p h)"
| "serial_do os SerialClose p h = sp_close p h"
| "serial_do os (SerialSetTimeouts t) p h = (p, snd (set_timeouts os t p h))"
| "serial_do os (SerialRead cap) p h = snd (sp_read os cap p h)"
| "serial_do os (SerialWrite buf) p h = snd (sp_write os buf p h)"

definition sp_owned :: "serial_port \<Rightarrow> handle \<Rightarrow> int" where
  "sp_owned p x =
     gains (sp_handle p) x + gains (ov_event (sp_read_state p)) x + gains (ov_event (sp_write_state p)) x"

named_theorems serial_defs \<open>the port's operations\<close>

lemmas [serial_defs] = sp_close_def ensure_event_def prepare_overlapped_def ensure_events_def
  apply_timeouts_def set_timeouts_def wait_overlapped_def Let_def

lemma sp_close_balance:
  "sp_close p h = (p', h') \<Longrightarrow>
     balance x h' - balance x h = sp_owned p' x - sp_owned p x \<and> \<not> is_open p' \<and>
     sp_read_state p' = sp_read_state p \<and> sp_write_state p' = sp_write_state p"
  by (auto simp: serial_defs sp_owned_def is_open_def split: if_splits)

lemma ensure_event_balance:
  "ensure_event os st h = (ok, st', h') \<Longrightarrow>
     balance x h' - balance x h = gains (ov_event st') x - gains (ov_event st) x"
  by (auto simp: ensure_event_def Let_def split: if_splits)

lemma prepare_overlapped_balance:
  "prepare_overlapped os st h = (ok, st', h') \<Longrightarrow>
     balance x h' - balance x h = gains (ov_event st') x - gains (ov_event st) x"
  by (auto simp: prepare_overlapped_def Let_def split: if_splits prod.splits dest!: ensure_event_balance [of _ _ _ _ _ _ x])

lemma ensure_events_balance:
  "ensure_events os p h = (ok, p', h') \<Longrightarrow>
     balance x h' - balance x h = sp_owned p' x - sp_owned p x \<and> sp_handle p' = sp_handle p"
  by (auto simp: ensure_events_def Let_def sp_owned_def split: if_splits prod.splits
      dest!: ensure_event_balance [of _ _ _ _ _ _ x])

lemma sp_open_balance:
  assumes "sp_open os path baud p h = (ok, p', h')"
  shows "balance x h' - balance x h = sp_owned p' x - sp_owned p x \<and> (ok \<or> \<not> is_open p')"
proof -
  obtain p1 h1 where close: "sp_close p h = (p1, h1)" by (cases "sp_close p h")
  let ?handle = "os_create_file os h1 path"
  let ?h2 = "h1 @ [EvCreateFile path ?handle]"
  obtain ok2 p2 h2 where ev: "ensure_events os p1 ?h2 = (ok2, p2, h2)"
    by (cases "ensure_events os p1 ?h2")
  note b1 = sp_close_balance [OF close, of x] and b2 = ensure_events_balance [OF ev, of x]
  have "sp_handle p1 = INVALID_HANDLE_VALUE" using close by (auto simp: sp_close_def Let_def split: if_splits)
  with b1 b2 show ?thesis
    using assms close ev
    by (auto simp: sp_open_def apply_timeouts_def Let_def sp_owned_def is_open_def
        split: if_splits option.splits)
qed

lemma sp_read_balance:
  assumes "sp_read os cap p h = (r, p', h')"
  shows "balance x h' - balance x h = sp_owned p' x - sp_owned p x \<and> sp_handle p' = sp_handle p"
proof -
  obtain ok rs h1 where prep: "prepare_overlapped os (sp_read_state p) h = (ok, rs, h1)"
    by (cases "prepare_overlapped os (sp_read_state p) h")
  from prepare_overlapped_balance [OF prep, of x] show ?thesis
    using assms prep
    by (auto simp: sp_read_def Let_def sp_owned_def split: if_splits answer.splits)
qed

lemma sp_write_balance:
  assumes "sp_write os buf p h = (r, p', h')"
  shows "balance x h' - balance x h = sp_owned p' x - sp_owned p x \<and> sp_handle p' = sp_handle p"
proof -
  obtain ok ws h1 where prep: "prepare_overlapped os (sp_write_state p) h = (ok, ws, h1)"
    by (cases "prepare_overlapped os (sp_write_state p) h")
  from prepare_overlapped_balance [OF prep, of x] show ?thesis
    using assms prep
    by (auto simp: sp_write_def wait_overlapped_def Let_def sp_owned_def split: if_splits answer.splits)
qed

lemma sp_drop_balance:
  assumes "sp_drop p h = (p', h')"
  shows "balance x h' - balance x h = sp_owned p' x - sp_owned p x \<and> sp_owned p' x = 0"
proof -
  obtain p1 h1 where close: "sp_close p h = (p1, h1)" by (cases "sp_close p h")
  have "sp_handle p1 = INVALID_HANDLE_VALUE" using close by (auto simp: sp_close_def Let_def split: if_splits)
  with sp_close_balance [OF close, of x] show ?thesis
    using assms close by (auto simp: sp_drop_def Let_def sp_owned_def split: if_splits)
qed

lemma serial_do_balance:
  "serial_do os c p h = (p', h') \<Longrightarrow> balance x h' - balance x h = sp_owned p' x - sp_owned p x"
  by (cases c)
    (auto simp: set_timeouts_def apply_timeouts_def Let_def dest: sp_close_balance split: if_splits;
     metis sp_open_balance sp_read_balance sp_write_balance prod.collapse)+

interpretation port: handle_owner sp_owned "serial_do os" sp_drop for os
  by unfold_locales (use serial_do_balance sp_drop_balance in blast)+

section \<open>No I/O is left in flight\<close>

lemma prepare_overlapped_live:
  "prepare_overlapped os st h = (ok, st', h') \<Longrightarrow> io_live h' = io_live h"
  by (auto simp: prepare_overlapped_def ensure_event_def Let_def io_live_snoc split: if_splits)

lemma sp_read_live:
  assumes "sp_read os cap p h = (r, p', h')" "\<not> io_live h"
  shows "\<not> io_live h'"
proof -
  obtain ok rs h1 where prep: "prepare_overlapped os (sp_read_state p) h = (ok, rs, h1)"
    by (cases "prepare_overlapped os (sp_read_state p) h")
  from prepare_overlapped_live [OF prep] show ?thesis
    using assms prep
    by (auto simp: sp_read_def Let_def io_live_snoc split: if_splits answer.splits)
qed

lemma sp_write_live:
  assumes "sp_write os buf p h = (r, p', h')" "\<not> io_live h"
  shows "\<not> io_live h'"
proof -
  obtain ok ws h1 where prep: "prepare_overlapped os (sp_write_state p) h = (ok, ws, h1)"
    by (cases "prepare_overlapped os (sp_write_state p) h")
  from prepare_overlapped_live [OF prep] show ?thesis
    using assms prep
    by (auto simp: sp_write_def wait_overlapped_def Let_def io_live_snoc split: if_splits answer.splits)
qed

lemma serial_do_live:
  assumes "serial_do os c p h = (p', h')" "\<not> io_live h"
  shows "\<not> io_live h'"
proof (cases c)
  case (SerialOpen path baud)
  then show ?thesis
    using assms by (auto simp: sp_open_def serial_defs io_live_snoc split: if_splits option.splits)
next
  case (SerialRead cap)
  then show ?thesis using assms sp_read_live [of os cap p h] by (cases "sp_read os cap p h") auto
next
  case (SerialWrite buf)
  then show ?thesis using assms sp_write_live [of os buf p h] by (cases "sp_write os buf p h") auto
qed (use assms in \<open>auto simp: serial_defs io_live_snoc split: if_splits\<close>)

section \<open>Laws of the port for its clients\<close>

text \<open>
  What the runtimes rely on: a closed port neither reads nor writes and touches nothing, closing
  closes, and reading and writing do not change whether the port is open.
\<close>

locale serial_link =
  fixes opened :: "'p \<Rightarrow> bool"
    and close :: "'p \<Rightarrow> history \<Rightarrow> 'p \<times> history"
    and rd :: "'p \<Rightarrow> history \<Rightarrow> u8 list option \<times> 'p \<times> history"
    and wr :: "u8 list \<Rightarrow> 'p \<Rightarrow> history \<Rightarrow> bool \<times> 'p \<times> history"
  assumes close_closes: "\<not> opened (fst (close p h))"
    and close_idle: "\<not> opened p \<Longrightarrow> snd (close p h) = h"
    and rd_closed: "\<not> opened p \<Longrightarrow> rd p h = (None, p, h)"
    and wr_closed: "\<not> opened p \<Longrightarrow> wr bs p h = (False, p, h)"
    and rd_opened: "opened (fst (snd (rd p h))) = opened p"
    and wr_opened: "opened (fst (snd (wr bs p h))) = opened p"
begin

lemma rd_Some_opened: "rd p h = (Some bs, p', h') \<Longrightarrow> opened p \<and> opened p'"
  using rd_closed [of p h] rd_opened [of p h] by (cases "opened p") auto

lemma wr_True_opened: "wr bs p h = (True, p', h') \<Longrightarrow> opened p \<and> opened p'"
  using wr_closed [of p bs h] wr_opened [of bs p h] by (cases "opened p") auto

lemma close_twice: "close p h = (p1, h1) \<Longrightarrow> snd (close p1 h1) = h1"
  using close_closes [of p h] close_idle [of p1 h1] by simp

end

lemma sp_read_opened: "sp_handle (fst (snd (sp_read os cap p h))) = sp_handle p"
  using sp_read_balance [of os cap p h] by (cases "sp_read os cap p h") auto

lemma sp_write_opened: "sp_handle (fst (snd (sp_write os bs p h))) = sp_handle p"
  using sp_write_balance [of os bs p h] by (cases "sp_write os bs p h") auto

lemma sp_read_closed: "\<not> is_open p \<Longrightarrow> sp_read os cap p h = (None, p, h)"
  by (auto simp: is_open_def sp_read_def Let_def)

lemma sp_write_closed: "\<not> is_open p \<Longrightarrow> sp_write os bs p h = (False, p, h)"
  by (auto simp: is_open_def sp_write_def Let_def)

interpretation link: serial_link is_open sp_close "sp_read os cap" "sp_write os" for os cap
  by unfold_locales
    (auto simp: sp_read_closed sp_write_closed is_open_def sp_read_opened sp_write_opened sp_close_def Let_def)

section \<open>Finding the COM port of a device\<close>

text \<open>\<open>raw.chunks_exact(2).map(|chunk| u16::from_le_bytes(..))\<close>: an odd last byte is dropped.\<close>

fun u16_units :: "u8 list \<Rightarrow> u16 list" where
  "u16_units (lo # hi # rest) = (of_nat (unat lo + 256 * unat hi)) # u16_units rest"
| "u16_units _ = []"

text \<open>
  The scan over the NUL-separated parts of the hardware id; the code's index \<open>start\<close> is the suffix
  still to be looked at.
\<close>

function match_parts :: "rstr \<Rightarrow> rstr \<Rightarrow> u16 list \<Rightarrow> bool" where
  "match_parts vid_marker pid_marker wide =
     (if wide = [] then False
      else
        let part = takeWhile (\<lambda>unit. unit \<noteq> 0) wide in
        if part = [] then False
        else if contains vid_marker (utf16_lossy part) \<and> contains pid_marker (utf16_lossy part) then True
        else match_parts vid_marker pid_marker (drop (length part + 1) wide))"
  by pat_completeness auto
termination
  by (relation "measure (\<lambda>(v, p, wide). length wide)") auto

declare match_parts.simps [simp del]

definition match_hwid :: "u8 list \<Rightarrow> u16 \<Rightarrow> u16 \<Rightarrow> bool" where
  "match_hwid raw vid pid =
     match_parts (lit ''VID_'' @ show_HEX 4 (unat vid)) (lit ''PID_'' @ show_HEX 4 (unat pid)) (u16_units raw)"

definition is_ascii_alphanumeric :: "nat \<Rightarrow> bool" where
  "is_ascii_alphanumeric c \<longleftrightarrow> (48 \<le> c \<and> c \<le> 57) \<or> (65 \<le> c \<and> c \<le> 90) \<or> (97 \<le> c \<and> c \<le> 122)"

text \<open>The device namespace prefix (backslash, backslash, dot, backslash).\<close>

definition device_prefix :: rstr where
  "device_prefix = [92, 92, 46, 92]"

definition parse_com_name :: "u8 list \<Rightarrow> rstr option" where
  "parse_com_name raw =
     (let wide = takeWhile (\<lambda>unit. unit \<noteq> 0) (u16_units raw);
          name = utf16_lossy wide
      in case find_suffix (lit ''COM'') name of
        None \<Rightarrow> None
      | Some suffix \<Rightarrow>
          let com_name = takeWhile is_ascii_alphanumeric suffix
          in if com_name = [] then None else Some (device_prefix @ com_name))"

text \<open>What the loop body finds for one enumerated interface.\<close>

definition probe_device :: "u16 \<Rightarrow> u16 \<Rightarrow> com_device \<Rightarrow> rstr option" where
  "probe_device vid pid d =
     (if cd_required d = 0 then None
      else if \<not> cd_detail_ok d then None
      else case cd_hwid d of
        None \<Rightarrow> None
      | Some hwid \<Rightarrow>
          if \<not> match_hwid hwid vid pid then None
          else case cd_friendly d of None \<Rightarrow> None | Some friendly \<Rightarrow> parse_com_name friendly)"

text \<open>
  The enumeration ends at \<open>ERROR_NO_MORE_ITEMS\<close> only: any other failure goes on to the next index.
  \<open>None\<close> is a loop that never ends.
\<close>

partial_function (option) find_com_loop ::
  "os \<Rightarrow> u16 \<Rightarrow> u16 \<Rightarrow> u32 \<Rightarrow> history \<Rightarrow> (rstr option \<times> history) option" where
  "find_com_loop os vid pid index h =
     (case os_enum_device os h index of
        Failed err \<Rightarrow>
          if err = ERROR_NO_MORE_ITEMS then Some (None, h @ [EvEnumDevice index])
          else find_com_loop os vid pid (index + 1) (h @ [EvEnumDevice index])
      | Done d \<Rightarrow>
          (case probe_device vid pid d of
             Some name \<Rightarrow> Some (Some name, h @ [EvEnumDevice index])
           | None \<Rightarrow> find_com_loop os vid pid (index + 1) (h @ [EvEnumDevice index])))"

definition find_com_port :: "os \<Rightarrow> u16 \<Rightarrow> u16 \<Rightarrow> history \<Rightarrow> (rstr option \<times> history) option" where
  "find_com_port os vid pid h =
     (if \<not> os_class_devs os h then Some (None, h @ [EvGetClassDevs False])
      else do {
        (found, h) \<leftarrow> find_com_loop os vid pid 0 (h @ [EvGetClassDevs True]);
        Some (found, h @ [EvDestroyDeviceInfoList])
      })"

text \<open>\<open>find_any\<close> of \<open>slider.rs\<close>: the first product id with a port.\<close>

fun find_any :: "os \<Rightarrow> u16 \<Rightarrow> u16 list \<Rightarrow> history \<Rightarrow> ((u16 \<times> rstr) option \<times> history) option" where
  "find_any os vid [] h = Some (None, h)"
| "find_any os vid (pid # pids) h = do {
     (found, h) \<leftarrow> find_com_port os vid pid h;
     (case found of
        Some path \<Rightarrow> Some (Some (pid, path), h)
      | None \<Rightarrow> find_any os vid pids h)
   }"

text \<open>The search only enumerates: these are all its events.\<close>

fun is_search_event :: "event \<Rightarrow> bool" where
  "is_search_event (EvGetClassDevs _) = True"
| "is_search_event (EvEnumDevice _) = True"
| "is_search_event EvDestroyDeviceInfoList = True"
| "is_search_event _ = False"

definition search_more :: "history \<Rightarrow> history \<Rightarrow> bool" where
  "search_more h h' \<longleftrightarrow> (\<exists>es. h' = h @ es \<and> list_all is_search_event es)"

lemma search_more_step: "is_search_event e \<Longrightarrow> search_more h (h @ [e])"
  by (auto simp: search_more_def)

lemma search_more_trans: "search_more h1 h2 \<Longrightarrow> search_more h2 h3 \<Longrightarrow> search_more h1 h3"
  by (auto simp: search_more_def)

lemma find_com_loop_history:
  assumes "find_com_loop os vid pid index h = Some y"
  shows "search_more h (snd y)"
proof (rule find_com_loop.raw_induct
    [where P = "\<lambda>os vid pid index h y. search_more h (snd y)", OF _ assms])
  fix go :: "os \<Rightarrow> u16 \<Rightarrow> u16 \<Rightarrow> u32 \<Rightarrow> history \<Rightarrow> (rstr option \<times> history) option" and os vid pid index h y
  assume IH: "\<And>os vid pid index h y. go os vid pid index h = Some y \<Longrightarrow> search_more h (snd y)"
    and body: "(case os_enum_device os h index of
        Failed err \<Rightarrow>
          if err = ERROR_NO_MORE_ITEMS then Some (None, h @ [EvEnumDevice index])
          else go os vid pid (index + 1) (h @ [EvEnumDevice index])
      | Done d \<Rightarrow>
          (case probe_device vid pid d of
             Some name \<Rightarrow> Some (Some name, h @ [EvEnumDevice index])
           | None \<Rightarrow> go os vid pid (index + 1) (h @ [EvEnumDevice index]))) = Some y"
  have one: "search_more h (h @ [EvEnumDevice index])"
    by (rule search_more_step) simp
  have more: "search_more h (snd y)"
    if "go os vid pid (index + 1) (h @ [EvEnumDevice index]) = Some y"
    using search_more_trans [OF one IH [OF that]] .
  show "search_more h (snd y)"
    using body one more by (auto split: answer.splits option.splits if_splits)
qed

lemma find_com_port_history:
  assumes "find_com_port os vid pid h = Some (r, h')"
  shows "search_more h h'"
proof (cases "os_class_devs os h")
  case True
  then obtain h1 where "find_com_loop os vid pid 0 (h @ [EvGetClassDevs True]) = Some (r, h1)"
    and h': "h' = h1 @ [EvDestroyDeviceInfoList]"
    using assms by (auto simp: find_com_port_def split: bind_splits)
  then have "search_more (h @ [EvGetClassDevs True]) h1"
    using find_com_loop_history by fastforce
  then show ?thesis
    by (auto simp: h' search_more_def)
next
  case False
  then show ?thesis using assms by (auto simp: find_com_port_def search_more_def)
qed

lemma find_any_history: "find_any os vid pids h = Some (r, h') \<Longrightarrow> search_more h h'"
proof (induction pids arbitrary: h)
  case Nil
  then show ?case by (simp add: search_more_def)
next
  case (Cons pid pids)
  then obtain found h1 where f: "find_com_port os vid pid h = Some (found, h1)"
    by (auto split: bind_splits)
  then have "search_more h h1" by (rule find_com_port_history)
  with Cons f show ?case
    by (cases found) (auto intro: search_more_trans)
qed

text \<open>
  An enumeration that the SetupAPI documents: the answers depend on the index only, and after the
  last interface comes \<open>ERROR_NO_MORE_ITEMS\<close>.
\<close>

definition enumerates :: "os \<Rightarrow> com_device answer list \<Rightarrow> bool" where
  "enumerates os devs \<longleftrightarrow> length devs < 2 ^ 32 \<and>
     (\<forall>h i. os_enum_device os h i =
        (if unat i < length devs then devs ! unat i else Failed ERROR_NO_MORE_ITEMS)) \<and>
     Failed ERROR_NO_MORE_ITEMS \<notin> set devs"

fun first_probe :: "u16 \<Rightarrow> u16 \<Rightarrow> com_device answer list \<Rightarrow> rstr option" where
  "first_probe vid pid [] = None"
| "first_probe vid pid (Failed e # ds) = first_probe vid pid ds"
| "first_probe vid pid (Done d # ds) =
     (case probe_device vid pid d of Some name \<Rightarrow> Some name | None \<Rightarrow> first_probe vid pid ds)"

lemma find_com_loop_first:
  assumes "enumerates os devs" "n \<le> length devs"
  shows "\<exists>h'. find_com_loop os vid pid (of_nat n) h = Some (first_probe vid pid (drop n devs), h')"
  using assms(2)
proof (induction "length devs - n" arbitrary: n h)
  case 0
  then have "unat (of_nat n :: u32) = length devs"
    using assms(1) by (simp add: enumerates_def unat_of_nat)
  then have "os_enum_device os h (of_nat n) = Failed ERROR_NO_MORE_ITEMS"
    using assms(1) by (simp add: enumerates_def)
  then show ?case using 0 by (subst find_com_loop.simps) simp
next
  case (Suc k)
  then have n: "n < length devs" "unat (of_nat n :: u32) = n"
    using assms(1) by (auto simp: enumerates_def unat_of_nat)
  then have ans: "os_enum_device os h (of_nat n) = devs ! n" "devs ! n \<noteq> Failed ERROR_NO_MORE_ITEMS"
    using assms(1) by (auto simp: enumerates_def) (metis nth_mem)
  have drop: "drop n devs = devs ! n # drop (Suc n) devs"
    using n by (simp add: Cons_nth_drop_Suc)
  obtain h' where rest: "find_com_loop os vid pid (of_nat (Suc n)) (h @ [EvEnumDevice (of_nat n)]) =
      Some (first_probe vid pid (drop (Suc n) devs), h')"
    using Suc.hyps(1) [of "Suc n"] Suc.hyps(2) n by force
  have next1: "of_nat n + 1 = (of_nat (Suc n) :: u32)" by simp
  show ?case
  proof (cases "devs ! n")
    case (Failed e)
    with ans rest show ?thesis
      by (subst find_com_loop.simps) (simp add: drop next1 del: of_nat_Suc)
  next
    case (Done d)
    with ans rest show ?thesis
      by (subst find_com_loop.simps)
        (auto simp: drop next1 simp del: of_nat_Suc split: option.splits)
  qed
qed

section \<open>Properties\<close>

text \<open>
  C14. No handle leaks and none is closed twice: whatever Windows answers, after any sequence of
  opens, closes, timeout changes, reads and writes on a fresh port, on every error path, dropping
  the port leaves every handle closed exactly as often as it was obtained.
\<close>

theorem serial_port_closes_all_handles:
  "balance x (snd (case foldl (\<lambda>(p, h) c. serial_do os c p h) (serial_port_default, h) ops of
     (p, h') \<Rightarrow> sp_drop p h')) = balance x h"
proof -
  obtain p1 h1 where run: "foldl (\<lambda>(p, h) c. serial_do os c p h) (serial_port_default, h) ops = (p1, h1)"
    by (cases "foldl (\<lambda>(p, h) c. serial_do os c p h) (serial_port_default, h) ops")
  obtain p2 h2 where drop: "sp_drop p1 h1 = (p2, h2)" by (cases "sp_drop p1 h1")
  have "sp_owned serial_port_default y = 0" for y
    by (simp add: sp_owned_def serial_port_default_def overlapped_default_def)
  then show ?thesis using port.no_leak [OF run drop] by (simp add: run drop)
qed

text \<open>
  C5. No operation of the port returns while the kernel may still use its \<open>OVERLAPPED\<close> or the
  caller's buffer: a write that times out is cancelled and then waited for.
\<close>

theorem serial_io_never_in_flight:
  "\<not> io_live (snd (foldl (\<lambda>(p, h) c. serial_do os c p h) (serial_port_default, []) ops))"
proof -
  have "\<not> io_live (snd (foldl (\<lambda>(p, h) c. serial_do os c p h) s ops))" if "\<not> io_live (snd s)" for s
    using that
  proof (induction ops arbitrary: s)
    case (Cons c ops)
    obtain p h where "s = (p, h)" by (cases s)
    with Cons serial_do_live [of os c p h] show ?case
      by (cases "serial_do os c p h") auto
  qed simp
  then show ?thesis by (simp add: io_live_def)
qed

text \<open>
  A write reports success only when Windows reports that every byte was written, either at once
  or after a wait that ended with the operation complete.
\<close>

theorem sp_write_success:
  assumes "sp_write os buf p h = (True, p', h')"
  shows "is_open p \<and> is_open p' \<and>
    (\<exists>h1. os_write_file os h1 (sp_handle p) buf = Done (length buf) \<or>
      (os_write_file os h1 (sp_handle p) buf = Failed ERROR_IO_PENDING \<and>
       (\<exists>h2. os_overlapped_write os h2 (sp_handle p) = Done (length buf))))"
proof -
  have opened: "is_open p \<and> is_open p'"
    using link.wr_True_opened assms by blast
  obtain ok ws h1 where prep: "prepare_overlapped os (sp_write_state p) h = (ok, ws, h1)"
    by (cases "prepare_overlapped os (sp_write_state p) h")
  have "os_write_file os h1 (sp_handle p) buf = Done (length buf) \<or>
      (os_write_file os h1 (sp_handle p) buf = Failed ERROR_IO_PENDING \<and>
       (\<exists>h2. os_overlapped_write os h2 (sp_handle p) = Done (length buf)))"
    using assms prep
    by (auto simp: sp_write_def wait_overlapped_def Let_def split: if_splits answer.splits)
  with opened show ?thesis by blast
qed

text \<open>A Windows that grants every request: used by the witnesses.\<close>

definition willing_os :: os where
  "willing_os = \<lparr>os_create_file = (\<lambda>h path. 10), os_create_event = (\<lambda>h. 20),
     os_get_comm_state = (\<lambda>h hd. Some \<lparr>dcb_baud_rate = 0, dcb_byte_size = 0, dcb_stop_bits = 0,
        dcb_parity = 0, dcb_other = 0\<rparr>),
     os_set_comm_state = (\<lambda>h hd d. True), os_set_comm_timeouts = (\<lambda>h hd t. True),
     os_read_file = (\<lambda>h hd n. Done []), os_write_file = (\<lambda>h hd bs. Done (length bs)),
     os_overlapped_read = (\<lambda>h hd. Done []), os_overlapped_write = (\<lambda>h hd. Done 0),
     os_wait = (\<lambda>h hd t. 0), os_class_devs = (\<lambda>h. True),
     os_enum_device = (\<lambda>h i. Failed ERROR_NO_MORE_ITEMS), os_create_mapping = (\<lambda>h n. (30, 0)),
     os_create_mutex = (\<lambda>h n. 40), os_map_view = (\<lambda>h hd. 1), os_tick = (\<lambda>h. of_nat (length h)),
     os_key_state = (\<lambda>h k. 0), os_hid_new = (\<lambda>h. True), os_hid_devices = (\<lambda>h. []),
     os_hid_open = (\<lambda>h p. True), os_hid_read = (\<lambda>h p n. Some []), os_hid_write = (\<lambda>h p r. Some (length r))\<rparr>"

definition opened_port :: serial_port where
  "opened_port = fst (snd (sp_open willing_os (lit ''COM3'') 115200 serial_port_default []))"

theorem sp_write_success_witness:
  "is_open (fst (snd (sp_write willing_os [1, 2] opened_port [])))"
proof -
  have "sp_write willing_os [1, 2] opened_port [] = (True, snd (sp_write willing_os [1, 2] opened_port []))"
    by (simp add: sp_write_def opened_port_def sp_open_def serial_defs willing_os_def open_timeouts_def
        serial_port_default_def overlapped_default_def NULL_HANDLE_def INVALID_HANDLE_VALUE_def)
  then show ?thesis using sp_write_success [of willing_os "[1, 2]" opened_port "[]"]
    by (metis prod.collapse)
qed

text \<open>
  The search for a port returns: for every enumeration as Windows documents it, it finds the port
  of the first interface, in enumeration order, that matches the device and has a COM name,
  skipping interfaces whose queries fail, and it frees the device list.
\<close>

theorem find_com_port_first:
  assumes "enumerates os devs" and "os_class_devs os h"
  shows "\<exists>h'. find_com_port os vid pid h =
    Some (first_probe vid pid devs, h' @ [EvDestroyDeviceInfoList])"
  using find_com_loop_first [OF assms(1), of 0 vid pid "h @ [EvGetClassDevs True]"] assms(2)
  by (auto simp: find_com_port_def)

theorem find_com_port_first_witness:
  "\<exists>h'. find_com_port willing_os 0xAFF1 0x5730 [] = Some (None, h' @ [EvDestroyDeviceInfoList])"
proof -
  have "enumerates willing_os []" "os_class_devs willing_os []"
    by (simp_all add: enumerates_def willing_os_def)
  from find_com_port_first [OF this, of "0xAFF1" "0x5730"] show ?thesis by simp
qed

text \<open>
  A name the search returns is a device path of the form the port can be opened with: the device
  prefix, \<open>COM\<close>, and ASCII letters or digits only.
\<close>

theorem parse_com_name_form:
  assumes "parse_com_name raw = Some name"
  shows "\<exists>rest. name = device_prefix @ lit ''COM'' @ rest \<and> list_all is_ascii_alphanumeric rest"
proof -
  obtain suffix where s: "find_suffix (lit ''COM'') (utf16_lossy (takeWhile (\<lambda>u. u \<noteq> 0) (u16_units raw))) = Some suffix"
    and name: "name = device_prefix @ takeWhile is_ascii_alphanumeric suffix"
    using assms by (auto simp: parse_com_name_def Let_def split: option.splits if_splits)
  obtain t where "suffix = lit ''COM'' @ t"
    using find_suffix_Some [OF s] by (auto simp: starts_with_append)
  then have "name = device_prefix @ lit ''COM'' @ takeWhile is_ascii_alphanumeric t"
    by (simp add: name lit_def is_ascii_alphanumeric_def)
  moreover have "list_all is_ascii_alphanumeric (takeWhile is_ascii_alphanumeric t)"
    by (auto simp: list_all_iff dest: set_takeWhileD)
  ultimately show ?thesis by blast
qed

definition utf16_bytes :: "string \<Rightarrow> u8 list" where
  "utf16_bytes s = concat (map (\<lambda>c. [of_nat (of_char c), 0]) s)"

theorem parse_com_name_form_witness:
  "\<exists>rest. device_prefix @ lit ''COM7'' = device_prefix @ lit ''COM'' @ rest \<and>
     list_all is_ascii_alphanumeric rest"
proof -
  have "parse_com_name (utf16_bytes ''Port (COM7)'') = Some (device_prefix @ lit ''COM7'')"
    by (simp add: parse_com_name_def utf16_bytes_def lit_def starts_with_def is_ascii_alphanumeric_def Let_def)
  from parse_com_name_form [OF this] show ?thesis .
qed

text \<open>A friendly name with an earlier \<open>COM\<close> in it gives a path that is not the port's.\<close>

lemma parse_com_name_first_occurrence:
  "parse_com_name (utf16_bytes ''USB COMPOSITE (COM7)'') = Some (device_prefix @ lit ''COMPOSITE'')"
  by (simp add: parse_com_name_def utf16_bytes_def lit_def starts_with_def is_ascii_alphanumeric_def Let_def)

end
