(* ===== verification/Shared_Memory.thy ===== *)
theory Shared_Memory
  imports Serial
begin

text \<open>
  \<open>crates/affine-core/src/shared_memory.rs\<close>: the named shared-memory page \<open>SharedPage<T>\<close> with its
  mutex.  The memory behind the views is a map from addresses to page contents; Windows hands out
  the mapping, the mutex and the view address.

  Two interfaces live here: \<open>page_cell\<close>, what a user of a page may rely on, and \<open>publisher\<close>, the
  sequence-number protocol by which the runtimes hand LED data from the game's calls to the device
  threads.
\<close>

section \<open>The page\<close>

type_synonym 'a memory = "nat \<Rightarrow> 'a"

record shared_page =
  pg_mapping :: handle
  pg_mutex :: handle
  pg_view :: nat

definition page_lock :: "os \<Rightarrow> shared_page \<Rightarrow> history \<Rightarrow> history" where
  "page_lock os pg h =
     h @ [EvWaitForSingleObject (pg_mutex pg) INFINITE (os_wait os h (pg_mutex pg) INFINITE)]"

definition page_unlock :: "shared_page \<Rightarrow> history \<Rightarrow> history" where
  "page_unlock pg h = h @ [EvReleaseMutex (pg_mutex pg)]"

definition page_read :: "os \<Rightarrow> shared_page \<Rightarrow> 'a memory \<times> history \<Rightarrow> 'a \<times> 'a memory \<times> history" where
  "page_read os pg s =
     (let (mem, h) = s;
          h = page_lock os pg h;
          val = mem (pg_view pg);
          h = page_unlock pg h
      in (val, mem, h))"

definition page_write :: "os \<Rightarrow> shared_page \<Rightarrow> 'a \<Rightarrow> 'a memory \<times> history \<Rightarrow> 'a memory \<times> history" where
  "page_write os pg val s =
     (let (mem, h) = s;
          h = page_lock os pg h;
          mem = mem(pg_view pg := val);
          h = page_unlock pg h
      in (mem, h))"

definition page_update ::
  "os \<Rightarrow> shared_page \<Rightarrow> ('a \<Rightarrow> 'a \<times> 'r) \<Rightarrow> 'a memory \<times> history \<Rightarrow> 'r \<times> 'a memory \<times> history" where
  "page_update os pg f s =
     (let (mem, h) = s;
          h = page_lock os pg h;
          (val, result) = f (mem (pg_view pg));
          mem = mem(pg_view pg := val);
          h = page_unlock pg h
      in (result, mem, h))"

definition page_create ::
  "os \<Rightarrow> rstr \<Rightarrow> rstr \<Rightarrow> 'a \<Rightarrow> 'a memory \<times> history \<Rightarrow> shared_page option \<times> 'a memory \<times> history" where
  "page_create os mapping_name mutex_name init s =
     (let (mem, h) = s;
          (mapping, err) = os_create_mapping os h mapping_name;
          h = h @ [EvCreateFileMapping mapping_name mapping]
      in if mapping = NULL_HANDLE then (None, mem, h)
      else
        let existed = (err = ERROR_ALREADY_EXISTS);
            mutex = os_create_mutex os h mutex_name;
            h = h @ [EvCreateMutex mutex_name mutex]
        in if mutex = NULL_HANDLE then (None, mem, h @ [EvCloseHandle mapping])
        else
          let view = os_map_view os h mapping;
              h = h @ [EvMapView mapping view]
          in if view = 0 then (None, mem, h @ [EvCloseHandle mutex, EvCloseHandle mapping])
          else
            let page = \<lparr>pg_mapping = mapping, pg_mutex = mutex, pg_view = view\<rparr>;
                (mem, h) = (if \<not> existed then page_write os page init (mem, h) else (mem, h))
            in (Some page, mem, h))"

definition page_drop :: "shared_page \<Rightarrow> history \<Rightarrow> shared_page \<times> history" where
  "page_drop pg h =
     (let h = (if pg_view pg \<noteq> 0 then h @ [EvUnmapView (pg_view pg)] else h);
          h = (if pg_mutex pg \<noteq> NULL_HANDLE then h @ [EvCloseHandle (pg_mutex pg)] else h);
          h = (if pg_mapping pg \<noteq> NULL_HANDLE then h @ [EvCloseHandle (pg_mapping pg)] else h)
      in (\<lparr>pg_mapping = NULL_HANDLE, pg_mutex = NULL_HANDLE, pg_view = 0\<rparr>, h))"

lemmas page_defs = page_lock_def page_unlock_def page_read_def page_write_def page_update_def Let_def

section \<open>What a page promises\<close>

locale page_cell =
  fixes content :: "'s \<Rightarrow> 'p"
    and rd :: "'s \<Rightarrow> 'p \<times> 's"
    and wr :: "'p \<Rightarrow> 's \<Rightarrow> 's"
    and up :: "('p \<Rightarrow> 'p \<times> 'r) \<Rightarrow> 's \<Rightarrow> 'r \<times> 's"
  assumes rd_value: "fst (rd s) = content s"
    and rd_keeps: "content (snd (rd s)) = content s"
    and wr_value: "content (wr v s) = v"
    and up_value: "content (snd (up f s)) = fst (f (content s))"
    and up_result: "fst (up f s) = snd (f (content s))"
begin

lemma read_after_write: "fst (rd (wr v s)) = v"
  by (simp add: rd_value wr_value)

lemma read_after_update: "fst (rd (snd (up f s))) = fst (f (fst (rd s)))"
  by (simp add: rd_value up_value)

lemma updates_compose: "content (snd (up g (snd (up f s)))) = fst (g (fst (f (content s))))"
  by (simp add: up_value)

end

interpretation page: page_cell "\<lambda>s. fst s (pg_view pg)" "page_read os pg" "page_write os pg"
  "page_update os pg" for os pg
  by unfold_locales (auto simp: page_defs split: prod.splits)

text \<open>The handles a page holds, and the view it has mapped.\<close>

definition page_owned :: "shared_page \<Rightarrow> handle \<Rightarrow> int" where
  "page_owned pg x = gains (pg_mapping pg) x + gains (pg_mutex pg) x"

definition page_idle :: shared_page where
  "page_idle = \<lparr>pg_mapping = NULL_HANDLE, pg_mutex = NULL_HANDLE, pg_view = 0\<rparr>"

fun ev_views :: "event \<Rightarrow> int" where
  "ev_views (EvMapView _ a) = (if a = 0 then 0 else 1)"
| "ev_views (EvUnmapView a) = -1"
| "ev_views _ = 0"

definition views :: "history \<Rightarrow> int" where
  "views h = sum_list (map ev_views h)"

text \<open>Whether a mutex is held: taken by the wait, given back by the release.\<close>

fun held_after :: "handle \<Rightarrow> bool \<Rightarrow> event \<Rightarrow> bool" where
  "held_after m held (EvWaitForSingleObject x t r) = (held \<or> x = m)"
| "held_after m held (EvReleaseMutex x) = (held \<and> x \<noteq> m)"
| "held_after m held _ = held"

definition holds_mutex :: "handle \<Rightarrow> history \<Rightarrow> bool" where
  "holds_mutex m h = foldl (held_after m) False h"

text \<open>Uses of a page between its creation and its drop.\<close>

datatype 'a page_op = PageRead | PageWrite 'a | PageUpdate "'a \<Rightarrow> 'a"

fun page_do :: "os \<Rightarrow> shared_page \<Rightarrow> 'a page_op \<Rightarrow> 'a memory \<times> history \<Rightarrow> 'a memory \<times> history" where
  "page_do os pg PageRead s = snd (page_read os pg s)"
| "page_do os pg (PageWrite v) s = page_write os pg v s"
| "page_do os pg (PageUpdate f) s = snd (page_update os pg (\<lambda>v. (f v, ())) s)"

definition page_life ::
  "os \<Rightarrow> rstr \<Rightarrow> rstr \<Rightarrow> 'a \<Rightarrow> 'a page_op list \<Rightarrow> 'a memory \<times> history \<Rightarrow> 'a memory \<times> history" where
  "page_life os mapping_name mutex_name init ops s =
     (case page_create os mapping_name mutex_name init s of
        (None, s') \<Rightarrow> s'
      | (Some pg, s') \<Rightarrow>
          let (mem, h) = fold (page_do os pg) ops s' in (mem, snd (page_drop pg h)))"

lemma page_do_events:
  "\<exists>r. snd (page_do os pg c (mem, h)) =
     h @ [EvWaitForSingleObject (pg_mutex pg) INFINITE r, EvReleaseMutex (pg_mutex pg)]"
  by (cases c) (auto simp: page_defs split: prod.splits)

lemma page_ops_events:
  "\<exists>es. snd (fold (page_do os pg) ops s) = snd s @ es \<and> balance x es = 0 \<and> views es = 0 \<and>
     (\<not> held \<longrightarrow> \<not> foldl (held_after m) held es)"
proof (induction ops arbitrary: s)
  case Nil
  then show ?case by (simp add: views_def)
next
  case (Cons c ops)
  obtain r where r: "snd (page_do os pg c s) =
      snd s @ [EvWaitForSingleObject (pg_mutex pg) INFINITE r, EvReleaseMutex (pg_mutex pg)]"
    using page_do_events [of os pg c "fst s" "snd s"] by auto
  from Cons [of "page_do os pg c s"] obtain es where
    es: "snd (fold (page_do os pg) ops (page_do os pg c s)) = snd (page_do os pg c s) @ es"
      "balance x es = 0" "views es = 0" "\<not> held \<longrightarrow> \<not> foldl (held_after m) held es"
    by blast
  show ?case
    by (rule exI [of _ "[EvWaitForSingleObject (pg_mutex pg) INFINITE r,
        EvReleaseMutex (pg_mutex pg)] @ es"])
      (use r es in \<open>auto simp: views_def\<close>)
qed

section \<open>Publishing through a sequence number\<close>

text \<open>
  A control page carries a value and a sequence number.  Publishing a value either bumps the number,
  or leaves the page alone because the page holds the value already.  The device thread remembers
  the number it last acted on; when the page's number differs it takes the value over.
\<close>

locale publisher =
  fixes seqno :: "'p \<Rightarrow> u64"
    and payload :: "'p \<Rightarrow> 'v"
    and publish :: "'v \<Rightarrow> 'p \<Rightarrow> 'p"
  assumes publish_payload: "payload (publish v p) = v"
    and publish_seqno: "seqno (publish v p) = seqno p + 1 \<or> publish v p = p"
begin

lemma publish_all_payload: "payload (fold publish (vs @ [v]) p) = v"
  by (simp add: publish_payload)

lemma publish_all_seqno:
  "\<exists>k \<le> length vs. seqno (fold publish vs p) = seqno p + of_nat k \<and>
     (k = 0 \<longrightarrow> fold publish vs p = p)"
proof (induction vs arbitrary: p)
  case Nil
  then show ?case by simp
next
  case (Cons v vs)
  obtain k where k: "k \<le> length vs" "seqno (fold publish vs (publish v p)) = seqno (publish v p) + of_nat k"
    "k = 0 \<longrightarrow> fold publish vs (publish v p) = publish v p"
    using Cons [of "publish v p"] by auto
  show ?case
  proof (cases "publish v p = p")
    case True
    with k show ?thesis by (intro exI [of _ k]) auto
  next
    case False
    then have "seqno (publish v p) = seqno p + 1" using publish_seqno [of v p] by blast
    with k show ?thesis by (intro exI [of _ "Suc k"]) (auto simp: algebra_simps)
  qed
qed

text \<open>
  A device that holds the page's value of an earlier moment holds its current value after it has
  looked at the sequence number once, if fewer than \<open>2 ^ 64\<close> values were published in between.
\<close>

lemma takes_over_latest:
  assumes "length vs < 2 ^ 64"
  shows "(if seqno (fold publish vs p) \<noteq> seqno p then payload (fold publish vs p) else payload p) =
    payload (fold publish vs p)"
proof -
  obtain k where k: "k \<le> length vs" "seqno (fold publish vs p) = seqno p + of_nat k"
    "k = 0 \<longrightarrow> fold publish vs p = p"
    using publish_all_seqno by blast
  have "k = 0" if "(of_nat k :: u64) = 0"
  proof -
    have "unat (of_nat k :: u64) = k" using k(1) assms by (simp add: unat_of_nat)
    with that show ?thesis by simp
  qed
  with k show ?thesis by auto
qed

end

text \<open>
  A value that is at some moment of a run of calls not what it was at first: the calls are the
  steps \<open>call\<close> of a larger state, and \<open>val\<close> reads the value in it.
\<close>

fun ever_differs :: "('c \<Rightarrow> 'w \<Rightarrow> 'w option) \<Rightarrow> ('w \<Rightarrow> 'v) \<Rightarrow> 'v \<Rightarrow> 'c list \<Rightarrow> 'w \<Rightarrow> bool" where
  "ever_differs call val v [] w = (val w \<noteq> v)"
| "ever_differs call val v (c # cs) w =
     (val w \<noteq> v \<or> (case call c w of None \<Rightarrow> False | Some w' \<Rightarrow> ever_differs call val v cs w'))"

lemma ever_differs_now: "val w \<noteq> v \<Longrightarrow> ever_differs call val v cs w"
  by (cases cs) simp_all

text \<open>
  A publisher that does nothing for the value that is there already.  For calls that publish, or leave
  alone, the page inside a larger state, the number changes exactly if the value ever did.
\<close>

locale changing_publisher = publisher +
  assumes publish_same: "publish (payload p) p = p"
begin

lemma run_number:
  assumes step: "\<forall>c w w'. call c w = Some w' \<longrightarrow>
      (seqno (page w'), payload (page w')) = (seqno (page w), payload (page w)) \<or>
      (\<exists>v. (seqno (page w'), payload (page w')) = (seqno (publish v (page w)), payload (publish v (page w))))"
    and run: "run w cs = Some w'"
    and run_Nil: "\<And>w. run w [] = Some w"
    and run_Cons: "\<And>w c cs. run w (c # cs) = Option.bind (call c w) (\<lambda>w. run w cs)"
  shows "\<exists>k \<le> length cs. seqno (page w') = seqno (page w) + of_nat k \<and>
    (k \<noteq> 0 \<longleftrightarrow> ever_differs call (\<lambda>w. payload (page w)) (payload (page w)) cs w)"
  using run
proof (induction cs arbitrary: w)
  case Nil
  then have "w' = w" by (simp only: run_Nil option.inject)
  then show ?case by simp
next
  case (Cons c cs)
  have "Option.bind (call c w) (\<lambda>w. run w cs) = Some w'"
    using Cons.prems by (simp only: run_Cons)
  then obtain w1 where w1: "call c w = Some w1" "run w1 cs = Some w'"
    by (cases "call c w") simp_all
  obtain k where k: "k \<le> length cs" "seqno (page w') = seqno (page w1) + of_nat k"
    "k \<noteq> 0 \<longleftrightarrow> ever_differs call (\<lambda>w. payload (page w)) (payload (page w1)) cs w1"
    using Cons.IH [OF w1(2)] by blast
  show ?case
  proof (cases "(seqno (page w1), payload (page w1)) = (seqno (page w), payload (page w))")
    case True
    with k w1(1) show ?thesis by (intro exI [of _ k]) auto
  next
    case False
    then obtain v where v: "seqno (page w1) = seqno (publish v (page w))" "payload (page w1) = v"
      using step w1(1) by (metis Pair_inject publish_payload)
    have "v \<noteq> payload (page w)" using False v publish_same [of "page w"] by auto
    then have "ever_differs call (\<lambda>w. payload (page w)) (payload (page w)) cs w1"
      using v(2) ever_differs_now [of "\<lambda>w. payload (page w)" w1] by metis
    moreover have "publish v (page w) \<noteq> page w"
      using \<open>v \<noteq> payload (page w)\<close> publish_payload [of v "page w"] by metis
    then have "seqno (page w1) = seqno (page w) + 1" using publish_seqno [of v "page w"] v(1) by metis
    ultimately show ?thesis using k w1(1) by (intro exI [of _ "Suc k"]) (auto simp: algebra_simps)
  qed
qed

lemma run_noticed:
  assumes step: "\<forall>c w w'. call c w = Some w' \<longrightarrow>
      (seqno (page w'), payload (page w')) = (seqno (page w), payload (page w)) \<or>
      (\<exists>v. (seqno (page w'), payload (page w')) = (seqno (publish v (page w)), payload (publish v (page w))))"
    and "run w cs = Some w'"
    and "\<And>w. run w [] = Some w"
    and "\<And>w c cs. run w (c # cs) = Option.bind (call c w) (\<lambda>w. run w cs)"
    and few: "length cs < 2 ^ 64"
  shows "seqno (page w') \<noteq> seqno (page w) \<longleftrightarrow>
    ever_differs call (\<lambda>w. payload (page w)) (payload (page w)) cs w"
proof -
  note number = run_number [OF assms(1-4)]
  obtain k where k: "k \<le> length cs" "seqno (page w') = seqno (page w) + of_nat k"
    "k \<noteq> 0 \<longleftrightarrow> ever_differs call (\<lambda>w. payload (page w)) (payload (page w)) cs w"
    using number by (elim exE conjE) (rule that)
  have "unat (of_nat k :: u64) = k" using k(1) few by (simp add: unat_of_nat)
  then have "(of_nat k :: u64) = 0 \<longleftrightarrow> k = 0" by (cases "k = 0") auto
  then have "seqno (page w') \<noteq> seqno (page w) \<longleftrightarrow> k \<noteq> 0" unfolding k(2) by simp
  also note k(3)
  finally show ?thesis .
qed

end

text \<open>A publisher that always bumps the number: every publication is noticed.\<close>

locale counting_publisher = publisher +
  assumes publish_counts: "seqno (publish v p) = seqno p + 1"
begin

lemma publish_all_counts: "seqno (fold publish vs p) = seqno p + of_nat (length vs)"
  by (induction vs arbitrary: p) (auto simp: publish_counts algebra_simps)

lemma noticed:
  assumes "length vs < 2 ^ 64"
  shows "seqno (fold publish vs p) \<noteq> seqno p \<longleftrightarrow> vs \<noteq> []"
proof -
  have "unat (of_nat (length vs) :: u64) = length vs"
    using assms by (simp add: unat_of_nat)
  then have "(of_nat (length vs) :: u64) = 0 \<longleftrightarrow> vs = []"
    by (metis length_0_conv unat_0 unat_eq_zero)
  then show ?thesis by (simp add: publish_all_counts)
qed

lemma published: "payload (fold publish vs p) = (if vs = [] then payload p else List.last vs)"
proof (cases vs rule: rev_cases)
  case (snoc us v)
  then show ?thesis using publish_all_payload [of us v p] by simp
qed simp

end

section \<open>Properties\<close>

text \<open>
  C31. A page is exclusive and leaves nothing behind: whatever Windows answers, creating a page, using
  it any number of times and dropping it closes every handle as often as it was obtained, unmaps
  every view it mapped, and ends with no mutex held, on the failing paths of the creation too.
\<close>

theorem shared_page_life_clean:
  "\<exists>es. snd (page_life os mapping_name mutex_name init ops (mem, h)) = h @ es \<and>
     balance x es = 0 \<and> views es = 0 \<and> \<not> holds_mutex m es"
proof -
  obtain c mem1 h1 where create: "page_create os mapping_name mutex_name init (mem, h) = (c, mem1, h1)"
    by (cases "page_create os mapping_name mutex_name init (mem, h)")
  show ?thesis
  proof (cases c)
    case None
    then show ?thesis using create
      by (auto simp: page_life_def page_create_def Let_def views_def holds_mutex_def
          split: if_splits prod.splits)
  next
    case (Some pg)
    obtain es1 where es1: "h1 = h @ es1" "balance x es1 = page_owned pg x" "views es1 = 1"
      "pg_view pg \<noteq> 0" "pg_mutex pg \<noteq> NULL_HANDLE" "pg_mapping pg \<noteq> NULL_HANDLE"
      "\<not> foldl (held_after m) False es1"
      using create Some
      by (auto simp: page_create_def page_defs views_def page_owned_def
          split: if_splits prod.splits)
    obtain es2 where es2: "snd (fold (page_do os pg) ops (mem1, h1)) = h1 @ es2" "balance x es2 = 0"
      "views es2 = 0" "\<not> foldl (held_after m) False es2"
      using page_ops_events [of os pg ops "(mem1, h1)" x False m] by auto
    let ?es3 = "[EvUnmapView (pg_view pg), EvCloseHandle (pg_mutex pg), EvCloseHandle (pg_mapping pg)]"
    have "snd (page_life os mapping_name mutex_name init ops (mem, h)) = h @ es1 @ es2 @ ?es3"
      using create Some es1 es2 by (simp add: page_life_def page_drop_def Let_def split_beta)
    moreover have "foldl (held_after m) (foldl (held_after m) False es1) es2 = False"
      using es1(7) es2(4) by (cases "foldl (held_after m) False es1") auto
    ultimately show ?thesis
      using es1 es2 by (intro exI [of _ "es1 @ es2 @ ?es3"])
        (auto simp: views_def holds_mutex_def page_owned_def)
  qed
qed

text \<open>
  A page that this process creates starts at the default value; one that existed keeps its
  contents; and updates are atomic reads and writes of the cell: the last of two updates sees the
  first one's value.
\<close>

theorem page_create_initial:
  fixes f g :: "'a \<Rightarrow> 'a \<times> 'r"
  assumes "page_create os mapping_name mutex_name init (mem, h) = (Some pg, mem', h')"
  shows "mem' (pg_view pg) =
      (if snd (os_create_mapping os h mapping_name) = ERROR_ALREADY_EXISTS then mem (pg_view pg) else init) \<and>
    fst (page_read os pg (snd (page_update os pg g (snd (page_update os pg f (mem', h')))))) =
      fst (g (fst (f (mem' (pg_view pg)))))"
proof -
  have "mem' (pg_view pg) =
      (if snd (os_create_mapping os h mapping_name) = ERROR_ALREADY_EXISTS then mem (pg_view pg) else init)"
    using assms by (auto simp: page_create_def page_defs split: if_splits prod.splits)
  then show ?thesis
    using page.updates_compose [of os pg g f "(mem', h')"] by (simp add: page.rd_value)
qed

theorem page_create_initial_witness:
  "let pg = \<lparr>pg_mapping = 30, pg_mutex = 40, pg_view = 1\<rparr>;
       s0 = snd (page_create willing_os [] [] (5 :: nat) (\<lambda>a. 0, []));
       s1 = snd (page_update willing_os pg (\<lambda>v. (v * 2, ())) s0);
       s2 = snd (page_update willing_os pg (\<lambda>v. (v + 1, ())) s1)
   in fst (page_read willing_os pg s2) = 11"
proof -
  let ?r = "page_create willing_os [] [] (5 :: nat) (\<lambda>a. 0, [])"
  have "?r = (Some \<lparr>pg_mapping = 30, pg_mutex = 40, pg_view = 1\<rparr>, fst (snd ?r), snd (snd ?r))"
    by (simp add: page_create_def page_defs willing_os_def NULL_HANDLE_def ERROR_ALREADY_EXISTS_def)
  from page_create_initial [OF this, of "\<lambda>v. (v + 1, ())" "\<lambda>v. (v * 2, ())"] show ?thesis
    by (simp add: willing_os_def ERROR_ALREADY_EXISTS_def)
qed

end
