(* ===== verification/Port_Use.thy ===== *)
theory Port_Use
  imports Serial
begin

text \<open>
  What the device threads need of a serial port beyond its own contract: the frames that reach the
  driver and the calls of the game as projections of the history, and ports on which a write always
  reaches the driver.
\<close>

section \<open>Histories projected\<close>

text \<open>The bytes handed to the driver, and the calls of the game's functions, in order.\<close>

fun ev_sent :: "event \<Rightarrow> u8 list list" where
  "ev_sent (EvWriteFile _ bs _) = [bs]"
| "ev_sent _ = []"

definition sent :: "history \<Rightarrow> u8 list list" where
  "sent h = concat (map ev_sent h)"

fun ev_called :: "event \<Rightarrow> event list" where
  "ev_called (EvSliderCallback f s) = [EvSliderCallback f s]"
| "ev_called (EvTouchCallback f s) = [EvTouchCallback f s]"
| "ev_called (EvMai2Callback f p s) = [EvMai2Callback f p s]"
| "ev_called _ = []"

definition called :: "history \<Rightarrow> event list" where
  "called h = concat (map ev_called h)"

lemma sent_append [simp]: "sent (h @ es) = sent h @ sent es" by (simp add: sent_def)
lemma sent_Cons [simp]: "sent (e # es) = ev_sent e @ sent es" by (simp add: sent_def)
lemma sent_Nil [simp]: "sent [] = []" by (simp add: sent_def)
lemma called_append [simp]: "called (h @ es) = called h @ called es" by (simp add: called_def)
lemma called_Cons [simp]: "called (e # es) = ev_called e @ called es" by (simp add: called_def)
lemma called_Nil [simp]: "called [] = []" by (simp add: called_def)

text \<open>
  The callback mutex in a history: every call of a game function falls between a lock and its
  unlock, and at the end the mutex is free.
\<close>

fun guarded :: "bool \<Rightarrow> history \<Rightarrow> bool" where
  "guarded held [] = (\<not> held)"
| "guarded held (e # es) =
     (if e = EvCallbackLock then \<not> held \<and> guarded True es
      else if e = EvCallbackUnlock then held \<and> guarded False es
      else (ev_called e = [] \<or> held) \<and> guarded held es)"

section \<open>A port that is ready\<close>

text \<open>An open port has both its events; then a write always reaches the driver.\<close>

definition port_wf :: "serial_port \<Rightarrow> bool" where
  "port_wf p \<longleftrightarrow> \<not> is_open p \<or>
     (ov_event (sp_read_state p) \<noteq> NULL_HANDLE \<and> ov_event (sp_write_state p) \<noteq> NULL_HANDLE)"

lemma port_wf_default [wf_intros]: "port_wf serial_port_default"
  by (simp add: port_wf_def serial_port_default_def is_open_def)

lemma port_wf_close [wf_intros]: "port_wf (fst (sp_close p h))"
  using link.close_closes by (simp add: port_wf_def)

lemma ensure_event_ok: "ensure_event os st h = (True, st', h') \<Longrightarrow> ov_event st' \<noteq> NULL_HANDLE"
  by (auto simp: ensure_event_def Let_def split: if_splits)

lemma prepare_overlapped_keeps:
  "ov_event st \<noteq> NULL_HANDLE \<Longrightarrow> prepare_overlapped os st h =
     (True, st\<lparr>ov_hEvent := ov_event st\<rparr>, h @ [EvResetEvent (ov_event st)])"
  by (simp add: prepare_overlapped_def Let_def)

lemma port_wf_open [wf_intros]: "port_wf (fst (snd (sp_open os path baud p h)))"
proof -
  obtain p1 h1 where close: "sp_close p h = (p1, h1)" by (cases "sp_close p h")
  have closed: "\<not> is_open p1" using link.close_closes [of p h] close by simp
  let ?h2 = "h1 @ [EvCreateFile path (os_create_file os h1 path)]"
  obtain ok rs h2 where e1: "ensure_event os (sp_read_state p1) ?h2 = (ok, rs, h2)"
    by (cases "ensure_event os (sp_read_state p1) ?h2")
  obtain ok' ws h3 where e2: "ensure_event os (sp_write_state p1) h2 = (ok', ws, h3)"
    by (cases "ensure_event os (sp_write_state p1) h2")
  show ?thesis
    using closed close e1 e2 ensure_event_ok [of os "sp_read_state p1" ?h2 rs h2]
      ensure_event_ok [of os "sp_write_state p1" h2 ws h3]
    by (auto simp: sp_open_def ensure_events_def apply_timeouts_def Let_def port_wf_def is_open_def
        split: option.splits)
qed

lemma port_wf_read [wf_intros]: "port_wf p \<Longrightarrow> port_wf (fst (snd (sp_read os cap p h)))"
  by (cases "is_open p")
    (auto simp: sp_read_def Let_def port_wf_def prepare_overlapped_keeps link.rd_opened
      is_open_def sp_read_closed split: answer.splits)

lemma sp_write_ready:
  assumes "port_wf p" "is_open p"
  shows "\<exists>es. snd (snd (sp_write os buf p h)) = h @ es \<and> sent es = [buf] \<and> called es = [] \<and>
    port_wf (fst (snd (sp_write os buf p h))) \<and> is_open (fst (snd (sp_write os buf p h)))"
  using assms
  by (auto simp: sp_write_def wait_overlapped_def Let_def port_wf_def prepare_overlapped_keeps
      is_open_def split: answer.splits overlapped_wait.splits)

lemma sp_read_quiet:
  "sp_read os cap p h = (r, p', h') \<Longrightarrow> sent h' = sent h \<and> called h' = called h"
  by (auto simp: sp_read_def prepare_overlapped_def ensure_event_def Let_def
      split: if_splits answer.splits prod.splits)

lemma sp_close_quiet: "sp_close p h = (p', h') \<Longrightarrow> sent h' = sent h \<and> called h' = called h"
  by (auto simp: sp_close_def Let_def split: if_splits)

end
