(* ===== verification/Mai2_Device.thy ===== *)
theory Mai2_Device
  imports Mai2_Hid Types Shared_Memory Port_Use
begin

unbundle bit_operations_syntax

text \<open>
  The state of \<open>crates/affine-mai2/src/lib.rs\<close> and the functions every thread shares: the input,
  output and poll pages, a \<open>DeviceHandle\<close> with its flags and counters, \<open>apply_device_frame\<close>,
  \<open>clear_inputs_on_source_drop\<close>, \<open>disconnect_session\<close> and \<open>touch_serial_age_ms\<close>.

  The two device handles are a map from the indices 0 and 1; the atomics of a handle are plain fields,
  since each access is one step.  The reserved padding of the pages is not modelled.
\<close>

section \<open>Constants\<close>

definition MAI2_BUTTON_HID_USAGE_PAGE :: u16 where "MAI2_BUTTON_HID_USAGE_PAGE = 0xFFCA"
definition MAI2_BUTTON_HID_USAGE :: u16 where "MAI2_BUTTON_HID_USAGE = 0x0001"
definition MAI2_BUTTON_HID_REPORT_LEN :: nat where "MAI2_BUTTON_HID_REPORT_LEN = 24"
definition MAI2_VENDOR_HID_USAGE_PAGE :: u16 where "MAI2_VENDOR_HID_USAGE_PAGE = 0xFFCA"
definition MAI2_VENDOR_HID_USAGE :: u16 where "MAI2_VENDOR_HID_USAGE = 0x0002"
definition MAI2_TOUCH_HID_USAGE_PAGE :: u16 where "MAI2_TOUCH_HID_USAGE_PAGE = 0xFF00"
definition MAI2_TOUCH_HID_USAGE :: u16 where "MAI2_TOUCH_HID_USAGE = 0x0031"
definition MAI2_TOUCH_HID_READ_BUF_LEN :: nat where "MAI2_TOUCH_HID_READ_BUF_LEN = 65"
definition AFFINE_HEARTBEAT_INTERVAL_MS :: u64 where "AFFINE_HEARTBEAT_INTERVAL_MS = 100"
definition AFFINE_RESCAN_INTERVAL_MS :: nat where "AFFINE_RESCAN_INTERVAL_MS = 500"
definition AFFINE_BOARD_INFO_DELAY_MS :: u64 where "AFFINE_BOARD_INFO_DELAY_MS = 500"
definition AFFINE_BOARD_INFO_TIMEOUT_MS :: u64 where "AFFINE_BOARD_INFO_TIMEOUT_MS = 1000"
definition AFFINE_DEVICE_LOOP_SLEEP_MS :: nat where "AFFINE_DEVICE_LOOP_SLEEP_MS = 1"
definition AFFINE_SERIAL_READ_BUF_LEN :: nat where "AFFINE_SERIAL_READ_BUF_LEN = 256"
definition AFFINE_TOUCH_DIAG_INTERVAL_MS :: u64 where "AFFINE_TOUCH_DIAG_INTERVAL_MS = 2000"
definition AFFINE_LED_PROBE_ENABLED :: bool where "AFFINE_LED_PROBE_ENABLED = False"
definition AFFINE_TOUCH_STALE_LED_PAUSE_MS :: u64 where "AFFINE_TOUCH_STALE_LED_PAUSE_MS = 300"
definition AFFINE_TOUCH_STALE_RECONNECT_MS :: u64 where "AFFINE_TOUCH_STALE_RECONNECT_MS = 1000"
definition AFFINE_TOUCH_STALE_GRACE_MS :: u64 where "AFFINE_TOUCH_STALE_GRACE_MS = 3000"
definition MAI2_IO_OPBTN_TEST :: u8 where "MAI2_IO_OPBTN_TEST = 0x01"
definition MAI2_IO_OPBTN_SERVICE :: u8 where "MAI2_IO_OPBTN_SERVICE = 0x02"
definition MAI2_IO_OPBTN_COIN :: u8 where "MAI2_IO_OPBTN_COIN = 0x04"
definition MAI2_AFFINE_EXT_TEST_BIT :: nat where "MAI2_AFFINE_EXT_TEST_BIT = 1"
definition MAI2_AFFINE_EXT_SERVICE_BIT :: nat where "MAI2_AFFINE_EXT_SERVICE_BIT = 2"
definition MAI2_AFFINE_EXT_COIN_BIT :: nat where "MAI2_AFFINE_EXT_COIN_BIT = 3"
definition VK_F1 :: u16 where "VK_F1 = 0x70"
definition VK_F2 :: u16 where "VK_F2 = 0x71"
definition VK_F3 :: u16 where "VK_F3 = 0x72"

section \<open>Pages\<close>

record mai2_input_page =
  ip_buttons0 :: u8
  ip_io_status :: u8
  ip_connected :: u8
  ip_touch :: "u8 list"
  ip_sequence :: u64

record mai2_output_page =
  op_touch_enabled :: u8
  op_buttons_sequence :: u64
  op_buttons :: "u8 list"
  op_billboard_sequence :: u64
  op_billboard :: "u8 list"
  op_pwm_sequence :: u64
  op_pwm :: "u8 list"

record mai2_poll_page =
  pp_opbtn :: u8
  pp_player1_btn :: u16
  pp_player2_btn :: u16
  pp_affine_coin :: u8
  pp_sequence :: u64

definition mai2_input_default :: mai2_input_page where
  "mai2_input_default = \<lparr>ip_buttons0 = 0, ip_io_status = 0, ip_connected = 0,
     ip_touch = replicate 7 0, ip_sequence = 0\<rparr>"

definition mai2_output_default :: mai2_output_page where
  "mai2_output_default = \<lparr>op_touch_enabled = 0, op_buttons_sequence = 0, op_buttons = replicate 56 0,
     op_billboard_sequence = 0, op_billboard = replicate 24 0, op_pwm_sequence = 0, op_pwm = replicate 3 0\<rparr>"

definition mai2_poll_default :: mai2_poll_page where
  "mai2_poll_default = \<lparr>pp_opbtn = 0, pp_player1_btn = 0, pp_player2_btn = 0, pp_affine_coin = 0,
     pp_sequence = 0\<rparr>"

section \<open>The device handle and the runtime's state\<close>

record mai2_device =
  dv_player :: u8
  dv_pid :: u16
  dv_diag :: bool
  dv_enabled :: bool
  dv_hid_connected :: bool
  dv_vendor_connected :: bool
  dv_touch_hid_connected :: bool
  dv_touch_frames :: u64
  dv_touch_serial_frames :: u64
  dv_touch_hid_frames :: u64
  dv_touch_callback_frames :: u64
  dv_touch_last_update_ms :: u64
  dv_heartbeat_writes :: u64
  dv_heartbeat_failures :: u64
  dv_led_writes :: u64
  dv_led_button_writes :: u64
  dv_led_billboard_writes :: u64
  dv_led_pwm_writes :: u64
  dv_led_failures :: u64
  dv_led_suspended :: bool
  dv_serial_reconnects :: u64
  dv_vendor_reconnects :: u64
  dv_input_page :: shared_page
  dv_output_page :: shared_page

record keyboard_config =
  kb_vk_test :: u16
  kb_vk_service :: u16
  kb_vk_coin :: u16

record led_probe_board =
  lp_has_last :: bool
  lp_last_ms :: u64
  lp_last_payload :: "u8 list"
  lp_has_last_zero :: bool
  lp_last_zero_ms :: u64
  lp_last_zero_payload :: "u8 list"
  lp_sequence :: u64

record mai2_world =
  mw_devices :: "nat \<Rightarrow> mai2_device"
  mw_poll_page :: shared_page
  mw_input_mem :: "mai2_input_page memory"
  mw_output_mem :: "mai2_output_page memory"
  mw_poll_mem :: "mai2_poll_page memory"
  mw_callback :: "nat option"
  mw_led_probe :: "nat \<Rightarrow> led_probe_board"
  mw_led_start_latch :: "nat \<Rightarrow> u8 list"
  mw_keyboard :: keyboard_config
  mw_initialized :: bool
  mw_hist :: history

definition dev_of :: "nat \<Rightarrow> mai2_world \<Rightarrow> mai2_device" where
  "dev_of i w = mw_devices w i"

definition dev_update :: "nat \<Rightarrow> (mai2_device \<Rightarrow> mai2_device) \<Rightarrow> mai2_world \<Rightarrow> mai2_world" where
  "dev_update i f w = w\<lparr>mw_devices := (mw_devices w)(i := f (mw_devices w i))\<rparr>"

definition input_of :: "nat \<Rightarrow> mai2_world \<Rightarrow> mai2_input_page" where
  "input_of i w = mw_input_mem w (pg_view (dv_input_page (dev_of i w)))"

definition output_of :: "nat \<Rightarrow> mai2_world \<Rightarrow> mai2_output_page" where
  "output_of i w = mw_output_mem w (pg_view (dv_output_page (dev_of i w)))"

definition poll_of :: "mai2_world \<Rightarrow> mai2_poll_page" where
  "poll_of w = mw_poll_mem w (pg_view (mw_poll_page w))"

definition input_update :: "os \<Rightarrow> nat \<Rightarrow> (mai2_input_page \<Rightarrow> mai2_input_page) \<Rightarrow> mai2_world \<Rightarrow> mai2_world" where
  "input_update os i f w =
     (let (r, m, h) = page_update os (dv_input_page (dev_of i w)) (\<lambda>page. (f page, ())) (mw_input_mem w, mw_hist w)
      in w\<lparr>mw_input_mem := m, mw_hist := h\<rparr>)"

definition input_write :: "os \<Rightarrow> nat \<Rightarrow> mai2_input_page \<Rightarrow> mai2_world \<Rightarrow> mai2_world" where
  "input_write os i v w =
     (let (m, h) = page_write os (dv_input_page (dev_of i w)) v (mw_input_mem w, mw_hist w)
      in w\<lparr>mw_input_mem := m, mw_hist := h\<rparr>)"

definition input_read :: "os \<Rightarrow> nat \<Rightarrow> mai2_world \<Rightarrow> mai2_input_page \<times> mai2_world" where
  "input_read os i w =
     (let (v, m, h) = page_read os (dv_input_page (dev_of i w)) (mw_input_mem w, mw_hist w)
      in (v, w\<lparr>mw_input_mem := m, mw_hist := h\<rparr>))"

definition output_update :: "os \<Rightarrow> nat \<Rightarrow> (mai2_output_page \<Rightarrow> mai2_output_page) \<Rightarrow> mai2_world \<Rightarrow> mai2_world" where
  "output_update os i f w =
     (let (r, m, h) = page_update os (dv_output_page (dev_of i w)) (\<lambda>page. (f page, ())) (mw_output_mem w, mw_hist w)
      in w\<lparr>mw_output_mem := m, mw_hist := h\<rparr>)"

definition output_read :: "os \<Rightarrow> nat \<Rightarrow> mai2_world \<Rightarrow> mai2_output_page \<times> mai2_world" where
  "output_read os i w =
     (let (v, m, h) = page_read os (dv_output_page (dev_of i w)) (mw_output_mem w, mw_hist w)
      in (v, w\<lparr>mw_output_mem := m, mw_hist := h\<rparr>))"

definition w_tick :: "os \<Rightarrow> mai2_world \<Rightarrow> u64 \<times> mai2_world" where
  "w_tick os w = (let (now, h) = tick_ms os (mw_hist w) in (now, w\<lparr>mw_hist := h\<rparr>))"

definition w_sleep :: "nat \<Rightarrow> mai2_world \<Rightarrow> mai2_world" where
  "w_sleep ms w = w\<lparr>mw_hist := sleep_ms ms (mw_hist w)\<rparr>"

definition w_log :: "log_tag \<Rightarrow> rstr \<Rightarrow> mai2_world \<Rightarrow> mai2_world" where
  "w_log tag msg w = w\<lparr>mw_hist := log_event tag msg (mw_hist w)\<rparr>"

lemmas mai2_world_defs = dev_of_def dev_update_def input_of_def output_of_def poll_of_def
  input_update_def input_write_def input_read_def output_update_def output_read_def
  w_tick_def w_sleep_def w_log_def tick_ms_def page_defs

named_theorems mai2_simps \<open>what the accesses to the shared state do\<close>

lemma dev_simps [mai2_simps]:
  "dev_of i (dev_update j f w) = (if i = j then f (dev_of i w) else dev_of i w)"
  "dev_of i (input_update os j g w) = dev_of i w"
  "dev_of i (input_write os j p w) = dev_of i w"
  "dev_of i (snd (input_read os j w)) = dev_of i w"
  "dev_of i (output_update os j k w) = dev_of i w"
  "dev_of i (snd (output_read os j w)) = dev_of i w"
  "dev_of i (snd (w_tick os w)) = dev_of i w"
  "dev_of i (w_sleep ms w) = dev_of i w"
  "dev_of i (w_log tag msg w) = dev_of i w"
  by (auto simp: mai2_world_defs)

lemma input_simps [mai2_simps]:
  "input_of i (input_update os i g w) = g (input_of i w)"
  "input_of i (input_write os i p w) = p"
  "fst (input_read os i w) = input_of i w"
  "input_of i (snd (input_read os j w)) = input_of i w"
  "input_of i (output_update os j k w) = input_of i w"
  "input_of i (snd (output_read os j w)) = input_of i w"
  "input_of i (snd (w_tick os w)) = input_of i w"
  "input_of i (w_sleep ms w) = input_of i w"
  "input_of i (w_log tag msg w) = input_of i w"
  by (auto simp: mai2_world_defs)

lemma input_dev_simps [mai2_simps]:
  "dv_input_page (f (dev_of j w)) = dv_input_page (dev_of j w) \<Longrightarrow>
     input_of i (dev_update j f w) = input_of i w"
  by (auto simp: mai2_world_defs)

lemma output_simps [mai2_simps]:
  "output_of i (output_update os i k w) = k (output_of i w)"
  "fst (output_read os i w) = output_of i w"
  "output_of i (snd (output_read os j w)) = output_of i w"
  "output_of i (input_update os j g w) = output_of i w"
  "output_of i (input_write os j p w) = output_of i w"
  "output_of i (snd (input_read os j w)) = output_of i w"
  "output_of i (snd (w_tick os w)) = output_of i w"
  "output_of i (w_sleep ms w) = output_of i w"
  "output_of i (w_log tag msg w) = output_of i w"
  by (auto simp: mai2_world_defs)

lemma output_dev_simps [mai2_simps]:
  "dv_output_page (f (dev_of j w)) = dv_output_page (dev_of j w) \<Longrightarrow>
     output_of i (dev_update j f w) = output_of i w"
  by (auto simp: mai2_world_defs)

text \<open>Two devices whose pages are different views do not see each other's input.\<close>

lemma input_apart [mai2_simps]:
  assumes "pg_view (dv_input_page (dev_of i w)) \<noteq> pg_view (dv_input_page (dev_of j w))"
  shows "input_of i (input_update os j g w) = input_of i w"
    and "input_of i (input_write os j p w) = input_of i w"
  using assms by (auto simp: mai2_world_defs)

section \<open>Input frames\<close>

datatype touch_source = SerialSource | TouchHidSource | SyntheticSource

text \<open>The page update of \<open>apply_device_frame\<close>.\<close>

definition frame_update ::
  "u8 option \<Rightarrow> u8 option \<Rightarrow> u8 list option \<Rightarrow> mai2_input_page \<Rightarrow> mai2_input_page" where
  "frame_update buttons0 io_status touch page =
     (let page = page\<lparr>ip_connected := 1\<rparr>;
          page = (case buttons0 of Some b \<Rightarrow> page\<lparr>ip_buttons0 := b\<rparr> | None \<Rightarrow> page);
          page = (case io_status of Some s \<Rightarrow> page\<lparr>ip_io_status := s\<rparr> | None \<Rightarrow> page);
          page = (case touch of Some t \<Rightarrow> page\<lparr>ip_touch := t\<rparr> | None \<Rightarrow> page)
      in page\<lparr>ip_sequence := ip_sequence page + 1\<rparr>)"

definition count_touch :: "touch_source \<Rightarrow> mai2_device \<Rightarrow> mai2_device" where
  "count_touch src d =
     (let d = d\<lparr>dv_touch_frames := dv_touch_frames d + 1\<rparr>
      in case src of
           SerialSource \<Rightarrow> d\<lparr>dv_touch_serial_frames := dv_touch_serial_frames d + 1\<rparr>
         | TouchHidSource \<Rightarrow> d\<lparr>dv_touch_hid_frames := dv_touch_hid_frames d + 1\<rparr>
         | SyntheticSource \<Rightarrow> d)"

definition apply_device_frame ::
  "os \<Rightarrow> nat \<Rightarrow> u8 option \<Rightarrow> u8 option \<Rightarrow> u8 list option \<Rightarrow> touch_source \<Rightarrow> mai2_world \<Rightarrow> mai2_world" where
  "apply_device_frame os i buttons0 io_status touch src w =
     (let w = input_update os i (frame_update buttons0 io_status touch) w
      in if touch \<noteq> None then
           let w = dev_update i (count_touch src) w;
               (now, w) = w_tick os w
           in dev_update i (\<lambda>d. d\<lparr>dv_touch_last_update_ms := now\<rparr>) w
         else w)"

text \<open>What the threads do with a parsed frame: buttons count only while no button HID is connected.\<close>

definition apply_parsed_touch ::
  "os \<Rightarrow> nat \<Rightarrow> u8 option \<Rightarrow> u8 option \<Rightarrow> u8 list option \<Rightarrow> touch_source \<Rightarrow> mai2_world \<Rightarrow> mai2_world" where
  "apply_parsed_touch os i buttons0 io_status touch src w =
     (let use_buttons = (\<not> dv_hid_connected (dev_of i w))
      in apply_device_frame os i (if use_buttons then buttons0 else None)
           (if use_buttons then io_status else None) touch src w)"

section \<open>Sources that go away\<close>

definition clear_update :: "bool \<Rightarrow> bool \<Rightarrow> mai2_input_page \<Rightarrow> mai2_input_page" where
  "clear_update buttons_live touch_live page =
     (let (page, changed) =
        (if \<not> buttons_live \<and> (ip_buttons0 page \<noteq> 0 \<or> ip_io_status page \<noteq> 0)
         then (page\<lparr>ip_buttons0 := 0, ip_io_status := 0\<rparr>, True) else (page, False));
          (page, changed) =
        (if \<not> touch_live \<and> ip_touch page \<noteq> replicate 7 0
         then (page\<lparr>ip_touch := replicate 7 0\<rparr>, True) else (page, changed))
      in if changed then page\<lparr>ip_sequence := ip_sequence page + 1\<rparr> else page)"

definition clear_inputs_on_source_drop :: "os \<Rightarrow> nat \<Rightarrow> mai2_world \<Rightarrow> mai2_world" where
  "clear_inputs_on_source_drop os i w =
     (let d = dev_of i w;
          buttons_live = (dv_hid_connected d \<or> dv_vendor_connected d);
          touch_live = (dv_touch_hid_connected d \<or> dv_vendor_connected d)
      in if buttons_live \<and> touch_live then w
         else input_update os i (clear_update buttons_live touch_live) w)"

definition mark_input_connected :: "mai2_input_page \<Rightarrow> mai2_input_page" where
  "mark_input_connected page = page\<lparr>ip_connected := 1, ip_sequence := ip_sequence page + 1\<rparr>"

section \<open>Serial sessions\<close>

record serial_session =
  ss_port :: serial_port
  ss_active :: bool
  ss_reader_failed :: bool
  ss_board_info_pending :: bool
  ss_board_info_logged :: bool

definition session_new :: "serial_port \<Rightarrow> serial_session" where
  "session_new port = \<lparr>ss_port = port, ss_active = True, ss_reader_failed = False,
     ss_board_info_pending = True, ss_board_info_logged = False\<rparr>"

definition session_is_active :: "serial_session \<Rightarrow> bool" where
  "session_is_active s \<longleftrightarrow> ss_active s \<and> \<not> ss_reader_failed s"

definition session_read ::
  "os \<Rightarrow> nat \<Rightarrow> serial_session \<Rightarrow> history \<Rightarrow> u8 list option \<times> serial_session \<times> history" where
  "session_read os cap s h =
     (if \<not> ss_active s then (Some [], s, h)
      else let (r, p, h) = sp_read os cap (ss_port s) h in (r, s\<lparr>ss_port := p\<rparr>, h))"

definition session_write_frame ::
  "os \<Rightarrow> u8 \<Rightarrow> u8 list \<Rightarrow> serial_session \<Rightarrow> history \<Rightarrow> bool \<times> serial_session \<times> history" where
  "session_write_frame os cmd payload s h =
     (if \<not> ss_active s then (False, s, h)
      else let (ok, p, h) = sp_write os (mai2_frame cmd payload) (ss_port s) h in (ok, s\<lparr>ss_port := p\<rparr>, h))"

definition session_close :: "serial_session \<Rightarrow> history \<Rightarrow> serial_session \<times> history" where
  "session_close s h =
     (let s = s\<lparr>ss_active := False\<rparr>; (p, h) = sp_close (ss_port s) h in (s\<lparr>ss_port := p\<rparr>, h))"

text \<open>
  \<open>disconnect_session\<close>: closes the session, joins its reader thread, and drops the last references,
  which closes the port's events.  A session and its reader are created and joined together, so one
  \<open>option\<close> stands for both.
\<close>

definition disconnect_session ::
  "os \<Rightarrow> nat \<Rightarrow> serial_session option \<Rightarrow> mai2_world \<Rightarrow> serial_session option \<times> mai2_world" where
  "disconnect_session os i session w =
     (let w = (case session of
          None \<Rightarrow> w
        | Some s \<Rightarrow>
            (let (s, h) = session_close s (mw_hist w);
                 h = h @ [EvJoin];
                 (p, h) = sp_drop (ss_port s) h
             in w\<lparr>mw_hist := h\<rparr>));
          d = dev_of i w
      in if dv_vendor_connected d \<or> dv_touch_hid_connected d \<or> dv_hid_connected d
         then (None, input_update os i mark_input_connected w)
         else (None, input_write os i mai2_input_default w))"

definition touch_serial_age_ms :: "mai2_device \<Rightarrow> u64 \<Rightarrow> u64 \<Rightarrow> u64 option" where
  "touch_serial_age_ms d now connected_since_ms =
     (let last_update_ms = dv_touch_last_update_ms d
      in if last_update_ms \<noteq> 0 then Some (saturating_sub now last_update_ms)
         else if connected_since_ms \<noteq> 0 then Some (saturating_sub now connected_since_ms)
         else None)"

section \<open>HID interfaces\<close>

definition find_hid_path :: "hid_info list \<Rightarrow> u16 \<Rightarrow> u16 \<Rightarrow> u16 \<Rightarrow> u16 \<Rightarrow> rstr option" where
  "find_hid_path devices vid pid usage_page usage =
     map_option hi_path (List.find (\<lambda>info. hi_vendor_id info = vid \<and> hi_product_id info = pid
       \<and> hi_usage_page info = usage_page \<and> hi_usage info = usage) devices)"

definition hid_interface_present :: "os \<Rightarrow> u16 \<Rightarrow> u16 \<Rightarrow> u16 \<Rightarrow> history \<Rightarrow> bool \<times> history" where
  "hid_interface_present os pid usage_page usage h =
     (let ok = os_hid_new os h; h = h @ [EvHidNew ok]
      in if \<not> ok then (False, h)
         else (find_hid_path (os_hid_devices os h) AFFINE_VID pid usage_page usage \<noteq> None, h))"

text \<open>\<open>send_hid_frame\<close> on the device that was opened under \<open>path\<close>.\<close>

definition send_hid_frame :: "os \<Rightarrow> rstr \<Rightarrow> u8 \<Rightarrow> u8 list \<Rightarrow> history \<Rightarrow> bool \<times> history" where
  "send_hid_frame os path cmd payload h =
     (case hid_frame_report cmd payload of
        None \<Rightarrow> (False, h)
      | Some report \<Rightarrow>
          (let written = os_hid_write os h path report
           in (case written of None \<Rightarrow> False | Some n \<Rightarrow> n \<noteq> 0, h @ [EvHidWrite path report])))"

definition key_down :: "os \<Rightarrow> u16 \<Rightarrow> history \<Rightarrow> bool \<times> history" where
  "key_down os vk h =
     (if vk = 0 then (False, h)
      else (os_key_state os h vk AND 0x8000 \<noteq> 0, h @ [EvKeyState vk]))"

section \<open>What the shared functions do to the input page\<close>

lemma apply_device_frame_input [mai2_simps]:
  "input_of i (apply_device_frame os i b s t src w) = frame_update b s t (input_of i w)"
  by (cases src) (simp_all add: apply_device_frame_def Let_def split_beta mai2_simps count_touch_def)

lemma apply_device_frame_flags [mai2_simps]:
  "dv_hid_connected (dev_of j (apply_device_frame os i b s t src w)) = dv_hid_connected (dev_of j w)"
  "dv_vendor_connected (dev_of j (apply_device_frame os i b s t src w)) = dv_vendor_connected (dev_of j w)"
  "dv_touch_hid_connected (dev_of j (apply_device_frame os i b s t src w)) = dv_touch_hid_connected (dev_of j w)"
  "dv_enabled (dev_of j (apply_device_frame os i b s t src w)) = dv_enabled (dev_of j w)"
  by (simp_all add: apply_device_frame_def Let_def split_beta mai2_simps count_touch_def
      split: touch_source.splits)

lemma clear_inputs_input:
  "input_of i (clear_inputs_on_source_drop os i w) =
     (let d = dev_of i w; buttons_live = (dv_hid_connected d \<or> dv_vendor_connected d);
          touch_live = (dv_touch_hid_connected d \<or> dv_vendor_connected d)
      in if buttons_live \<and> touch_live then input_of i w
         else clear_update buttons_live touch_live (input_of i w))"
  by (simp add: clear_inputs_on_source_drop_def Let_def mai2_simps)

lemma clear_update_fields:
  "ip_buttons0 (clear_update bs ts page) = (if bs then ip_buttons0 page else 0)"
  "ip_io_status (clear_update bs ts page) = (if bs then ip_io_status page else 0)"
  "ip_touch (clear_update bs ts page) = (if ts then ip_touch page else replicate 7 0)"
  "ip_connected (clear_update bs ts page) = ip_connected page"
  by (auto simp: clear_update_def Let_def)

lemma disconnect_session_input:
  "fst (disconnect_session os i s w) = None"
  "input_of i (snd (disconnect_session os i s w)) =
     (if dv_vendor_connected (dev_of i w) \<or> dv_touch_hid_connected (dev_of i w) \<or> dv_hid_connected (dev_of i w)
      then mark_input_connected (input_of i w) else mai2_input_default)"
  by (auto simp: disconnect_session_def Let_def mai2_simps split_beta dev_of_def input_of_def
      split: option.splits; simp add: mai2_world_defs split_beta)+

section \<open>Properties\<close>

text \<open>
  When a HID source goes away, exactly the inputs that no live HID source provides are zeroed:
  buttons are kept while the button HID or the vendor stream lives, touch while the touch HID or
  the vendor stream does, the page stays marked as connected, and the sequence number moves
  exactly when a value changed.
\<close>

theorem mai2_source_drop_clears:
  "(let d = dev_of i w; page = input_of i w;
        page' = input_of i (clear_inputs_on_source_drop os i w);
        buttons_live = (dv_hid_connected d \<or> dv_vendor_connected d);
        touch_live = (dv_touch_hid_connected d \<or> dv_vendor_connected d)
    in ip_buttons0 page' = (if buttons_live then ip_buttons0 page else 0) \<and>
       ip_io_status page' = (if buttons_live then ip_io_status page else 0) \<and>
       ip_touch page' = (if touch_live then ip_touch page else replicate 7 0) \<and>
       ip_connected page' = ip_connected page \<and>
       ip_sequence page' = (if (ip_buttons0 page', ip_io_status page', ip_touch page') =
           (ip_buttons0 page, ip_io_status page, ip_touch page)
         then ip_sequence page else ip_sequence page + 1))"
  by (auto simp: clear_inputs_input clear_update_def Let_def)

end
