(* ===== verification/Mai2_Runtime.thy ===== *)
theory Mai2_Runtime
  imports Mai2_Device
begin

unbundle bit_operations_syntax

text \<open>
  The game's side of \<open>crates/affine-mai2/src/lib.rs\<close>: creating the runtime from the configuration,
  \<open>init\<close>, the input poll with its edge-triggered coin, and the LED calls that fill the output pages.
\<close>

section \<open>Creation\<close>

definition MAI2_INPUT_MAPPING_NAMES :: "string list" where
  "MAI2_INPUT_MAPPING_NAMES = [''mai_io_shm_1'', ''mai_io_shm_2'']"
definition MAI2_INPUT_MUTEX_NAMES :: "string list" where
  "MAI2_INPUT_MUTEX_NAMES = [''mai_io_shm_1_mutex'', ''mai_io_shm_2_mutex'']"
definition MAI2_OUTPUT_MAPPING_NAMES :: "string list" where
  "MAI2_OUTPUT_MAPPING_NAMES = [''mai_io_ctrl_1'', ''mai_io_ctrl_2'']"
definition MAI2_OUTPUT_MUTEX_NAMES :: "string list" where
  "MAI2_OUTPUT_MUTEX_NAMES = [''mai_io_ctrl_1_mutex'', ''mai_io_ctrl_2_mutex'']"

text \<open>\<open>DeviceHandle::new\<close>; \<open>None\<close> is the panic of a failed \<open>expect\<close>.\<close>

definition device_handle_new ::
  "os \<Rightarrow> u8 \<Rightarrow> u16 \<Rightarrow> bool \<Rightarrow> bool \<Rightarrow> nat \<Rightarrow>
     mai2_input_page memory \<times> mai2_output_page memory \<times> history \<Rightarrow>
     (mai2_device \<times> mai2_input_page memory \<times> mai2_output_page memory \<times> history) option" where
  "device_handle_new os player pid enabled diag index s =
     (let (im, om, h) = s in
      case page_create os (lit (MAI2_INPUT_MAPPING_NAMES ! index)) (lit (MAI2_INPUT_MUTEX_NAMES ! index))
             mai2_input_default (im, h) of
        (None, im, h) \<Rightarrow> None
      | (Some input_page, im, h) \<Rightarrow>
          (case page_create os (lit (MAI2_OUTPUT_MAPPING_NAMES ! index)) (lit (MAI2_OUTPUT_MUTEX_NAMES ! index))
                  mai2_output_default (om, h) of
             (None, om, h) \<Rightarrow> None
           | (Some output_page, om, h) \<Rightarrow>
               (let (r, om, h) = page_update os output_page
                      (\<lambda>page. (page\<lparr>op_touch_enabled := (if enabled then 1 else 0)\<rparr>, ())) (om, h)
                in Some (\<lparr>dv_player = player, dv_pid = pid, dv_diag = diag, dv_enabled = enabled,
                     dv_hid_connected = False, dv_vendor_connected = False, dv_touch_hid_connected = False,
                     dv_touch_frames = 0, dv_touch_serial_frames = 0, dv_touch_hid_frames = 0,
                     dv_touch_callback_frames = 0, dv_touch_last_update_ms = 0, dv_heartbeat_writes = 0,
                     dv_heartbeat_failures = 0, dv_led_writes = 0, dv_led_button_writes = 0,
                     dv_led_billboard_writes = 0, dv_led_pwm_writes = 0, dv_led_failures = 0,
                     dv_led_suspended = False, dv_serial_reconnects = 0, dv_vendor_reconnects = 0,
                     dv_input_page = input_page, dv_output_page = output_page\<rparr>, im, om, h))))"

definition show_bit :: "bool \<Rightarrow> rstr" where
  "show_bit b = show_dec (if b then 1 else 0)"

definition led_probe_board_default :: led_probe_board where
  "led_probe_board_default = \<lparr>lp_has_last = False, lp_last_ms = 0, lp_last_payload = replicate 32 0,
     lp_has_last_zero = False, lp_last_zero_ms = 0, lp_last_zero_payload = replicate 32 0, lp_sequence = 0\<rparr>"

text \<open>\<open>Mai2Runtime::new\<close> for the contents of \<open>segatools.ini\<close> (\<open>None\<close>: it cannot be read).\<close>

definition keyboard_from_config :: "rstr option \<Rightarrow> keyboard_config" where
  "keyboard_from_config cfg =
     \<lparr>kb_vk_test = ucast (ini_get_u32 cfg (lit ''io4'') (lit ''test'') (ucast VK_F1)),
      kb_vk_service = ucast (ini_get_u32 cfg (lit ''io4'') (lit ''service'') (ucast VK_F2)),
      kb_vk_coin = ucast (ini_get_u32 cfg (lit ''io4'') (lit ''coin'') (ucast VK_F3))\<rparr>"

definition mai2_runtime_new ::
  "os \<Rightarrow> rstr option \<Rightarrow> mai2_input_page memory \<Rightarrow> mai2_output_page memory \<Rightarrow> mai2_poll_page memory \<Rightarrow>
     history \<Rightarrow> mai2_world option" where
  "mai2_runtime_new os cfg im om pm h =
     (let p1_enabled = ini_get_bool cfg (lit ''touch'') (lit ''p1Enable'') True;
          p2_enabled = ini_get_bool cfg (lit ''touch'') (lit ''p2Enable'') True;
          p1_diag = ini_get_bool cfg (lit ''touch'') (lit ''p1DebugInput'') False;
          p2_diag = ini_get_bool cfg (lit ''touch'') (lit ''p2DebugInput'') False;
          keyboard = keyboard_from_config cfg;
          h = log_event LogNone (lit ''Config: p1Enable='' @ show_bit p1_enabled @ lit '' p2Enable='' @
                show_bit p2_enabled @ lit '' p1DebugInput='' @ show_bit p1_diag @ lit '' p2DebugInput='' @
                show_bit p2_diag) h;
          h = log_event LogNone (lit ''Keyboard opbtn fallback: test=0x'' @ show_HEX 0 (unat (kb_vk_test keyboard)) @
                lit '' service=0x'' @ show_HEX 0 (unat (kb_vk_service keyboard)) @
                lit '' coin=0x'' @ show_HEX 0 (unat (kb_vk_coin keyboard))) h;
          h = (if AFFINE_LED_PROBE_ENABLED
               then log_event LogNone (lit ''Mai2IO LED probe enabled: logging changed led_gs_update RGBS frames'') h
               else h)
      in do {
        (p1, im, om, h) \<leftarrow> device_handle_new os 1 MAI2_PID_1P p1_enabled p1_diag 0 (im, om, h);
        (p2, im, om, h) \<leftarrow> device_handle_new os 2 MAI2_PID_2P p2_enabled p2_diag 1 (im, om, h);
        (case page_create os (lit ''mai_io_poll'') (lit ''mai_io_poll_mutex'') mai2_poll_default (pm, h) of
           (None, pm, h) \<Rightarrow> None
         | (Some poll_page, pm, h) \<Rightarrow>
             Some \<lparr>mw_devices = (\<lambda>i. if i = 0 then p1 else p2), mw_poll_page = poll_page,
               mw_input_mem = im, mw_output_mem = om, mw_poll_mem = pm, mw_callback = None,
               mw_led_probe = (\<lambda>_. led_probe_board_default), mw_led_start_latch = (\<lambda>_. replicate 24 0),
               mw_keyboard = keyboard, mw_initialized = False, mw_hist = h\<rparr>)
      })"

text \<open>\<open>init\<close> for the build version and the name of the running program.\<close>

definition spawn_device_threads :: "history \<Rightarrow> history" where
  "spawn_device_threads h =
     h @ [EvSpawn (lit ''vendor_command_thread''), EvSpawn (lit ''touch_hid_thread''),
          EvSpawn (lit ''device_thread''), EvSpawn (lit ''hid_thread''), EvSpawn (lit ''touch_callback_thread'')]"

definition mai2_init :: "rstr \<Rightarrow> rstr option \<Rightarrow> mai2_world \<Rightarrow> hresult \<times> mai2_world" where
  "mai2_init version exe_name w =
     (if mw_initialized w then (S_OK, w)
      else
        let w = w\<lparr>mw_initialized := True\<rparr>;
            h = log_event LogNone (lit ''Initializing...'') (mw_hist w);
            h = log_event LogNone (lit ''Affine IO Version: '' @ version) h;
            h = log_event LogNone (lit ''Mai2IO API Version: 1.02'') h;
            done_line = log_event LogNone (lit ''Initialization complete.'')
        in case exe_name of
             Some name \<Rightarrow>
               (let h = log_event LogNone (lit ''Running in '' @ name) h
                in if \<not> eq_ignore_ascii_case name (lit ''Sinmai.exe'')
                   then (S_OK, w\<lparr>mw_hist := done_line (log_event LogNone (lit ''Skipping device init for '' @ name) h)\<rparr>)
                   else (S_OK, w\<lparr>mw_hist := done_line (spawn_device_threads (spawn_device_threads h))\<rparr>))
           | None \<Rightarrow> (S_OK, w\<lparr>mw_hist := done_line (spawn_device_threads (spawn_device_threads h))\<rparr>))"

definition mai2_led_init :: "rstr \<Rightarrow> rstr option \<Rightarrow> mai2_world \<Rightarrow> hresult \<times> mai2_world" where
  "mai2_led_init version exe_name w = mai2_init version exe_name w"

section \<open>Polling\<close>

text \<open>\<open>if cond { opbtn |= m; }\<close>\<close>

definition or_when :: "bool \<Rightarrow> u8 \<Rightarrow> u8 \<Rightarrow> u8" where
  "or_when cond m x = (if cond then x OR m else x)"

text \<open>
  The update of the poll page for the two input pages and the three keys; the code asks for the keys
  inside the update, in this order.
\<close>

definition poll_update ::
  "mai2_input_page \<Rightarrow> mai2_input_page \<Rightarrow> bool \<Rightarrow> bool \<Rightarrow> bool \<Rightarrow> mai2_poll_page \<Rightarrow> mai2_poll_page" where
  "poll_update p1 p2 key_test key_service key_coin poll_state =
     (let opbtn = 0; player1_btn = 0; player2_btn = 0; coin_pressed = False;
          (player1_btn, opbtn, coin_pressed) =
            (if ip_connected p1 \<noteq> 0 then
               let player1_btn = map_buttons (ip_buttons0 p1) (ip_io_status p1);
                   opbtn = or_when (ip_io_status p1 AND push_bit MAI2_AFFINE_EXT_TEST_BIT 1 \<noteq> 0) MAI2_IO_OPBTN_TEST opbtn;
                   opbtn = or_when (ip_io_status p1 AND push_bit MAI2_AFFINE_EXT_SERVICE_BIT 1 \<noteq> 0) MAI2_IO_OPBTN_SERVICE opbtn;
                   coin_pressed = (if ip_io_status p1 AND push_bit MAI2_AFFINE_EXT_COIN_BIT 1 \<noteq> 0
                            then True else coin_pressed)
               in (player1_btn, opbtn, coin_pressed)
             else (player1_btn, opbtn, coin_pressed));
          (player2_btn, opbtn) =
            (if ip_connected p2 \<noteq> 0 then
               let player2_btn = map_buttons (ip_buttons0 p2) (ip_io_status p2);
                   opbtn = or_when (ip_io_status p2 AND push_bit MAI2_AFFINE_EXT_TEST_BIT 1 \<noteq> 0) MAI2_IO_OPBTN_TEST opbtn;
                   opbtn = or_when (ip_io_status p2 AND push_bit MAI2_AFFINE_EXT_SERVICE_BIT 1 \<noteq> 0) MAI2_IO_OPBTN_SERVICE opbtn
               in (player2_btn, opbtn)
             else (player2_btn, opbtn));
          opbtn = or_when key_test MAI2_IO_OPBTN_TEST opbtn;
          opbtn = or_when key_service MAI2_IO_OPBTN_SERVICE opbtn;
          coin_pressed = (if key_coin then True else coin_pressed);
          (affine_coin, opbtn) =
            (if coin_pressed then
               (if pp_affine_coin poll_state = 0 then (1, opbtn OR MAI2_IO_OPBTN_COIN)
                else (pp_affine_coin poll_state, opbtn))
             else (0, opbtn))
      in poll_state\<lparr>pp_affine_coin := affine_coin, pp_opbtn := opbtn, pp_player1_btn := player1_btn,
           pp_player2_btn := player2_btn, pp_sequence := pp_sequence poll_state + 1\<rparr>)"

definition poll_keys :: "os \<Rightarrow> keyboard_config \<Rightarrow> history \<Rightarrow> (bool \<times> bool \<times> bool) \<times> history" where
  "poll_keys os keyboard h =
     (let (key_test, h) = key_down os (kb_vk_test keyboard) h;
          (key_service, h) = key_down os (kb_vk_service keyboard) h;
          (key_coin, h) = key_down os (kb_vk_coin keyboard) h
      in ((key_test, key_service, key_coin), h))"

definition mai2_poll :: "os \<Rightarrow> mai2_world \<Rightarrow> hresult \<times> mai2_world" where
  "mai2_poll os w =
     (let (p1, w) = input_read os 0 w;
          (p2, w) = input_read os 1 w;
          h = page_lock os (mw_poll_page w) (mw_hist w);
          ((key_test, key_service, key_coin), h) = poll_keys os (mw_keyboard w) h;
          page = poll_update p1 p2 key_test key_service key_coin (poll_of w);
          h = page_unlock (mw_poll_page w) h
      in (S_OK, w\<lparr>mw_poll_mem := (mw_poll_mem w)(pg_view (mw_poll_page w) := page), mw_hist := h\<rparr>))"

definition poll_read :: "os \<Rightarrow> mai2_world \<Rightarrow> mai2_poll_page \<times> mai2_world" where
  "poll_read os w =
     (let (v, m, h) = page_read os (mw_poll_page w) (mw_poll_mem w, mw_hist w)
      in (v, w\<lparr>mw_poll_mem := m, mw_hist := h\<rparr>))"

definition mai2_get_opbtns :: "os \<Rightarrow> mai2_world \<Rightarrow> u8 \<times> mai2_world" where
  "mai2_get_opbtns os w = (let (page, w) = poll_read os w in (pp_opbtn page, w))"

definition mai2_get_gamebtns :: "os \<Rightarrow> mai2_world \<Rightarrow> (u16 \<times> u16) \<times> mai2_world" where
  "mai2_get_gamebtns os w = (let (page, w) = poll_read os w in ((pp_player1_btn page, pp_player2_btn page), w))"

section \<open>Touch and LED calls\<close>

definition mai2_set_touch_callback :: "nat option \<Rightarrow> mai2_world \<Rightarrow> mai2_world" where
  "mai2_set_touch_callback callback w =
     w\<lparr>mw_callback := callback, mw_hist := mw_hist w @ [EvCallbackLock, EvCallbackUnlock]\<rparr>"

definition mai2_set_touch_enabled :: "os \<Rightarrow> bool \<Rightarrow> bool \<Rightarrow> mai2_world \<Rightarrow> mai2_world" where
  "mai2_set_touch_enabled os player1 player2 w =
     (let w = output_update os 0 (\<lambda>page. page\<lparr>op_touch_enabled := (if player1 then 1 else 0)\<rparr>) w
      in output_update os 1 (\<lambda>page. page\<lparr>op_touch_enabled := (if player2 then 1 else 0)\<rparr>) w)"

definition publish_pwm :: "u8 list \<Rightarrow> mai2_output_page \<Rightarrow> mai2_output_page" where
  "publish_pwm rgb page =
     (if op_pwm page \<noteq> rgb then page\<lparr>op_pwm := rgb, op_pwm_sequence := op_pwm_sequence page + 1\<rparr> else page)"

definition publish_buttons :: "u8 list \<Rightarrow> mai2_output_page \<Rightarrow> mai2_output_page" where
  "publish_buttons payload page =
     (if op_buttons page \<noteq> payload
      then page\<lparr>op_buttons := payload, op_buttons_sequence := op_buttons_sequence page + 1\<rparr> else page)"

definition publish_billboard :: "u8 list \<Rightarrow> mai2_output_page \<Rightarrow> mai2_output_page" where
  "publish_billboard payload page =
     (if op_billboard page \<noteq> payload
      then page\<lparr>op_billboard := payload, op_billboard_sequence := op_billboard_sequence page + 1\<rparr> else page)"

definition mai2_led_set_fet_output :: "os \<Rightarrow> u8 \<Rightarrow> u8 list \<Rightarrow> mai2_world \<Rightarrow> mai2_world" where
  "mai2_led_set_fet_output os board rgb w =
     (if unat board < 2 then output_update os (unat board) (publish_pwm rgb) w else w)"

text \<open>
  The LED probe, a diagnostic behind the constant \<open>AFFINE_LED_PROBE_ENABLED\<close>: its two formatters and
  \<open>log_led_probe\<close>.
\<close>

definition show_dec_padded :: "nat \<Rightarrow> nat \<Rightarrow> rstr" where
  "show_dec_padded width n = replicate (width - length (show_dec n)) 48 @ show_dec n"

definition format_led_probe_rgbs :: "u8 list \<Rightarrow> rstr" where
  "format_led_probe_rgbs payload =
     concat (map (\<lambda>index. (if index \<noteq> 0 then lit '' '' else []) @ show_dec index @ lit '':'' @
       show_HEX 2 (unat (payload ! (index * 4))) @ show_HEX 2 (unat (payload ! (index * 4 + 1))) @
       show_HEX 2 (unat (payload ! (index * 4 + 2))) @ lit ''/s'' @
       show_HEX 2 (unat (payload ! (index * 4 + 3)))) [0..<8])"

definition format_led_probe_rgb :: "u8 list \<Rightarrow> rstr" where
  "format_led_probe_rgb payload =
     concat (map (\<lambda>index. (if index \<noteq> 0 then lit '' '' else []) @ show_dec index @ lit '':'' @
       show_HEX 2 (unat (payload ! (index * 4))) @ show_HEX 2 (unat (payload ! (index * 4 + 1))) @
       show_HEX 2 (unat (payload ! (index * 4 + 2)))) [0..<8])"

definition probe_detail :: "u64 \<Rightarrow> nat \<Rightarrow> led_probe_board \<Rightarrow> u8 list \<Rightarrow> rstr" where
  "probe_detail now board st payload =
     (let zero_count = length (filter (\<lambda>index. payload ! (index * 4 + 3) = 0) [0..<8]);
          fade_count = 8 - zero_count;
          dt = (if lp_has_last st then show_dec (unat (saturating_sub now (lp_last_ms st))) @ lit ''ms''
                else lit ''first'');
          zero_hint = (if fade_count > 0 then
              (if lp_has_last_zero st
               then lit '' last_zero_dt='' @ show_dec (unat (saturating_sub now (lp_last_zero_ms st))) @
                    lit ''ms last_zero=['' @ format_led_probe_rgb (lp_last_zero_payload st) @ lit '']''
               else lit '' last_zero=none'') else [])
      in lit ''P'' @ show_dec (board + 1) @ lit '' LedProbe#'' @ show_dec_padded 6 (unat (lp_sequence st)) @
         lit '' dt='' @ dt @ lit '' zero='' @ show_dec zero_count @ lit '' fade='' @ show_dec fade_count @
         lit '' rgbs=['' @ format_led_probe_rgbs payload @ lit '']'' @ zero_hint)"

definition log_led_probe :: "os \<Rightarrow> nat \<Rightarrow> u8 list \<Rightarrow> mai2_world \<Rightarrow> mai2_world" where
  "log_led_probe os board payload w =
     (if \<not> AFFINE_LED_PROBE_ENABLED then w
      else
        let (now, w) = w_tick os w; st = mw_led_probe w board
        in if lp_has_last st \<and> lp_last_payload st = payload then w
           else
             let st = st\<lparr>lp_sequence := lp_sequence st + 1\<rparr>;
                 w = w_log LogDiag (probe_detail now board st payload) w;
                 all_zero = (\<forall>index \<in> set [0..<8]. payload ! (index * 4 + 3) = 0);
                 st = (if all_zero
                       then st\<lparr>lp_has_last_zero := True, lp_last_zero_ms := now, lp_last_zero_payload := payload\<rparr>
                       else st);
                 st = st\<lparr>lp_has_last := True, lp_last_ms := now, lp_last_payload := payload\<rparr>
             in w\<lparr>mw_led_probe := (mw_led_probe w)(board := st)\<rparr>)"

text \<open>
  The loop of \<open>led_gs_update\<close> over the eight buttons, on the latch of the board: each button's record
  of start colour, target colour and speed, and the new latch.  \<open>None\<close> is an index out of range.
\<close>

definition gs_button :: "u8 list \<Rightarrow> nat \<Rightarrow> u8 list \<times> u8 list \<Rightarrow> (u8 list \<times> u8 list) option" where
  "gs_button rgbs i s =
     (let (payload, latch) = s;
          in_offset = i * 4; latch_offset = i * 3; out_offset = i * 7
      in do {
        t0 \<leftarrow> get_at rgbs in_offset;
        t1 \<leftarrow> get_at rgbs (in_offset + 1);
        t2 \<leftarrow> get_at rgbs (in_offset + 2);
        speed \<leftarrow> get_at rgbs (in_offset + 3);
        old \<leftarrow> slice latch latch_offset (latch_offset + 3);
        let target = [t0, t1, t2];
        let start = (if speed = 0 then target else old);
        if length payload < out_offset + 7 then None
        else Some (take out_offset payload @ start @ target @ [speed] @ drop (out_offset + 7) payload,
                   take latch_offset latch @ target @ drop (latch_offset + 3) latch)
      })"

fun gs_loop :: "u8 list \<Rightarrow> nat list \<Rightarrow> u8 list \<times> u8 list \<Rightarrow> (u8 list \<times> u8 list) option" where
  "gs_loop rgbs [] s = Some s"
| "gs_loop rgbs (i # is) s = do { s \<leftarrow> gs_button rgbs i s; gs_loop rgbs is s }"

definition gs_payload :: "u8 list \<Rightarrow> u8 list \<Rightarrow> (u8 list \<times> u8 list) option" where
  "gs_payload rgbs latch = gs_loop rgbs [0..<8] (replicate 56 0, latch)"

definition mai2_led_gs_update :: "os \<Rightarrow> u8 \<Rightarrow> u8 list \<Rightarrow> mai2_world \<Rightarrow> mai2_world option" where
  "mai2_led_gs_update os board rgb w =
     (if board > 1 \<or> length rgb < 32 then Some w
      else
        let board = unat board; rgbs = take 32 rgb;
            w = log_led_probe os board rgbs w
        in do {
          (payload, latch) \<leftarrow> gs_payload rgbs (mw_led_start_latch w board);
          let w = w\<lparr>mw_led_start_latch := (mw_led_start_latch w)(board := latch)\<rparr>;
          Some (output_update os board (publish_buttons payload) w)
        })"

definition mai2_led_billboard_set :: "os \<Rightarrow> u8 \<Rightarrow> u8 list \<Rightarrow> mai2_world \<Rightarrow> mai2_world" where
  "mai2_led_billboard_set os board rgb w =
     (if board > 1 \<or> length rgb < 3 then w
      else
        let payload = concat (replicate 8 [rgb ! 0, rgb ! 1, rgb ! 2])
        in output_update os (unat board) (publish_billboard payload) w)"

definition bench_inject_input :: "os \<Rightarrow> u8 \<Rightarrow> u8 \<Rightarrow> u8 \<Rightarrow> u8 list \<Rightarrow> mai2_world \<Rightarrow> mai2_world" where
  "bench_inject_input os player buttons0 buttons1 touch w =
     (let i = unat (saturating_sub player 1)
      in if i < 2 then apply_device_frame os i (Some buttons0) (Some buttons1) (Some touch) SyntheticSource w
         else w)"

section \<open>The poll page\<close>

text \<open>The keys as the poll at a state finds them, and whether it finds the coin pressed.\<close>

definition keys_at :: "os \<Rightarrow> mai2_world \<Rightarrow> bool \<times> bool \<times> bool" where
  "keys_at os w =
     fst (poll_keys os (mw_keyboard w)
       (page_lock os (mw_poll_page w) (mw_hist (snd (input_read os 1 (snd (input_read os 0 w)))))))"

definition coin_pressed :: "os \<Rightarrow> mai2_world \<Rightarrow> bool" where
  "coin_pressed os w \<longleftrightarrow> snd (snd (keys_at os w)) \<or>
     (ip_connected (input_of 0 w) \<noteq> 0 \<and> bit (ip_io_status (input_of 0 w)) 3)"

lemma and_exp_bit: "((x :: u8) AND push_bit k 1 \<noteq> 0) = bit x k"
  using and_exp_nonzero [of x k] by simp

lemma mai2_poll_page:
  "poll_of (snd (mai2_poll os w)) =
     poll_update (input_of 0 w) (input_of 1 w) (fst (keys_at os w)) (fst (snd (keys_at os w)))
       (snd (snd (keys_at os w))) (poll_of w)"
proof -
  have k: "mw_keyboard (snd (input_read os i v)) = mw_keyboard v"
    "mw_poll_page (snd (input_read os i v)) = mw_poll_page v"
    "poll_of (snd (input_read os i v)) = poll_of v" for i v
    by (auto simp: mai2_world_defs)
  show ?thesis
    by (simp add: mai2_poll_def keys_at_def split_beta Let_def mai2_simps k)
      (simp add: poll_of_def k)
qed

lemma opbtn_bits:
  "bit MAI2_IO_OPBTN_TEST n = (n = 0)" "bit MAI2_IO_OPBTN_SERVICE n = (n = 1)"
  "bit MAI2_IO_OPBTN_COIN n = (n = 2)"
proof -
  have e: "MAI2_IO_OPBTN_TEST = 2 ^ 0" "MAI2_IO_OPBTN_SERVICE = 2 ^ 1" "MAI2_IO_OPBTN_COIN = 2 ^ 2"
    by (simp_all add: MAI2_IO_OPBTN_TEST_def MAI2_IO_OPBTN_SERVICE_def MAI2_IO_OPBTN_COIN_def)
  show "bit MAI2_IO_OPBTN_TEST n = (n = 0)" "bit MAI2_IO_OPBTN_SERVICE n = (n = 1)"
    "bit MAI2_IO_OPBTN_COIN n = (n = 2)"
    unfolding e bit_exp_u8 by auto
qed

lemma bit_or_when: "bit (or_when c m x) n \<longleftrightarrow> bit x n \<or> (c \<and> bit m n)"
  by (auto simp: or_when_def bit_or_iff)

lemma and_ext_bits:
  "(x :: u8) AND 2 = 0 \<longleftrightarrow> \<not> bit x 1" "x AND 4 = 0 \<longleftrightarrow> \<not> bit x 2" "x AND 8 = 0 \<longleftrightarrow> \<not> bit x 3"
  using and_exp_nonzero [of x 1] and_exp_nonzero [of x 2] and_exp_nonzero [of x 3] by auto

lemma poll_update_fields:
  "pp_player1_btn (poll_update p1 p2 kt ks kc page) =
     (if ip_connected p1 \<noteq> 0 then map_buttons (ip_buttons0 p1) (ip_io_status p1) else 0)"
  "pp_player2_btn (poll_update p1 p2 kt ks kc page) =
     (if ip_connected p2 \<noteq> 0 then map_buttons (ip_buttons0 p2) (ip_io_status p2) else 0)"
  "pp_sequence (poll_update p1 p2 kt ks kc page) = pp_sequence page + 1"
  "(pp_affine_coin (poll_update p1 p2 kt ks kc page) \<noteq> 0) =
     (kc \<or> (ip_connected p1 \<noteq> 0 \<and> bit (ip_io_status p1) 3))"
  by (auto simp: poll_update_def Let_def and_ext_bits MAI2_AFFINE_EXT_COIN_BIT_def)

lemma poll_update_opbtn:
  "bit (pp_opbtn (poll_update p1 p2 kt ks kc page)) n \<longleftrightarrow>
     (n = 0 \<and> (kt \<or> (ip_connected p1 \<noteq> 0 \<and> bit (ip_io_status p1) 1) \<or>
                (ip_connected p2 \<noteq> 0 \<and> bit (ip_io_status p2) 1))) \<or>
     (n = 1 \<and> (ks \<or> (ip_connected p1 \<noteq> 0 \<and> bit (ip_io_status p1) 2) \<or>
                (ip_connected p2 \<noteq> 0 \<and> bit (ip_io_status p2) 2))) \<or>
     (n = 2 \<and> (kc \<or> (ip_connected p1 \<noteq> 0 \<and> bit (ip_io_status p1) 3)) \<and> pp_affine_coin page = 0)"
proof (cases "ip_connected p1 \<noteq> 0"; cases "ip_connected p2 \<noteq> 0")
qed (auto simp: poll_update_def Let_def and_ext_bits MAI2_AFFINE_EXT_TEST_BIT_def
      MAI2_AFFINE_EXT_SERVICE_BIT_def MAI2_AFFINE_EXT_COIN_BIT_def bit_or_iff bit_or_when opbtn_bits)

lemma opbtn_set:
  "{n :: nat. (n = 0 \<and> a) \<or> (n = 1 \<and> b) \<or> (n = 2 \<and> c)} =
     (if a then {0} else {}) \<union> (if b then {1} else {}) \<union> (if c then {2} else {})"
  by auto

section \<open>Fades\<close>

interpretation mai2_pwm: changing_publisher op_pwm_sequence op_pwm publish_pwm
  by unfold_locales (auto simp: publish_pwm_def)

interpretation mai2_buttons: changing_publisher op_buttons_sequence op_buttons publish_buttons
  by unfold_locales (auto simp: publish_buttons_def)

interpretation mai2_billboard: changing_publisher op_billboard_sequence op_billboard publish_billboard
  by unfold_locales (auto simp: publish_billboard_def)

text \<open>Button \<open>i\<close> of an RGBS frame: its target colour and speed; and the start colour a latch gives it.\<close>

definition gs_target :: "u8 list \<Rightarrow> nat \<Rightarrow> u8 list" where
  "gs_target rgbs i = [rgbs ! (i * 4), rgbs ! (i * 4 + 1), rgbs ! (i * 4 + 2)]"

definition gs_speed :: "u8 list \<Rightarrow> nat \<Rightarrow> u8" where
  "gs_speed rgbs i = rgbs ! (i * 4 + 3)"

definition gs_record :: "u8 list \<Rightarrow> u8 list \<Rightarrow> nat \<Rightarrow> u8 list" where
  "gs_record rgbs latch i =
     (if gs_speed rgbs i = 0 then gs_target rgbs i else take 3 (drop (i * 3) latch)) @
     gs_target rgbs i @ [gs_speed rgbs i]"

lemma length_concat_const: "(\<And>x. x \<in> set xs \<Longrightarrow> length (f x) = k) \<Longrightarrow> length (concat (map f xs)) = k * length xs"
  by (induction xs) auto

lemma gs_loop_from:
  assumes "length rgbs = 32" "length latch = 24" "k \<le> 8"
  shows "gs_loop rgbs [k..<8]
      (concat (map (gs_record rgbs latch) [0..<k]) @ replicate (56 - 7 * k) 0,
       concat (map (gs_target rgbs) [0..<k]) @ drop (3 * k) latch) =
    Some (concat (map (gs_record rgbs latch) [0..<8]), concat (map (gs_target rgbs) [0..<8]))"
  using assms(3)
proof (induction "8 - k" arbitrary: k)
  case 0
  then have "k = 8" by simp
  then show ?case using assms(2) by simp
next
  case (Suc n)
  let ?P = "concat (map (gs_record rgbs latch) [0..<k])" and ?L = "concat (map (gs_target rgbs) [0..<k])"
  have k: "k < 8" using Suc by simp
  have P: "length ?P = 7 * k"
    using assms k by (subst length_concat_const [where k = 7]) (auto simp: gs_record_def gs_target_def)
  have L: "length ?L = 3 * k"
    by (subst length_concat_const [where k = 3]) (auto simp: gs_target_def)
  have rep: "replicate (56 - 7 * k) (0 :: u8) = replicate 7 0 @ replicate (56 - 7 * Suc k) 0"
    using k by (simp add: replicate_add [symmetric])
  have split: "drop (3 * k) latch = take 3 (drop (3 * k) latch) @ drop (3 * Suc k) latch"
    using append_take_drop_id [of 3 "drop (3 * k) latch"] by (simp add: add.commute)
  have old: "slice (?L @ drop (3 * k) latch) (k * 3) (k * 3 + 3) = Some (take 3 (drop (k * 3) latch))"
    using L assms(2) k by (simp add: slice_def mult.commute)
  have "gs_button rgbs k (?P @ replicate (56 - 7 * k) 0, ?L @ drop (3 * k) latch) =
      Some (?P @ gs_record rgbs latch k @ replicate (56 - 7 * Suc k) 0,
            ?L @ gs_target rgbs k @ drop (3 * Suc k) latch)"
    using k assms P L old
    by (simp add: gs_button_def access_simps gs_record_def gs_target_def gs_speed_def rep mult.commute
        Let_def del: replicate.simps)
  then have "gs_loop rgbs [k..<8] (?P @ replicate (56 - 7 * k) 0, ?L @ drop (3 * k) latch) =
      gs_loop rgbs [Suc k..<8]
        (concat (map (gs_record rgbs latch) [0..<Suc k]) @ replicate (56 - 7 * Suc k) 0,
         concat (map (gs_target rgbs) [0..<Suc k]) @ drop (3 * Suc k) latch)"
    using k by (simp add: upt_conv_Cons)
  also have "\<dots> = Some (concat (map (gs_record rgbs latch) [0..<8]), concat (map (gs_target rgbs) [0..<8]))"
    using Suc k by (intro Suc.hyps(1)) auto
  finally show ?case .
qed

lemma gs_payload_records:
  assumes "length rgbs = 32" "length latch = 24"
  shows "gs_payload rgbs latch =
    Some (concat (map (gs_record rgbs latch) [0..<8]), concat (map (gs_target rgbs) [0..<8]))"
  using gs_loop_from [OF assms, of 0] by (simp add: gs_payload_def)

text \<open>What an LED call leaves in the output page and the latch.\<close>

lemma mai2_led_gs_update_effect:
  assumes "board \<le> 1" "32 \<le> length rgb" "length (mw_led_start_latch w (unat board)) = 24"
  defines "rgbs \<equiv> take 32 rgb" and "latch \<equiv> mw_led_start_latch w (unat board)"
  shows "\<exists>w'. mai2_led_gs_update os board rgb w = Some w' \<and>
    output_of (unat board) w' =
      publish_buttons (concat (map (gs_record rgbs latch) [0..<8])) (output_of (unat board) w) \<and>
    mw_led_start_latch w' = (mw_led_start_latch w)(unat board := concat (map (gs_target rgbs) [0..<8]))"
proof -
  have "length rgbs = 32" "length latch = 24" using assms by (simp_all add: rgbs_def latch_def)
  note gs = gs_payload_records [OF this]
  have latch: "mw_led_start_latch (output_update os i f v) = mw_led_start_latch v"
    "output_of i (v\<lparr>mw_led_start_latch := l\<rparr>) = output_of i v" for i f v l
    by (auto simp: mai2_world_defs)
  have guard: "(board > 1 \<or> length rgb < 32) = False" using assms(1,2) by auto
  show ?thesis
    unfolding mai2_led_gs_update_def guard
    by (simp add: log_led_probe_def AFFINE_LED_PROBE_ENABLED_def rgbs_def [symmetric]
        latch_def [symmetric] gs mai2_simps latch Let_def)
qed

lemma length_gs_targets: "length (concat (map (gs_target rgbs) [0..<8])) = 24"
  by (subst length_concat_const [where k = 3]) (auto simp: gs_target_def)

text \<open>Slices of a concatenation of equally long pieces.\<close>

lemma concat_piece:
  "(\<And>x. length (f x) = k) \<Longrightarrow> i < n \<Longrightarrow> take k (drop (i * k) (concat (map f [0..<n]))) = f i"
proof (induction i arbitrary: f n)
  case 0
  then obtain m where "n = Suc m" by (cases n) auto
  then show ?case using 0 by (simp add: upt_conv_Cons del: upt_Suc)
next
  case (Suc i)
  then obtain m where n: "n = Suc m" "i < m" by (cases n) auto
  have "map f [0..<Suc m] = f 0 # map (\<lambda>j. f (Suc j)) [0..<m]"
    by (simp add: upt_conv_Cons map_Suc_upt [symmetric] del: upt_Suc)
  then have "drop (Suc i * k) (concat (map f [0..<n])) = drop (i * k) (concat (map (\<lambda>j. f (Suc j)) [0..<m]))"
    using Suc.prems(1) by (simp add: n)
  then show ?case using Suc.IH [of "\<lambda>j. f (Suc j)" m] Suc.prems(1) n by simp
qed

lemma concat_nth:
  "(\<And>x. length (f x) = k) \<Longrightarrow> i < n \<Longrightarrow> j < k \<Longrightarrow> concat (map f [0..<n]) ! (i * k + j) = f i ! j"
proof -
  assume f: "\<And>x. length (f x) = k" and i: "i < n" and j: "j < k"
  let ?xs = "concat (map f [0..<n])"
  have len: "length ?xs = k * n" using length_concat_const [of "[0..<n]" f k] f by simp
  have "i * k + j < length ?xs"
    using i j by (simp add: len) (metis add.commute add_less_mono1 less_le_trans mult.commute mult_Suc mult_le_mono2 Suc_leI)
  then have "?xs ! (i * k + j) = drop (i * k) ?xs ! j" by simp
  also have "\<dots> = take k (drop (i * k) ?xs) ! j" using j by simp
  also have "take k (drop (i * k) ?xs) = f i" by (rule concat_piece [OF f i])
  finally show ?thesis .
qed

lemma button_rgb_of_records:
  assumes "length latch = 24"
  shows "button_rgb_payload (concat (map (gs_record rgbs latch) [0..<8])) = concat (map (gs_target rgbs) [0..<8])"
proof -
  define rec where "rec = (\<lambda>i. if i < 8 then gs_record rgbs latch i else replicate 7 0)"
  have len: "length (rec i) = 7" for i
    using assms by (auto simp: rec_def gs_record_def gs_target_def)
  have same: "map (gs_record rgbs latch) [0..<8] = map rec [0..<8]" by (simp add: rec_def)
  have start: "length (if gs_speed rgbs i = 0 then gs_target rgbs i else take 3 (drop (i * 3) latch)) = 3"
    if "i < 8" for i using that assms by (auto simp: gs_target_def)
  have target: "length (gs_target rgbs i) = 3" for i by (simp add: gs_target_def)
  have cell: "concat (map rec [0..<8]) ! (i * 7 + (3 + j)) = gs_target rgbs i ! j" if "i < 8" "j < 3" for i j
    using concat_nth [of rec 7 i 8 "3 + j"] len that start [of i] target
    by (simp add: rec_def gs_record_def nth_append)
  have "[concat (map rec [0..<8]) ! (i * 7 + 3), concat (map rec [0..<8]) ! (i * 7 + 4),
      concat (map rec [0..<8]) ! (i * 7 + 5)] = gs_target rgbs i" if "i < 8" for i
    using cell [OF that, of 0] cell [OF that, of 1] cell [OF that, of 2] by (simp add: gs_target_def)
  then have "map (\<lambda>i. [concat (map rec [0..<8]) ! (i * 7 + 3), concat (map rec [0..<8]) ! (i * 7 + 4),
      concat (map rec [0..<8]) ! (i * 7 + 5)]) [0..<8] = map (gs_target rgbs) [0..<8]"
    by (intro map_cong refl) simp
  then show ?thesis unfolding button_rgb_payload_def same by (simp only:)
qed

section \<open>Properties\<close>

text \<open>
  C11. The coin is a pulse: a poll reports the coin button exactly when it finds the coin source
  pressed (player 1's coin bit or the coin key) and the poll before it did not, whatever happened
  to inputs, devices and outputs in between; a held source is one credit.
\<close>

theorem mai2_coin_once_per_press:
  assumes "poll_of w1 = poll_of (snd (mai2_poll os w0))"
  shows "bit (pp_opbtn (poll_of (snd (mai2_poll os w1)))) 2 \<longleftrightarrow> coin_pressed os w1 \<and> \<not> coin_pressed os w0"
proof -
  have "(pp_affine_coin (poll_of w1) \<noteq> 0) = coin_pressed os w0"
    unfolding assms mai2_poll_page poll_update_fields(4) coin_pressed_def ..
  moreover have "bit (pp_opbtn (poll_of (snd (mai2_poll os w1)))) 2 \<longleftrightarrow>
      coin_pressed os w1 \<and> pp_affine_coin (poll_of w1) = 0"
    by (simp add: mai2_poll_page poll_update_opbtn coin_pressed_def)
  ultimately show ?thesis by blast
qed

definition mai2_demo_device :: "nat \<Rightarrow> mai2_device" where
  "mai2_demo_device n = \<lparr>dv_player = 1, dv_pid = MAI2_PID_1P, dv_diag = False, dv_enabled = True,
     dv_hid_connected = True, dv_vendor_connected = False, dv_touch_hid_connected = False,
     dv_touch_frames = 0, dv_touch_serial_frames = 0, dv_touch_hid_frames = 0,
     dv_touch_callback_frames = 0, dv_touch_last_update_ms = 0, dv_heartbeat_writes = 0,
     dv_heartbeat_failures = 0, dv_led_writes = 0, dv_led_button_writes = 0,
     dv_led_billboard_writes = 0, dv_led_pwm_writes = 0, dv_led_failures = 0,
     dv_led_suspended = False, dv_serial_reconnects = 0, dv_vendor_reconnects = 0,
     dv_input_page = \<lparr>pg_mapping = 30, pg_mutex = 31, pg_view = 1 + 2 * n\<rparr>,
     dv_output_page = \<lparr>pg_mapping = 32, pg_mutex = 33, pg_view = 2 + 2 * n\<rparr>\<rparr>"

text \<open>Player 1 holds the coin button and button 3.\<close>

definition mai2_demo_world :: mai2_world where
  "mai2_demo_world = \<lparr>mw_devices = mai2_demo_device,
     mw_poll_page = \<lparr>pg_mapping = 34, pg_mutex = 35, pg_view = 9\<rparr>,
     mw_input_mem = (\<lambda>a. if a = 1 then mai2_input_default\<lparr>ip_connected := 1, ip_io_status := 8, ip_buttons0 := 4\<rparr>
        else mai2_input_default),
     mw_output_mem = (\<lambda>_. mai2_output_default), mw_poll_mem = (\<lambda>_. mai2_poll_default), mw_callback = Some 7,
     mw_led_probe = (\<lambda>_. led_probe_board_default), mw_led_start_latch = (\<lambda>_. replicate 24 0),
     mw_keyboard = \<lparr>kb_vk_test = 0, kb_vk_service = 0, kb_vk_coin = 0\<rparr>, mw_initialized = True, mw_hist = []\<rparr>"

lemma mai2_demo_pages:
  "input_of 0 mai2_demo_world = mai2_input_default\<lparr>ip_connected := 1, ip_io_status := 8, ip_buttons0 := 4\<rparr>"
  "poll_of mai2_demo_world = mai2_poll_default"
  by (simp_all add: mai2_demo_world_def mai2_demo_device_def input_of_def dev_of_def poll_of_def)

lemma bit_8_3: "bit (8 :: u8) 3"
  using bit_exp_u8 [of 3 3] by simp

theorem mai2_coin_once_per_press_witness:
  "\<not> bit (pp_opbtn (poll_of (snd (mai2_poll willing_os (snd (mai2_poll willing_os mai2_demo_world)))))) 2"
proof -
  have "coin_pressed willing_os mai2_demo_world"
    by (simp add: coin_pressed_def mai2_demo_pages bit_8_3)
  then show ?thesis
    using mai2_coin_once_per_press [of "snd (mai2_poll willing_os mai2_demo_world)" willing_os mai2_demo_world, OF refl]
    by blast
qed

text \<open>
  The poll page is exactly what the two input pages and the keys say: test and service come from
  either player or the keyboard, the game buttons of a player are those of its page, a page that is
  not connected contributes nothing, no other operator bit is ever set, and the coin bit of player 2
  plays no part.
\<close>

theorem mai2_poll_reports_inputs:
  "(let p1 = input_of 0 w; p2 = input_of 1 w; (key_test, key_service, key_coin) = keys_at os w;
        page = poll_of (snd (mai2_poll os w));
        on = (\<lambda>p n. ip_connected p \<noteq> 0 \<and> bit (ip_io_status p) n)
    in {n. bit (pp_opbtn page) n} =
         (if key_test \<or> on p1 1 \<or> on p2 1 then {0} else {}) \<union>
         (if key_service \<or> on p1 2 \<or> on p2 2 then {1} else {}) \<union>
         (if (key_coin \<or> on p1 3) \<and> pp_affine_coin (poll_of w) = 0 then {2} else {}) \<and>
       pp_player1_btn page = (if ip_connected p1 \<noteq> 0 then map_buttons (ip_buttons0 p1) (ip_io_status p1) else 0) \<and>
       pp_player2_btn page = (if ip_connected p2 \<noteq> 0 then map_buttons (ip_buttons0 p2) (ip_io_status p2) else 0) \<and>
       pp_sequence page = pp_sequence (poll_of w) + 1)"
  unfolding Let_def split_beta mai2_poll_page poll_update_opbtn opbtn_set poll_update_fields by blast

text \<open>
  Fades start where the last frame ended: after two RGBS updates of a board, each button's record
  holds the second frame's target and speed, and as its start colour the second target when the
  speed is 0 and the first frame's target otherwise; the colours sent over the serial line are
  the second frame's targets.
\<close>

theorem mai2_fade_starts_at_last_target:
  assumes "board \<le> 1" and "32 \<le> length rgb1" and "32 \<le> length rgb2"
    and "length (mw_led_start_latch w (unat board)) = 24"
  shows "\<exists>w1 w2. mai2_led_gs_update os board rgb1 w = Some w1 \<and> mai2_led_gs_update os board rgb2 w1 = Some w2 \<and>
    op_buttons (output_of (unat board) w2) = concat (map (\<lambda>i.
      (if rgb2 ! (i * 4 + 3) = 0 then [rgb2 ! (i * 4), rgb2 ! (i * 4 + 1), rgb2 ! (i * 4 + 2)]
       else [rgb1 ! (i * 4), rgb1 ! (i * 4 + 1), rgb1 ! (i * 4 + 2)]) @
      [rgb2 ! (i * 4), rgb2 ! (i * 4 + 1), rgb2 ! (i * 4 + 2), rgb2 ! (i * 4 + 3)]) [0..<8]) \<and>
    button_rgb_payload (op_buttons (output_of (unat board) w2)) =
      concat (map (\<lambda>i. [rgb2 ! (i * 4), rgb2 ! (i * 4 + 1), rgb2 ! (i * 4 + 2)]) [0..<8])"
proof -
  let ?b = "unat board" and ?r1 = "take 32 rgb1" and ?r2 = "take 32 rgb2"
  let ?latch = "concat (map (gs_target ?r1) [0..<8])"
  obtain w1 where w1: "mai2_led_gs_update os board rgb1 w = Some w1" "mw_led_start_latch w1 ?b = ?latch"
    using mai2_led_gs_update_effect [OF assms(1,2,4), of os] by auto
  then have "length (mw_led_start_latch w1 ?b) = 24" by (simp add: length_gs_targets)
  from mai2_led_gs_update_effect [OF assms(1,3) this, of os] obtain w2 where
    w2: "mai2_led_gs_update os board rgb2 w1 = Some w2"
      "output_of ?b w2 = publish_buttons (concat (map (gs_record ?r2 ?latch) [0..<8])) (output_of ?b w1)"
    using w1(2) by auto
  have buttons: "op_buttons (output_of ?b w2) = concat (map (gs_record ?r2 ?latch) [0..<8])"
    by (simp add: w2(2) mai2_buttons.publish_payload)
  have target: "gs_target ?r2 i = [rgb2 ! (i * 4), rgb2 ! (i * 4 + 1), rgb2 ! (i * 4 + 2)]"
    "gs_target ?r1 i = [rgb1 ! (i * 4), rgb1 ! (i * 4 + 1), rgb1 ! (i * 4 + 2)]"
    "gs_speed ?r2 i = rgb2 ! (i * 4 + 3)" if "i < 8" for i
    using that by (simp_all add: gs_target_def gs_speed_def)
  have old: "take 3 (drop (i * 3) ?latch) = gs_target ?r1 i" if "i < 8" for i
    using concat_piece [of "gs_target ?r1" 3 i 8] that by (simp add: gs_target_def)
  have records: "map (gs_record ?r2 ?latch) [0..<8] = map (\<lambda>i.
      (if rgb2 ! (i * 4 + 3) = 0 then [rgb2 ! (i * 4), rgb2 ! (i * 4 + 1), rgb2 ! (i * 4 + 2)]
       else [rgb1 ! (i * 4), rgb1 ! (i * 4 + 1), rgb1 ! (i * 4 + 2)]) @
      [rgb2 ! (i * 4), rgb2 ! (i * 4 + 1), rgb2 ! (i * 4 + 2), rgb2 ! (i * 4 + 3)]) [0..<8]"
    by (intro map_cong refl) (simp add: gs_record_def target old)
  have targets: "map (gs_target ?r2) [0..<8] =
      map (\<lambda>i. [rgb2 ! (i * 4), rgb2 ! (i * 4 + 1), rgb2 ! (i * 4 + 2)]) [0..<8]"
    by (intro map_cong refl) (simp add: target)
  have rgb: "button_rgb_payload (op_buttons (output_of ?b w2)) =
      concat (map (\<lambda>i. [rgb2 ! (i * 4), rgb2 ! (i * 4 + 1), rgb2 ! (i * 4 + 2)]) [0..<8])"
    unfolding buttons button_rgb_of_records [OF length_gs_targets] targets ..
  show ?thesis
    using w1(1) w2(1) buttons [unfolded records] rgb by blast
qed

theorem mai2_fade_starts_at_last_target_witness:
  "\<exists>w1 w2. mai2_led_gs_update willing_os 1 (replicate 32 9) mai2_demo_world = Some w1 \<and>
     mai2_led_gs_update willing_os 1 (replicate 32 5) w1 = Some w2 \<and>
     op_buttons (output_of 1 w2) = concat (replicate 8 [9, 9, 9, 5, 5, 5, 5])"
proof -
  have "length (mw_led_start_latch mai2_demo_world (unat (1 :: u8))) = 24"
    by (simp add: mai2_demo_world_def)
  moreover have "concat (map (\<lambda>i.
      (if replicate 32 (5 :: u8) ! (i * 4 + 3) = 0
       then [replicate 32 (5 :: u8) ! (i * 4), replicate 32 (5 :: u8) ! (i * 4 + 1), replicate 32 (5 :: u8) ! (i * 4 + 2)]
       else [replicate 32 (9 :: u8) ! (i * 4), replicate 32 (9 :: u8) ! (i * 4 + 1), replicate 32 (9 :: u8) ! (i * 4 + 2)]) @
      [replicate 32 (5 :: u8) ! (i * 4), replicate 32 (5 :: u8) ! (i * 4 + 1), replicate 32 (5 :: u8) ! (i * 4 + 2),
       replicate 32 (5 :: u8) ! (i * 4 + 3)]) [0..<8]) = concat (replicate 8 [9, 9, 9, 5, 5, 5, 5 :: u8])"
    by code_simp
  ultimately show ?thesis
    using mai2_fade_starts_at_last_target [of 1 "replicate 32 9" "replicate 32 5" mai2_demo_world willing_os]
    by (metis (no_types, lifting) length_replicate order_refl unsigned_1)
qed

definition spawns :: "history \<Rightarrow> nat" where
  "spawns h = length (filter (\<lambda>e. case e of EvSpawn t \<Rightarrow> True | _ \<Rightarrow> False) h)"

fun mai2_inits :: "rstr \<Rightarrow> rstr option \<Rightarrow> nat \<Rightarrow> mai2_world \<Rightarrow> hresult list \<times> mai2_world" where
  "mai2_inits version exe 0 w = ([], w)"
| "mai2_inits version exe (Suc n) w =
     (let (r, w) = mai2_init version exe w; (rs, w) = mai2_inits version exe n w in (r # rs, w))"

lemma mai2_inits_again:
  "mw_initialized w \<Longrightarrow> mai2_inits version exe n w = (replicate n S_OK, w)"
  by (induction n) (auto simp: mai2_init_def)

text \<open>
  Device threads are started once and for the game only: over any number of \<open>init\<close> and
  \<open>led_init\<close> calls on a fresh runtime, ten threads are spawned if the program is \<open>Sinmai.exe\<close>, in any
  case, or its name is unknown, and none otherwise; every call answers \<open>S_OK\<close>.
\<close>

theorem mai2_init_spawns_once:
  "(let (rs, w') = mai2_inits version exe (Suc n) (w\<lparr>mw_initialized := False\<rparr>) in
     rs = replicate (Suc n) S_OK \<and>
     spawns (mw_hist w') = spawns (mw_hist w) +
       (if exe = None \<or> eq_ignore_ascii_case (the exe) (lit ''Sinmai.exe'') then 10 else 0))"
  by (auto simp: Let_def split_beta mai2_inits_again mai2_init_def log_event_def spawn_device_threads_def
      spawns_def split: option.splits)

end
