(* ===== verification/Mai2_Calls.thy ===== *)
theory Mai2_Calls
  imports Mai2_Runtime
begin

text \<open>
  The game's calls of the mai2 runtime as one datatype, and what sequences of them do to the output
  pages: the LED channels are publishers, so a device that watches the sequence numbers misses no
  change.
\<close>

datatype mai2_request =
    Mai2Init rstr "rstr option"
  | Mai2Poll
  | Mai2GetOpbtns
  | Mai2GetGamebtns
  | Mai2SetTouchCallback "nat option"
  | Mai2SetTouchEnabled bool bool
  | Mai2LedInit rstr "rstr option"
  | Mai2LedSetFet u8 "u8 list"
  | Mai2LedGsUpdate u8 "u8 list"
  | Mai2LedBillboard u8 "u8 list"

text \<open>\<open>None\<close> is a panic.\<close>

fun mai2_call :: "os \<Rightarrow> mai2_request \<Rightarrow> mai2_world \<Rightarrow> mai2_world option" where
  "mai2_call os (Mai2Init version exe) w = Some (snd (mai2_init version exe w))"
| "mai2_call os Mai2Poll w = Some (snd (mai2_poll os w))"
| "mai2_call os Mai2GetOpbtns w = Some (snd (mai2_get_opbtns os w))"
| "mai2_call os Mai2GetGamebtns w = Some (snd (mai2_get_gamebtns os w))"
| "mai2_call os (Mai2SetTouchCallback callback) w = Some (mai2_set_touch_callback callback w)"
| "mai2_call os (Mai2SetTouchEnabled player1 player2) w = Some (mai2_set_touch_enabled os player1 player2 w)"
| "mai2_call os (Mai2LedInit version exe) w = Some (snd (mai2_led_init version exe w))"
| "mai2_call os (Mai2LedSetFet board rgb) w = Some (mai2_led_set_fet_output os board rgb w)"
| "mai2_call os (Mai2LedGsUpdate board rgb) w = mai2_led_gs_update os board rgb w"
| "mai2_call os (Mai2LedBillboard board rgb) w = Some (mai2_led_billboard_set os board rgb w)"

fun mai2_calls :: "os \<Rightarrow> mai2_world \<Rightarrow> mai2_request list \<Rightarrow> mai2_world option" where
  "mai2_calls os w [] = Some w"
| "mai2_calls os w (c # cs) = do { w \<leftarrow> mai2_call os c w; mai2_calls os w cs }"

section \<open>What a call does to an output page\<close>

text \<open>Two boards may share a view as far as the model goes; then an update of one is one of the other.\<close>

lemma output_update_either:
  "output_of i (output_update os j f w) = output_of i w \<or>
   output_of i (output_update os j f w) = f (output_of i w)"
  by (auto simp: mai2_world_defs)

lemma mai2_reads_output [mai2_simps]:
  "output_of i (snd (mai2_poll os w)) = output_of i w"
  "output_of i (snd (mai2_get_opbtns os w)) = output_of i w"
  "output_of i (snd (mai2_get_gamebtns os w)) = output_of i w"
  "output_of i (mai2_set_touch_callback callback w) = output_of i w"
  "output_of i (snd (mai2_init version exe w)) = output_of i w"
  "output_of i (snd (mai2_led_init version exe w)) = output_of i w"
  by (auto simp: mai2_poll_def mai2_get_opbtns_def mai2_get_gamebtns_def poll_read_def
      mai2_set_touch_callback_def mai2_led_init_def mai2_init_def mai2_world_defs Let_def split_beta
      split: option.splits)

lemma gs_update_output:
  "mai2_led_gs_update os board rgb w = Some w' \<Longrightarrow>
     output_of i w' = output_of i w \<or> (\<exists>v. output_of i w' = publish_buttons v (output_of i w))"
proof -
  assume run: "mai2_led_gs_update os board rgb w = Some w'"
  have probe: "log_led_probe os b p w = w" for b p
    by (simp add: log_led_probe_def AFFINE_LED_PROBE_ENABLED_def)
  have latch: "output_of i (v\<lparr>mw_led_start_latch := l\<rparr>) = output_of i v" for v l
    by (auto simp: mai2_world_defs)
  show ?thesis
  proof (cases "board > 1 \<or> length rgb < 32")
    case True
    then show ?thesis using run by (simp add: mai2_led_gs_update_def)
  next
    case False
    then obtain p l where "gs_payload (take 32 rgb) (mw_led_start_latch w (unat board)) = Some (p, l)"
      "w' = output_update os (unat board) (publish_buttons p)
         (w\<lparr>mw_led_start_latch := (mw_led_start_latch w)(unat board := l)\<rparr>)"
      using run by (auto simp: mai2_led_gs_update_def probe Let_def split: bind_splits)
    then show ?thesis
      using output_update_either [of i os "unat board" "publish_buttons p"
          "w\<lparr>mw_led_start_latch := (mw_led_start_latch w)(unat board := l)\<rparr>"]
      by (auto simp: latch)
  qed
qed

text \<open>Every call leaves the page alone, publishes on one channel, or sets the touch switch.\<close>

lemma mai2_call_output:
  assumes "mai2_call os c w = Some w'"
  shows "output_of i w' = output_of i w \<or>
    (\<exists>v. output_of i w' = publish_buttons v (output_of i w)) \<or>
    (\<exists>v. output_of i w' = publish_billboard v (output_of i w)) \<or>
    (\<exists>v. output_of i w' = publish_pwm v (output_of i w)) \<or>
    (\<exists>b. output_of i w' = (output_of i w)\<lparr>op_touch_enabled := b\<rparr>)"
proof (cases c)
  case (Mai2LedGsUpdate board rgb)
  then show ?thesis using gs_update_output [of os board rgb w w' i] assms by auto
next
  case (Mai2LedBillboard board rgb)
  then show ?thesis using assms
      output_update_either [of i os "unat board" "publish_billboard (concat (replicate 8 [rgb ! 0, rgb ! 1, rgb ! 2]))" w]
    by (auto simp: mai2_led_billboard_set_def Let_def split: if_splits)
next
  case (Mai2LedSetFet board rgb)
  then show ?thesis using assms output_update_either [of i os "unat board" "publish_pwm rgb" w]
    by (auto simp: mai2_led_set_fet_output_def split: if_splits)
next
  case (Mai2SetTouchEnabled p1 p2)
  let ?f = "\<lambda>p page. page\<lparr>op_touch_enabled := (if p then 1 else 0 :: u8)\<rparr>"
  let ?w1 = "output_update os 0 (?f p1) w"
  have "w' = output_update os 1 (?f p2) ?w1"
    using assms Mai2SetTouchEnabled by (simp add: mai2_set_touch_enabled_def)
  moreover have "\<exists>b. output_of i ?w1 = (output_of i w)\<lparr>op_touch_enabled := b\<rparr>"
    using output_update_either [of i os 0 "?f p1" w]
    by (metis (no_types, lifting) mai2_output_page.surjective mai2_output_page.update_convs(1))
  moreover have "output_of i w' = output_of i ?w1 \<or> output_of i w' = ?f p2 (output_of i ?w1)"
    using output_update_either [of i os 1 "?f p2" ?w1] calculation(1) by simp
  ultimately show ?thesis by auto
qed (use assms in \<open>auto simp: mai2_simps\<close>)

text \<open>A channel of the output page of board \<open>i\<close> takes another value at some point of the calls.\<close>

definition changed_during ::
  "os \<Rightarrow> nat \<Rightarrow> (mai2_output_page \<Rightarrow> 'v) \<Rightarrow> mai2_request list \<Rightarrow> mai2_world \<Rightarrow> bool" where
  "changed_during os i channel cs w =
     ever_differs (mai2_call os) (\<lambda>w. channel (output_of i w)) (channel (output_of i w)) cs w"

lemma mai2_calls_channels:
  assumes "mai2_calls os w cs = Some w'" "length cs < 2 ^ 64"
  shows "op_buttons_sequence (output_of i w') \<noteq> op_buttons_sequence (output_of i w) \<longleftrightarrow>
      changed_during os i op_buttons cs w"
    and "op_billboard_sequence (output_of i w') \<noteq> op_billboard_sequence (output_of i w) \<longleftrightarrow>
      changed_during os i op_billboard cs w"
    and "op_pwm_sequence (output_of i w') \<noteq> op_pwm_sequence (output_of i w) \<longleftrightarrow>
      changed_during os i op_pwm cs w"
proof -
  have "\<forall>c w w'. mai2_call os c w = Some w' \<longrightarrow>
      (op_buttons_sequence (output_of i w'), op_buttons (output_of i w')) =
        (op_buttons_sequence (output_of i w), op_buttons (output_of i w)) \<or>
      (\<exists>v. (op_buttons_sequence (output_of i w'), op_buttons (output_of i w')) =
        (op_buttons_sequence (publish_buttons v (output_of i w)), op_buttons (publish_buttons v (output_of i w))))"
    using mai2_call_output [of os _ _ _ i] by (fastforce simp: publish_billboard_def publish_pwm_def)
  from mai2_buttons.run_noticed [of "mai2_call os" "output_of i" "mai2_calls os", OF this assms(1) _ _ assms(2)]
  show "op_buttons_sequence (output_of i w') \<noteq> op_buttons_sequence (output_of i w) \<longleftrightarrow>
      changed_during os i op_buttons cs w" by (simp add: changed_during_def)
  have "\<forall>c w w'. mai2_call os c w = Some w' \<longrightarrow>
      (op_billboard_sequence (output_of i w'), op_billboard (output_of i w')) =
        (op_billboard_sequence (output_of i w), op_billboard (output_of i w)) \<or>
      (\<exists>v. (op_billboard_sequence (output_of i w'), op_billboard (output_of i w')) =
        (op_billboard_sequence (publish_billboard v (output_of i w)), op_billboard (publish_billboard v (output_of i w))))"
    using mai2_call_output [of os _ _ _ i] by (fastforce simp: publish_buttons_def publish_pwm_def)
  from mai2_billboard.run_noticed [of "mai2_call os" "output_of i" "mai2_calls os", OF this assms(1) _ _ assms(2)]
  show "op_billboard_sequence (output_of i w') \<noteq> op_billboard_sequence (output_of i w) \<longleftrightarrow>
      changed_during os i op_billboard cs w" by (simp add: changed_during_def)
  have "\<forall>c w w'. mai2_call os c w = Some w' \<longrightarrow>
      (op_pwm_sequence (output_of i w'), op_pwm (output_of i w')) =
        (op_pwm_sequence (output_of i w), op_pwm (output_of i w)) \<or>
      (\<exists>v. (op_pwm_sequence (output_of i w'), op_pwm (output_of i w')) =
        (op_pwm_sequence (publish_pwm v (output_of i w)), op_pwm (publish_pwm v (output_of i w))))"
    using mai2_call_output [of os _ _ _ i] by (fastforce simp: publish_buttons_def publish_billboard_def)
  from mai2_pwm.run_noticed [of "mai2_call os" "output_of i" "mai2_calls os", OF this assms(1) _ _ assms(2)]
  show "op_pwm_sequence (output_of i w') \<noteq> op_pwm_sequence (output_of i w) \<longleftrightarrow>
      changed_during os i op_pwm cs w" by (simp add: changed_during_def)
qed

section \<open>Calls never panic\<close>

definition latch_ok :: "mai2_world \<Rightarrow> bool" where
  "latch_ok w \<longleftrightarrow> length (mw_led_start_latch w 0) = 24 \<and> length (mw_led_start_latch w 1) = 24"

lemma latch_simps [mai2_simps]:
  "mw_led_start_latch (dev_update j f w) = mw_led_start_latch w"
  "mw_led_start_latch (input_update os j g w) = mw_led_start_latch w"
  "mw_led_start_latch (input_write os j p w) = mw_led_start_latch w"
  "mw_led_start_latch (snd (input_read os j w)) = mw_led_start_latch w"
  "mw_led_start_latch (output_update os j h w) = mw_led_start_latch w"
  "mw_led_start_latch (snd (output_read os j w)) = mw_led_start_latch w"
  "mw_led_start_latch (snd (w_tick os w)) = mw_led_start_latch w"
  "mw_led_start_latch (w_sleep ms w) = mw_led_start_latch w"
  "mw_led_start_latch (w_log tag msg w) = mw_led_start_latch w"
  by (auto simp: mai2_world_defs split: prod.splits)

lemma mai2_call_latch:
  assumes "latch_ok w"
  shows "\<exists>w'. mai2_call os c w = Some w' \<and> latch_ok w'"
proof (cases c)
  case (Mai2LedGsUpdate board rgb)
  show ?thesis
  proof (cases "board > 1 \<or> length rgb < 32")
    case True
    then show ?thesis using assms Mai2LedGsUpdate by (simp add: mai2_led_gs_update_def)
  next
    case False
    then have b: "board \<le> 1" "32 \<le> length rgb" by auto
    then have "unat board \<le> unat (1 :: u8)" by (simp add: word_le_nat_alt)
    then have "unat board = 0 \<or> unat board = 1" by (simp add: le_Suc_eq)
    then have "length (mw_led_start_latch w (unat board)) = 24" using assms by (auto simp: latch_ok_def)
    from mai2_led_gs_update_effect [OF b this, of os] show ?thesis
      using assms Mai2LedGsUpdate by (auto simp: latch_ok_def length_gs_targets)
  qed
qed (use assms in \<open>auto simp: latch_ok_def mai2_simps mai2_poll_def mai2_get_opbtns_def mai2_get_gamebtns_def
      poll_read_def mai2_set_touch_callback_def mai2_led_init_def mai2_init_def mai2_set_touch_enabled_def
      mai2_led_set_fet_output_def mai2_led_billboard_set_def Let_def split_beta split: option.splits\<close>)

lemma mai2_calls_latch: "latch_ok w \<Longrightarrow> \<exists>w'. mai2_calls os w cs = Some w' \<and> latch_ok w'"
proof (induction cs arbitrary: w)
  case (Cons c cs)
  obtain w1 where "mai2_call os c w = Some w1" "latch_ok w1" using mai2_call_latch [OF Cons.prems] by blast
  with Cons.IH [of w1] show ?case by simp
qed simp

end
