(* ===== verification/Mai2_Serial_Threads.thy ===== *)
theory Mai2_Serial_Threads
  imports Mai2_Calls
begin

text \<open>
  The serial threads of \<open>crates/affine-mai2/src/lib.rs\<close>: \<open>device_thread\<close>, one iteration of its loop cut
  at its \<open>continue\<close> statements, and \<open>serial_reader_thread\<close>.
\<close>

section \<open>Iterations with early exits\<close>

text \<open>\<open>Go\<close>: the body goes on; \<open>Leave\<close>: it has left, by \<open>continue\<close> or \<open>break\<close>.\<close>

datatype 's flow = Go 's | Leave 's

fun and_then :: "'s flow \<Rightarrow> ('s \<Rightarrow> 's flow) \<Rightarrow> 's flow" where
  "and_then (Go s) f = f s"
| "and_then (Leave s) f = Leave s"

fun flow_state :: "'s flow \<Rightarrow> 's" where
  "flow_state (Go s) = s"
| "flow_state (Leave s) = s"

section \<open>The device thread\<close>

record device_locals =
  dl_session :: "serial_session option"
  dl_last_heartbeat :: u64
  dl_board_info_start_ms :: u64
  dl_board_info_request_ms :: u64
  dl_last_buttons_sequence :: u64
  dl_last_billboard_sequence :: u64
  dl_last_pwm_sequence :: u64
  dl_connected_since_ms :: u64
  dl_last_touch_frames :: u64
  dl_led_output_suspended :: bool
  dl_device_missing_logged :: bool
  dl_port_open_failed_logged :: bool
  dl_touch_stale_logged :: bool

definition device_locals_init :: "os \<Rightarrow> nat \<Rightarrow> mai2_world \<Rightarrow> device_locals \<times> mai2_world" where
  "device_locals_init os i w =
     (let (now, w) = w_tick os w
      in (\<lparr>dl_session = None, dl_last_heartbeat = now, dl_board_info_start_ms = 0,
           dl_board_info_request_ms = 0, dl_last_buttons_sequence = 0, dl_last_billboard_sequence = 0,
           dl_last_pwm_sequence = 0, dl_connected_since_ms = 0,
           dl_last_touch_frames = dv_touch_frames (dev_of i w), dl_led_output_suspended = False,
           dl_device_missing_logged = False, dl_port_open_failed_logged = False,
           dl_touch_stale_logged = False\<rparr>, w))"

type_synonym dt_state = "device_locals \<times> mai2_world"

definition player_label :: "nat \<Rightarrow> mai2_world \<Rightarrow> rstr" where
  "player_label i w = lit ''P'' @ show_dec (unat (dv_player (dev_of i w)))"

text \<open>\<open>disconnect_session(..); sleep_ms(AFFINE_RESCAN_INTERVAL_MS); continue\<close>.\<close>

definition dt_disconnect :: "os \<Rightarrow> nat \<Rightarrow> dt_state \<Rightarrow> dt_state" where
  "dt_disconnect os i s =
     (let (l, w) = s; (session, w) = disconnect_session os i (dl_session l) w
      in (l\<lparr>dl_session := session\<rparr>, w))"

definition dt_drop :: "os \<Rightarrow> nat \<Rightarrow> dt_state \<Rightarrow> dt_state flow" where
  "dt_drop os i s =
     (let (l, w) = dt_disconnect os i s in Leave (l, w_sleep AFFINE_RESCAN_INTERVAL_MS w))"

text \<open>The checks at the head of the loop: enabled, and no vendor HID interface.\<close>

definition dt_gate :: "os \<Rightarrow> nat \<Rightarrow> dt_state \<Rightarrow> dt_state flow" where
  "dt_gate os i s =
     (let (l, w) = s;
          stand_down = (\<lambda>s. let (l, w) = dt_disconnect os i s in
            Leave (l\<lparr>dl_device_missing_logged := False, dl_port_open_failed_logged := False\<rparr>,
                   w_sleep AFFINE_RESCAN_INTERVAL_MS w))
      in if \<not> dv_enabled (dev_of i w) then stand_down (l, w)
         else
           let (present, h) =
             (if dv_vendor_connected (dev_of i w) then (True, mw_hist w)
              else hid_interface_present os (dv_pid (dev_of i w)) MAI2_VENDOR_HID_USAGE_PAGE
                     MAI2_VENDOR_HID_USAGE (mw_hist w));
               w = w\<lparr>mw_hist := h\<rparr>
           in if present then stand_down (l, w) else Go (l, w))"

definition session_timeouts :: comm_timeouts where
  "session_timeouts = \<lparr>ReadIntervalTimeout = 1, ReadTotalTimeoutConstant = 1,
     ReadTotalTimeoutMultiplier = 0, WriteTotalTimeoutConstant = 50, WriteTotalTimeoutMultiplier = 5\<rparr>"

text \<open>The \<open>if session.is_none()\<close> block; \<open>None\<close> is an enumeration that does not end.\<close>

definition dt_connected :: "os \<Rightarrow> nat \<Rightarrow> rstr \<Rightarrow> serial_port \<Rightarrow> dt_state \<Rightarrow> dt_state flow" where
  "dt_connected os i path port s =
     (let (l, w) = s;
          w = w_log LogOk (lit ''Connected '' @ player_label i w @ lit '': '' @
                trim_start_matches device_prefix path) w;
          w = dev_update i (\<lambda>d. d\<lparr>dv_serial_reconnects := dv_serial_reconnects d + 1\<rparr>) w;
          (ok, h) = set_timeouts os session_timeouts port (mw_hist w);
          w = w\<lparr>mw_hist := h @ [EvSpawn (lit ''serial_reader_thread'')]\<rparr>;
          w = input_update os i mark_input_connected w;
          (t1, w) = w_tick os w;
          (t2, w) = w_tick os w;
          (t3, w) = w_tick os w
      in Go (l\<lparr>dl_session := Some (session_new port), dl_device_missing_logged := False,
           dl_port_open_failed_logged := False, dl_last_heartbeat := t1, dl_board_info_start_ms := t2,
           dl_board_info_request_ms := 0, dl_last_buttons_sequence := 0, dl_last_billboard_sequence := 0,
           dl_last_pwm_sequence := 0, dl_connected_since_ms := t3\<rparr>, w))"

definition dt_connect :: "os \<Rightarrow> nat \<Rightarrow> dt_state \<Rightarrow> dt_state flow option" where
  "dt_connect os i s =
     (let (l, w) = s in
      if dl_session l \<noteq> None then Some (Go (l, w))
      else do {
        (found, h) \<leftarrow> find_com_port os AFFINE_VID (dv_pid (dev_of i w)) (mw_hist w);
        let w = w\<lparr>mw_hist := h\<rparr>;
        (case found of
           None \<Rightarrow>
             (let w = (if \<not> dl_device_missing_logged l
                       then w_log LogWarn (player_label i w @ lit '': Device not found'') w else w)
              in Some (Leave (l\<lparr>dl_device_missing_logged := True, dl_port_open_failed_logged := False\<rparr>,
                              w_sleep AFFINE_RESCAN_INTERVAL_MS w)))
         | Some path \<Rightarrow>
             (let (ok, port, h) = sp_open os path 115200 serial_port_default (mw_hist w);
                  w = w\<lparr>mw_hist := h\<rparr>
              in if \<not> ok then
                   let w = (if \<not> dl_port_open_failed_logged l
                            then w_log LogWarn (player_label i w @ lit '': Failed to open port '' @ path) w else w);
                       w = w_sleep AFFINE_RESCAN_INTERVAL_MS w;
                       (port, h) = sp_drop port (mw_hist w)
                   in Some (Leave (l\<lparr>dl_port_open_failed_logged := True, dl_device_missing_logged := False\<rparr>,
                                   w\<lparr>mw_hist := h\<rparr>))
                 else Some (dt_connected os i path port (l, w))))
      })"

definition dt_alive :: "os \<Rightarrow> nat \<Rightarrow> dt_state \<Rightarrow> dt_state flow" where
  "dt_alive os i s =
     (case dl_session (fst s) of
        None \<Rightarrow> Leave (fst s, w_sleep AFFINE_RESCAN_INTERVAL_MS (snd s))
      | Some session \<Rightarrow> if \<not> session_is_active session then dt_drop os i s else Go s)"

text \<open>\<open>active_session.write_frame\<close>.\<close>

definition dt_send :: "os \<Rightarrow> u8 \<Rightarrow> u8 list \<Rightarrow> dt_state \<Rightarrow> bool \<times> dt_state" where
  "dt_send os cmd payload s =
     (let (l, w) = s in
      case dl_session l of
        None \<Rightarrow> (False, s)
      | Some session \<Rightarrow>
          (let (ok, session, h) = session_write_frame os cmd payload session (mw_hist w)
           in (ok, l\<lparr>dl_session := Some session\<rparr>, w\<lparr>mw_hist := h\<rparr>)))"

definition dt_heartbeat :: "os \<Rightarrow> nat \<Rightarrow> u64 \<Rightarrow> dt_state \<Rightarrow> dt_state flow" where
  "dt_heartbeat os i now s =
     (if saturating_sub now (dl_last_heartbeat (fst s)) \<ge> AFFINE_HEARTBEAT_INTERVAL_MS then
        let (ok, l, w) = dt_send os AFFINE_CMD_HEARTBEAT [] s
        in if \<not> ok then
             dt_drop os i (l, dev_update i (\<lambda>d. d\<lparr>dv_heartbeat_failures := dv_heartbeat_failures d + 1\<rparr>) w)
           else Go (l\<lparr>dl_last_heartbeat := now\<rparr>,
                    dev_update i (\<lambda>d. d\<lparr>dv_heartbeat_writes := dv_heartbeat_writes d + 1\<rparr>) w)
      else Go s)"

definition dt_board_info :: "os \<Rightarrow> nat \<Rightarrow> u64 \<Rightarrow> dt_state \<Rightarrow> dt_state flow" where
  "dt_board_info os i now s =
     (let (l, w) = s in
      case dl_session l of
        None \<Rightarrow> Go s
      | Some session \<Rightarrow>
          if \<not> ss_board_info_pending session then Go s
          else if dl_board_info_request_ms l = 0 \<and>
                  saturating_sub now (dl_board_info_start_ms l) \<ge> AFFINE_BOARD_INFO_DELAY_MS then
            let (ok, l, w) = dt_send os AFFINE_CMD_GET_BOARD_INFO [] s
            in if \<not> ok then dt_drop os i (l, w) else Go (l\<lparr>dl_board_info_request_ms := now\<rparr>, w)
          else if dl_board_info_request_ms l \<noteq> 0 \<and>
                  saturating_sub now (dl_board_info_request_ms l) \<ge> AFFINE_BOARD_INFO_TIMEOUT_MS then
            let (ok, l, w) = dt_send os AFFINE_CMD_GET_BOARD_INFO [] s
            in if \<not> ok then dt_drop os i (l, w)
               else
                 let l = l\<lparr>dl_board_info_request_ms := now\<rparr>
                 in if saturating_sub now (dl_board_info_start_ms l) > 3000 \<and> \<not> ss_board_info_logged session
                    then Go (l\<lparr>dl_session := map_option (\<lambda>ses. ses\<lparr>ss_board_info_pending := False,
                                 ss_board_info_logged := True\<rparr>) (dl_session l)\<rparr>,
                             w_log LogWarn (player_label i w @ lit '' Firmware: unknown'') w)
                    else Go (l, w)
          else Go s)"

text \<open>The watch over the touch stream, for the output page that was read.\<close>

definition touch_protect_active :: "mai2_output_page \<Rightarrow> u64 \<Rightarrow> u64 \<Rightarrow> bool" where
  "touch_protect_active output now connected_since_ms \<longleftrightarrow> op_touch_enabled output \<noteq> 0 \<and>
     connected_since_ms \<noteq> 0 \<and> saturating_sub now connected_since_ms \<ge> AFFINE_TOUCH_STALE_GRACE_MS"

definition older_than :: "u64 \<Rightarrow> u64 option \<Rightarrow> bool" where
  "older_than limit age = (case age of None \<Rightarrow> False | Some a \<Rightarrow> a \<ge> limit)"

definition show_age :: "u64 option \<Rightarrow> rstr" where
  "show_age age = show_dec (unat (case age of None \<Rightarrow> 0 | Some a \<Rightarrow> a))"

definition dt_touch_recovered :: "os \<Rightarrow> nat \<Rightarrow> dt_state \<Rightarrow> dt_state" where
  "dt_touch_recovered os i s =
     (let (l, w) = s; touch_frames = dv_touch_frames (dev_of i w)
      in if touch_frames \<noteq> dl_last_touch_frames l then
           let w = (if dl_led_output_suspended l
                    then w_log LogOk (player_label i w @ lit '': Touch input recovered; resuming LED writes'') w else w)
           in (l\<lparr>dl_last_touch_frames := touch_frames, dl_led_output_suspended := False,
                 dl_touch_stale_logged := False\<rparr>,
               dev_update i (\<lambda>d. d\<lparr>dv_led_suspended := False\<rparr>) w)
         else s)"

definition dt_touch_watch :: "os \<Rightarrow> nat \<Rightarrow> u64 \<Rightarrow> mai2_output_page \<Rightarrow> dt_state \<Rightarrow> dt_state flow" where
  "dt_touch_watch os i now output s =
     (let (l, w) = dt_touch_recovered os i s;
          age = touch_serial_age_ms (dev_of i w) now (dl_connected_since_ms l);
          active = touch_protect_active output now (dl_connected_since_ms l);
          (l, w) =
            (if active \<and> older_than AFFINE_TOUCH_STALE_LED_PAUSE_MS age then
               let w = dev_update i (\<lambda>d. d\<lparr>dv_led_suspended := True\<rparr>) w;
                   w = (if \<not> dl_touch_stale_logged l
                        then w_log LogWarn (player_label i w @ lit '': Touch input stale for '' @ show_age age @
                               lit ''ms; pausing LED writes'') w else w)
               in (l\<lparr>dl_led_output_suspended := True, dl_touch_stale_logged := True\<rparr>, w)
             else (l, w))
      in if active \<and> older_than AFFINE_TOUCH_STALE_RECONNECT_MS age then
           dt_drop os i (l, w_log LogWarn (player_label i w @ lit '': Touch input stalled for '' @ show_age age @
             lit ''ms; reconnecting serial'') w)
         else if dl_led_output_suspended l then Leave (l, w_sleep AFFINE_DEVICE_LOOP_SLEEP_MS w)
         else Go (l\<lparr>dl_touch_stale_logged := False\<rparr>, w))"

text \<open>One of the three LED blocks: \<open>count\<close> and \<open>seen\<close> are its counter and its sequence variable.\<close>

definition dt_led ::
  "os \<Rightarrow> nat \<Rightarrow> bool \<Rightarrow> u8 \<Rightarrow> u8 list \<Rightarrow> (mai2_device \<Rightarrow> mai2_device) \<Rightarrow> (device_locals \<Rightarrow> device_locals) \<Rightarrow>
     dt_state \<Rightarrow> dt_state flow" where
  "dt_led os i changed cmd payload count seen s =
     (if changed then
        let (ok, l, w) = dt_send os cmd payload s
        in if \<not> ok then
             dt_drop os i (l, dev_update i (\<lambda>d. d\<lparr>dv_led_failures := dv_led_failures d + 1\<rparr>) w)
           else Go (seen l, dev_update i (\<lambda>d. count (d\<lparr>dv_led_writes := dv_led_writes d + 1\<rparr>)) w)
      else Go s)"

definition dt_leds :: "os \<Rightarrow> nat \<Rightarrow> mai2_output_page \<Rightarrow> dt_state \<Rightarrow> dt_state flow" where
  "dt_leds os i output s =
     and_then (dt_led os i (op_buttons_sequence output \<noteq> dl_last_buttons_sequence (fst s)) 0x14
         (button_rgb_payload (op_buttons output))
         (\<lambda>d. d\<lparr>dv_led_button_writes := dv_led_button_writes d + 1\<rparr>)
         (\<lambda>l. l\<lparr>dl_last_buttons_sequence := op_buttons_sequence output\<rparr>) s) (\<lambda>s.
     and_then (dt_led os i (op_billboard_sequence output \<noteq> dl_last_billboard_sequence (fst s)) 0x15
         (op_billboard output)
         (\<lambda>d. d\<lparr>dv_led_billboard_writes := dv_led_billboard_writes d + 1\<rparr>)
         (\<lambda>l. l\<lparr>dl_last_billboard_sequence := op_billboard_sequence output\<rparr>) s) (\<lambda>s.
     and_then (dt_led os i (op_pwm_sequence output \<noteq> dl_last_pwm_sequence (fst s)) 0x16
         (op_pwm output)
         (\<lambda>d. d\<lparr>dv_led_pwm_writes := dv_led_pwm_writes d + 1\<rparr>)
         (\<lambda>l. l\<lparr>dl_last_pwm_sequence := op_pwm_sequence output\<rparr>) s) (\<lambda>s.
     Go (fst s, w_sleep AFFINE_DEVICE_LOOP_SLEEP_MS (snd s)))))"

text \<open>The part of an iteration that has a session.\<close>

definition dt_serve :: "os \<Rightarrow> nat \<Rightarrow> dt_state \<Rightarrow> dt_state flow" where
  "dt_serve os i s =
     and_then (dt_alive os i s) (\<lambda>s.
       let (now, w) = w_tick os (snd s)
       in and_then (dt_heartbeat os i now (fst s, w)) (\<lambda>s.
          and_then (dt_board_info os i now s) (\<lambda>s.
            let (output, w) = output_read os i (snd s)
            in and_then (dt_touch_watch os i now output (fst s, w)) (dt_leds os i output))))"

definition device_iteration :: "os \<Rightarrow> nat \<Rightarrow> dt_state \<Rightarrow> dt_state option" where
  "device_iteration os i s =
     (case dt_gate os i s of
        Leave s \<Rightarrow> Some s
      | Go s \<Rightarrow> do {
          connected \<leftarrow> dt_connect os i s;
          Some (flow_state (and_then connected (dt_serve os i)))
        })"

section \<open>The reader thread\<close>

fun serial_frame :: "os \<Rightarrow> nat \<Rightarrow> parsed_frame \<Rightarrow> serial_session \<times> mai2_world \<Rightarrow> serial_session \<times> mai2_world" where
  "serial_frame os i (FrameTouch buttons0 io_status touch) (ses, w) =
     (ses, apply_parsed_touch os i buttons0 io_status touch SerialSource w)"
| "serial_frame os i (FrameBoardInfo version) (ses, w) =
     (ses\<lparr>ss_board_info_pending := False, ss_board_info_logged := True\<rparr>,
      w_log LogNone (player_label i w @ lit '' Firmware: '' @ version) w)"

fun reader_bytes ::
  "os \<Rightarrow> nat \<Rightarrow> u8 list \<Rightarrow> rx_state \<Rightarrow> serial_session \<times> mai2_world \<Rightarrow>
     (rx_state \<times> serial_session \<times> mai2_world) option" where
  "reader_bytes os i [] rx s = Some (rx, s)"
| "reader_bytes os i (b # bs) rx s = do {
     (frames, rx) \<leftarrow> rx_push rx b;
     reader_bytes os i bs rx (fold (serial_frame os i) frames s)
   }"

text \<open>
  One iteration of the reader; the loop runs while the session is active.  \<open>None\<close> is a panic.
\<close>

definition reader_iteration ::
  "os \<Rightarrow> nat \<Rightarrow> rx_state \<Rightarrow> serial_session \<times> mai2_world \<Rightarrow> (rx_state \<times> serial_session \<times> mai2_world) option" where
  "reader_iteration os i rx s =
     (let (ses, w) = s in
      if \<not> ss_active ses then Some (rx, ses, w)
      else
        let (r, ses, h) = session_read os AFFINE_SERIAL_READ_BUF_LEN ses (mw_hist w);
            w = w\<lparr>mw_hist := h\<rparr>
        in case r of
             None \<Rightarrow> Some (rx, ses\<lparr>ss_reader_failed := True, ss_active := False\<rparr>, w)
           | Some bytes \<Rightarrow> reader_bytes os i bytes rx (ses, w))"

section \<open>What the reader does with a stream\<close>

text \<open>The bytes of several reads, one after the other.\<close>

fun reader_chunks ::
  "os \<Rightarrow> nat \<Rightarrow> u8 list list \<Rightarrow> rx_state \<Rightarrow> serial_session \<times> mai2_world \<Rightarrow>
     (rx_state \<times> serial_session \<times> mai2_world) option" where
  "reader_chunks os i [] rx s = Some (rx, s)"
| "reader_chunks os i (bs # cs) rx s = do {
     (rx, s) \<leftarrow> reader_bytes os i bs rx s;
     reader_chunks os i cs rx s
   }"

lemma reader_bytes_run:
  "reader_bytes os i bs rx s =
     map_option (\<lambda>(fs, rx'). (rx', fold (serial_frame os i) fs s)) (rx_run rx bs)"
  by (induction bs arbitrary: rx s) (auto split: bind_splits simp: split_beta Let_def)

lemma rx_run_append:
  "rx_run s (xs @ ys) = do { (fs, s1) \<leftarrow> rx_run s xs; (gs, s2) \<leftarrow> rx_run s1 ys; Some (fs @ gs, s2) }"
  by (induction xs arbitrary: s) (auto split: bind_splits simp: split_beta Let_def)

lemma reader_chunks_run:
  "reader_chunks os i cs rx s =
     map_option (\<lambda>(fs, rx'). (rx', fold (serial_frame os i) fs s)) (rx_run rx (concat cs))"
proof (induction cs arbitrary: rx s)
  case Nil
  then show ?case by simp
next
  case (Cons c cs)
  then show ?case
    by (cases "rx_run rx c"; cases s) (auto simp: reader_bytes_run rx_run_append Cons.IH split: bind_splits)
qed

text \<open>A frame's effect on the input page: buttons are taken only while no button HID is connected.\<close>

fun frame_effect :: "bool \<Rightarrow> parsed_frame \<Rightarrow> mai2_input_page \<Rightarrow> mai2_input_page" where
  "frame_effect hid (FrameTouch buttons0 io_status touch) page =
     frame_update (if hid then None else buttons0) (if hid then None else io_status) touch page"
| "frame_effect hid (FrameBoardInfo version) page = page"

fun touch_count :: "parsed_frame \<Rightarrow> u64" where
  "touch_count (FrameTouch b s t) = (if t = None then 0 else 1)"
| "touch_count (FrameBoardInfo v) = 0"

lemma apply_device_frame_counts [mai2_simps]:
  "dv_touch_frames (dev_of i (apply_device_frame os i b s t src w)) =
     dv_touch_frames (dev_of i w) + (if t = None then 0 else 1)"
  by (simp add: apply_device_frame_def Let_def split_beta mai2_simps count_touch_def
      split: touch_source.splits)

lemma serial_frame_effect [mai2_simps]:
  "input_of i (snd (serial_frame os i f s)) =
     frame_effect (dv_hid_connected (dev_of i (snd s))) f (input_of i (snd s))"
  "dv_hid_connected (dev_of i (snd (serial_frame os i f s))) = dv_hid_connected (dev_of i (snd s))"
  "dv_touch_frames (dev_of i (snd (serial_frame os i f s))) = dv_touch_frames (dev_of i (snd s)) + touch_count f"
  by (cases f; cases s; simp add: apply_parsed_touch_def Let_def mai2_simps)+

lemma serial_frames_effect:
  "input_of i (snd (fold (serial_frame os i) fs s)) =
     fold (frame_effect (dv_hid_connected (dev_of i (snd s)))) fs (input_of i (snd s))"
  "dv_hid_connected (dev_of i (snd (fold (serial_frame os i) fs s))) = dv_hid_connected (dev_of i (snd s))"
  "dv_touch_frames (dev_of i (snd (fold (serial_frame os i) fs s))) =
     dv_touch_frames (dev_of i (snd s)) + sum_list (map touch_count fs)"
  by (induction fs arbitrary: s) (simp_all add: mai2_simps)

section \<open>What the device thread writes\<close>

lemma mai2_sent [mai2_simps]:
  "sent (mw_hist (dev_update j f w)) = sent (mw_hist w)"
  "sent (mw_hist (input_update os j g w)) = sent (mw_hist w)"
  "sent (mw_hist (input_write os j p w)) = sent (mw_hist w)"
  "sent (mw_hist (snd (input_read os j w))) = sent (mw_hist w)"
  "sent (mw_hist (snd (output_read os j w))) = sent (mw_hist w)"
  "sent (mw_hist (snd (w_tick os w))) = sent (mw_hist w)"
  "sent (mw_hist (w_sleep ms w)) = sent (mw_hist w)"
  "sent (mw_hist (w_log tag msg w)) = sent (mw_hist w)"
  by (auto simp: mai2_world_defs sleep_ms_def log_event_def split: prod.splits)

lemma sp_drop_quiet: "sent (snd (sp_drop p h)) = sent h"
  using sp_close_quiet [of p h] by (cases "sp_close p h") (auto simp: sp_drop_def Let_def)

lemma disconnect_session_sent [mai2_simps]:
  "sent (mw_hist (snd (disconnect_session os i session w))) = sent (mw_hist w)"
proof -
  have quiet: "sent (snd (sp_drop (fst (sp_close p h)) (snd (sp_close p h) @ [EvJoin]))) = sent h" for p h
    using sp_close_quiet [of p h] by (cases "sp_close p h") (simp add: sp_drop_quiet)
  show ?thesis
    by (cases session)
      (auto simp: disconnect_session_def session_close_def Let_def split_beta mai2_simps quiet)
qed

lemma dt_drop_effect [mai2_simps]:
  "dt_drop os i s \<noteq> Go s'"
  "dl_session (fst (flow_state (dt_drop os i s))) = None"
  "sent (mw_hist (snd (flow_state (dt_drop os i s)))) = sent (mw_hist (snd s))"
  using disconnect_session_input(1) [of os i "dl_session (fst s)" "snd s"]
  by (auto simp: dt_drop_def dt_disconnect_def Let_def split_beta mai2_simps)

text \<open>A session on which a frame always reaches the driver.\<close>

definition session_ready :: "dt_state \<Rightarrow> bool" where
  "session_ready s \<longleftrightarrow> (case dl_session (fst s) of None \<Rightarrow> False
     | Some ses \<Rightarrow> ss_active ses \<and> port_wf (ss_port ses) \<and> is_open (ss_port ses))"

lemma dt_send_ready:
  assumes "session_ready s"
  shows "session_ready (snd (dt_send os cmd payload s)) \<and>
    sent (mw_hist (snd (snd (dt_send os cmd payload s)))) = sent (mw_hist (snd s)) @ [mai2_frame cmd payload] \<and>
    (\<exists>ses. fst (snd (dt_send os cmd payload s)) = (fst s)\<lparr>dl_session := ses\<rparr>)"
proof -
  obtain l w ses where s: "s = (l, w)" "dl_session l = Some ses" "ss_active ses"
    "port_wf (ss_port ses)" "is_open (ss_port ses)"
    using assms by (cases s) (auto simp: session_ready_def split: option.splits)
  from sp_write_ready [OF s(4,5), of os "mai2_frame cmd payload" "mw_hist w"] show ?thesis
    by (auto simp: s dt_send_def session_write_frame_def session_ready_def split_beta)
qed

lemma dt_led_ready:
  assumes "session_ready s" "dt_led os i changed cmd payload count seen s = Go s'"
    and "\<And>l ses. dl_session (seen l) = dl_session l"
  shows "session_ready s' \<and>
    sent (mw_hist (snd s')) = sent (mw_hist (snd s)) @ (if changed then [mai2_frame cmd payload] else []) \<and>
    (\<exists>ses. fst s' = (if changed then seen ((fst s)\<lparr>dl_session := ses\<rparr>) else fst s))"
proof (cases changed)
  case True
  obtain ok l w where r: "dt_send os cmd payload s = (ok, l, w)" by (cases "dt_send os cmd payload s")
  have ok: ok using assms(2) True r by (auto simp: dt_led_def dt_drop_effect(1) split: if_splits)
  then have "s' = (seen l, dev_update i (\<lambda>d. count (d\<lparr>dv_led_writes := dv_led_writes d + 1\<rparr>)) w)"
    using assms(2) True r by (simp add: dt_led_def)
  with dt_send_ready [OF assms(1), of os cmd payload] r True assms(3) show ?thesis
    by (auto simp: session_ready_def mai2_simps)
next
  case False
  then show ?thesis using assms by (simp add: dt_led_def)
qed

text \<open>The frames one pass over the output page owes the device.\<close>

definition led_frames :: "mai2_output_page \<Rightarrow> device_locals \<Rightarrow> u8 list list" where
  "led_frames output l =
     (if op_buttons_sequence output \<noteq> dl_last_buttons_sequence l
      then [mai2_frame 0x14 (button_rgb_payload (op_buttons output))] else []) @
     (if op_billboard_sequence output \<noteq> dl_last_billboard_sequence l
      then [mai2_frame 0x15 (op_billboard output)] else []) @
     (if op_pwm_sequence output \<noteq> dl_last_pwm_sequence l
      then [mai2_frame 0x16 (op_pwm output)] else [])"

lemma and_then_Go: "and_then r f = Go s' \<longleftrightarrow> (\<exists>s. r = Go s \<and> f s = Go s')"
  by (cases r) auto

lemma dt_leds_ready:
  assumes "session_ready s" "dt_leds os i output s = Go s'"
  shows "sent (mw_hist (snd s')) = sent (mw_hist (snd s)) @ led_frames output (fst s)"
    and "dl_last_buttons_sequence (fst s') = op_buttons_sequence output"
    and "dl_last_billboard_sequence (fst s') = op_billboard_sequence output"
    and "dl_last_pwm_sequence (fst s') = op_pwm_sequence output"
proof -
  obtain s1 s2 s3 where
    d1: "dt_led os i (op_buttons_sequence output \<noteq> dl_last_buttons_sequence (fst s)) 0x14
       (button_rgb_payload (op_buttons output)) (\<lambda>d. d\<lparr>dv_led_button_writes := dv_led_button_writes d + 1\<rparr>)
       (\<lambda>l. l\<lparr>dl_last_buttons_sequence := op_buttons_sequence output\<rparr>) s = Go s1" and
    d2: "dt_led os i (op_billboard_sequence output \<noteq> dl_last_billboard_sequence (fst s1)) 0x15
       (op_billboard output) (\<lambda>d. d\<lparr>dv_led_billboard_writes := dv_led_billboard_writes d + 1\<rparr>)
       (\<lambda>l. l\<lparr>dl_last_billboard_sequence := op_billboard_sequence output\<rparr>) s1 = Go s2" and
    d3: "dt_led os i (op_pwm_sequence output \<noteq> dl_last_pwm_sequence (fst s2)) 0x16
       (op_pwm output) (\<lambda>d. d\<lparr>dv_led_pwm_writes := dv_led_pwm_writes d + 1\<rparr>)
       (\<lambda>l. l\<lparr>dl_last_pwm_sequence := op_pwm_sequence output\<rparr>) s2 = Go s3" and
    s': "s' = (fst s3, w_sleep AFFINE_DEVICE_LOOP_SLEEP_MS (snd s3))"
    using assms(2) by (auto simp: dt_leds_def and_then_Go)
  note r1 = dt_led_ready [OF assms(1) d1, simplified]
  note r2 = dt_led_ready [OF conjunct1 [OF r1] d2, simplified]
  note r3 = dt_led_ready [OF conjunct1 [OF r2] d3, simplified]
  have f1: "dl_last_buttons_sequence (fst s1) = op_buttons_sequence output"
    "dl_last_billboard_sequence (fst s1) = dl_last_billboard_sequence (fst s)"
    "dl_last_pwm_sequence (fst s1) = dl_last_pwm_sequence (fst s)"
    using r1 by (auto split: if_splits)
  have f2: "dl_last_buttons_sequence (fst s2) = op_buttons_sequence output"
    "dl_last_billboard_sequence (fst s2) = op_billboard_sequence output"
    "dl_last_pwm_sequence (fst s2) = dl_last_pwm_sequence (fst s)"
    using r2 f1 by (auto split: if_splits)
  show "sent (mw_hist (snd s')) = sent (mw_hist (snd s)) @ led_frames output (fst s)"
    using r1 r2 r3 f1 f2 by (simp add: s' mai2_simps led_frames_def)
  show "dl_last_buttons_sequence (fst s') = op_buttons_sequence output"
    "dl_last_billboard_sequence (fst s') = op_billboard_sequence output"
    "dl_last_pwm_sequence (fst s') = op_pwm_sequence output"
    using r3 f2 by (auto simp: s' split: if_splits)
qed

section \<open>Properties\<close>

text \<open>
  C19. From the wire to the game: board messages that arrive at the serial reader in any chunks never
  make it panic, and leave the input page that results from applying them in order, with the
  button state of each message only while no button HID is connected; every touch message counts.
\<close>

theorem mai2_serial_stream:
  assumes "\<forall>m \<in> set ms. board_ok m"
    and "concat chunks = concat (map board_encode ms)"
  shows "\<exists>rx ses' w'. reader_chunks os i chunks rx_init (ses, w) = Some (rx, ses', w') \<and>
    input_of i w' = fold (frame_effect (dv_hid_connected (dev_of i w))) (map board_view ms) (input_of i w) \<and>
    dv_touch_frames (dev_of i w') = dv_touch_frames (dev_of i w) + sum_list (map (touch_count \<circ> board_view) ms)"
proof -
  have "rx_held rx_init = []" by (simp add: rx_held_def rx_init_def)
  then obtain rx where "rx_run rx_init (concat chunks) = Some (map board_view ms, rx)"
    using board_serial.decode_chunked [of ms rx_init chunks] assms rx_wf_init
      rx_run_feed [OF rx_wf_init, of "concat chunks"] by auto
  then show ?thesis
    using serial_frames_effect [of i os "map board_view ms" "(ses, w)"]
    by (cases "fold (serial_frame os i) (map board_view ms) (ses, w)") (simp add: reader_chunks_run)
qed

theorem mai2_serial_stream_witness:
  "\<exists>rx ses' w'. reader_chunks willing_os 1 [[0x28, 1, 2, 3, 4], [5, 6, 7, 0x29]] rx_init
       (session_new opened_port, mai2_demo_world) = Some (rx, ses', w') \<and>
     ip_touch (input_of 1 w') = [1, 2, 3, 4, 5, 6, 7]"
  using mai2_serial_stream [of "[MsgLegacyTouch [1, 2, 3, 4, 5, 6, 7]]"
      "[[0x28, 1, 2, 3, 4], [5, 6, 7, 0x29]]" willing_os 1 "session_new opened_port" mai2_demo_world]
  by (auto simp: frame_update_def Let_def)

text \<open>
  C12. The board shows what the game set: take a thread that has transmitted the output page of state
  \<open>w\<close>, and fewer than \<open>2 ^ 64\<close> calls of the game after it.  If all writes of the next pass succeed, an
  LED channel is transmitted, once and with its latest value, exactly when the calls made it differ
  from what it was in \<open>w\<close> at some point; the thread has then transmitted the page as it is, so the
  statement applies to the next calls, and without a change the next pass sends nothing.
\<close>

theorem mai2_leds_delivered:
  assumes "mai2_calls os w cs = Some w'" and "length cs < 2 ^ 64"
    and "session_ready (l, w')"
    and "(dl_last_buttons_sequence l, dl_last_billboard_sequence l, dl_last_pwm_sequence l) =
      (op_buttons_sequence (output_of i w), op_billboard_sequence (output_of i w), op_pwm_sequence (output_of i w))"
    and "dt_leds os i (output_of i w') (l, w') = Go (l', w'')"
  shows "sent (mw_hist w'') = sent (mw_hist w') @
      (if changed_during os i op_buttons cs w
       then [mai2_frame 0x14 (button_rgb_payload (op_buttons (output_of i w')))] else []) @
      (if changed_during os i op_billboard cs w
       then [mai2_frame 0x15 (op_billboard (output_of i w'))] else []) @
      (if changed_during os i op_pwm cs w
       then [mai2_frame 0x16 (op_pwm (output_of i w'))] else []) \<and>
    (dl_last_buttons_sequence l', dl_last_billboard_sequence l', dl_last_pwm_sequence l') =
      (op_buttons_sequence (output_of i w'), op_billboard_sequence (output_of i w'), op_pwm_sequence (output_of i w')) \<and>
    led_frames (output_of i w') l' = []"
proof -
  note leds = dt_leds_ready [OF assms(3,5), simplified]
  have "led_frames (output_of i w') l' = []" using leds by (simp add: led_frames_def)
  with leds show ?thesis
    using assms(4) mai2_calls_channels [OF assms(1,2), of i] by (simp add: led_frames_def)
qed

definition mai2_demo_locals :: device_locals where
  "mai2_demo_locals = \<lparr>dl_session = Some (session_new opened_port), dl_last_heartbeat = 0,
     dl_board_info_start_ms = 0, dl_board_info_request_ms = 0, dl_last_buttons_sequence = 0,
     dl_last_billboard_sequence = 0, dl_last_pwm_sequence = 0, dl_connected_since_ms = 0,
     dl_last_touch_frames = 0, dl_led_output_suspended = False, dl_device_missing_logged = False,
     dl_port_open_failed_logged = False, dl_touch_stale_logged = False\<rparr>"

theorem mai2_leds_delivered_witness:
  "sent (mw_hist (snd (flow_state
     (let w = mai2_led_set_fet_output willing_os 0 [1, 2, 3] mai2_demo_world
      in dt_leds willing_os 0 (output_of 0 w) (mai2_demo_locals, w))))) = [mai2_frame 0x16 [1, 2, 3]]"
proof -
  let ?w = "mai2_led_set_fet_output willing_os 0 [1, 2, 3] mai2_demo_world"
  have pages: "output_of 0 mai2_demo_world = mai2_output_default"
    by (simp add: mai2_demo_world_def output_of_def)
  then have new: "output_of 0 ?w = mai2_output_default\<lparr>op_pwm := [1, 2, 3], op_pwm_sequence := 1\<rparr>"
    by (simp add: mai2_led_set_fet_output_def mai2_simps publish_pwm_def mai2_output_default_def
        numeral_eq_Suc)
  have port: "port_wf opened_port \<and> is_open opened_port \<and> fst (sp_write willing_os bs opened_port h)" for bs h
    by (simp add: port_wf_def is_open_def sp_write_def opened_port_def sp_open_def serial_defs willing_os_def
        open_timeouts_def serial_port_default_def overlapped_default_def NULL_HANDLE_def INVALID_HANDLE_VALUE_def)
  then have ready: "session_ready (mai2_demo_locals, ?w)"
    by (simp add: session_ready_def mai2_demo_locals_def session_new_def)
  have "\<exists>l' w''. dt_leds willing_os 0 (output_of 0 ?w) (mai2_demo_locals, ?w) = Go (l', w'')"
    using port
    by (auto simp: dt_leds_def dt_led_def new mai2_output_default_def mai2_demo_locals_def dt_send_def
        session_write_frame_def session_new_def split_beta)
  then obtain l' w'' where run: "dt_leds willing_os 0 (output_of 0 ?w) (mai2_demo_locals, ?w) = Go (l', w'')"
    by (elim exE)
  let ?cs = "[Mai2LedSetFet 0 [1, 2, 3]]"
  have calls: "mai2_calls willing_os mai2_demo_world ?cs = Some ?w" and few: "length ?cs < 2 ^ 64" by simp_all
  have seqs: "(dl_last_buttons_sequence mai2_demo_locals, dl_last_billboard_sequence mai2_demo_locals,
      dl_last_pwm_sequence mai2_demo_locals) = (op_buttons_sequence (output_of 0 mai2_demo_world),
      op_billboard_sequence (output_of 0 mai2_demo_world), op_pwm_sequence (output_of 0 mai2_demo_world))"
    by (simp add: pages mai2_demo_locals_def mai2_output_default_def)
  have channels: "\<not> changed_during willing_os 0 op_buttons ?cs mai2_demo_world"
    "\<not> changed_during willing_os 0 op_billboard ?cs mai2_demo_world"
    "changed_during willing_os 0 op_pwm ?cs mai2_demo_world"
    by (simp_all add: changed_during_def new pages) (simp_all add: mai2_output_default_def numeral_eq_Suc)
  have quiet: "sent (mw_hist ?w) = []"
    by (simp add: mai2_led_set_fet_output_def mai2_simps mai2_world_defs mai2_demo_world_def mai2_demo_device_def split_beta)
  have "op_pwm (output_of 0 ?w) = [1, 2, 3]" by (simp add: new)
  with mai2_leds_delivered [OF calls few ready seqs run] have "sent (mw_hist w'') = [mai2_frame 0x16 [1, 2, 3]]"
    by (simp only: channels quiet if_True if_False append_Nil not_False_eq_True)
  then show ?thesis by (simp only: Let_def run flow_state.simps snd_conv)
qed

lemma older_than_mono: "m \<le> n \<Longrightarrow> older_than n age \<Longrightarrow> older_than m age"
  by (auto simp: older_than_def split: option.splits)

lemma touch_limits: "AFFINE_TOUCH_STALE_LED_PAUSE_MS \<le> AFFINE_TOUCH_STALE_RECONNECT_MS"
  by (simp add: AFFINE_TOUCH_STALE_LED_PAUSE_MS_def AFFINE_TOUCH_STALE_RECONNECT_MS_def)

text \<open>
  C25. The watch over the touch stream is active while the game wants touch and the grace period after
  the connection is over.  A pass goes on to the LEDs unless the watch is active and the last touch
  frame is 300 ms old or older, or LED writing is still suspended by an earlier pass and no new touch
  frame has come since (whether the watch is active or not).  The session is given up exactly when
  the watch is active and the last frame is 1000 ms old or older.  The watch itself writes nothing.
\<close>

theorem mai2_touch_watch:
  "(let (l, w) = s; r = dt_touch_watch os i now output s; since = dl_connected_since_ms l;
        active = touch_protect_active output now since;
        age = touch_serial_age_ms (dev_of i w) now since;
        fresh = (dv_touch_frames (dev_of i w) \<noteq> dl_last_touch_frames l)
    in (\<exists>s'. r = Go s') =
         (if active \<and> older_than 300 age then False else if fresh then True else \<not> dl_led_output_suspended l) \<and>
       dl_session (fst (flow_state r)) = (if active \<and> older_than 1000 age then None else dl_session l) \<and>
       sent (mw_hist (snd (flow_state r))) = sent (mw_hist w))"
proof -
  obtain l w where s: "s = (l, w)" by (cases s)
  obtain l1 w1 where r: "dt_touch_recovered os i (l, w) = (l1, w1)" by (cases "dt_touch_recovered os i (l, w)")
  have r1: "dl_session l1 = dl_session l" "dl_connected_since_ms l1 = dl_connected_since_ms l"
    "dl_led_output_suspended l1 \<longleftrightarrow> dl_led_output_suspended l \<and> dv_touch_frames (dev_of i w) = dl_last_touch_frames l"
    "sent (mw_hist w1) = sent (mw_hist w)"
    "touch_serial_age_ms (dev_of i w1) now k = touch_serial_age_ms (dev_of i w) now k" for k
    using r by (auto simp: dt_touch_recovered_def Let_def mai2_simps touch_serial_age_ms_def split: if_splits)
  have mono: "older_than 1000 age \<Longrightarrow> older_than 300 age" for age
    by (rule older_than_mono) simp_all
  let ?active = "touch_protect_active output now (dl_connected_since_ms l)"
  let ?age = "touch_serial_age_ms (dev_of i w) now (dl_connected_since_ms l)"
  consider (stalled) "?active" "older_than 1000 ?age"
    | (stale) "?active" "older_than 300 ?age" "\<not> older_than 1000 ?age"
    | (live) "\<not> (?active \<and> older_than 300 ?age)" "\<not> (?active \<and> older_than 1000 ?age)"
    using mono by blast
  then show ?thesis
  proof cases
    case stalled
    then show ?thesis
      using mono [of ?age]
      by (simp add: s r dt_touch_watch_def r1 AFFINE_TOUCH_STALE_LED_PAUSE_MS_def
          AFFINE_TOUCH_STALE_RECONNECT_MS_def Let_def mai2_simps)
  next
    case stale
    then show ?thesis
      by (simp add: s r dt_touch_watch_def r1 AFFINE_TOUCH_STALE_LED_PAUSE_MS_def
          AFFINE_TOUCH_STALE_RECONNECT_MS_def Let_def mai2_simps)
  next
    case live
    then show ?thesis
      by (auto simp: s r dt_touch_watch_def r1 AFFINE_TOUCH_STALE_LED_PAUSE_MS_def
          AFFINE_TOUCH_STALE_RECONNECT_MS_def Let_def mai2_simps)
  qed
qed

end
