(* ===== verification/Mai2_Hid_Threads.thy ===== *)
theory Mai2_Hid_Threads
  imports Mai2_Serial_Threads
begin

text \<open>
  The HID threads of \<open>crates/affine-mai2/src/lib.rs\<close>: \<open>vendor_command_thread\<close>, \<open>touch_hid_thread\<close> and
  \<open>hid_thread\<close>, and \<open>touch_callback_thread\<close>.

  Each HID thread has two phases, the search for its interface (\<open>attach\<close>, the same in all three but
  for the names and for what a failure does to the connected flag) and the loop over the open
  device; a thread is the state \<open>hid_flags \<times> 'l option\<close> with the locals of its inner loop.  The
  \<open>hidapi\<close> crate is the environment: \<open>os_hid_new\<close>, \<open>os_hid_devices\<close>, \<open>os_hid_open\<close>, \<open>os_hid_read\<close> and
  \<open>os_hid_write\<close>; as documented, a read delivers at most as many bytes as its buffer holds.
\<close>

section \<open>Searching for an interface\<close>

datatype hid_kind = VendorHid | TouchHid | ButtonHid

fun hid_usage_page :: "hid_kind \<Rightarrow> u16" where
  "hid_usage_page VendorHid = MAI2_VENDOR_HID_USAGE_PAGE"
| "hid_usage_page TouchHid = MAI2_TOUCH_HID_USAGE_PAGE"
| "hid_usage_page ButtonHid = MAI2_BUTTON_HID_USAGE_PAGE"

fun hid_usage :: "hid_kind \<Rightarrow> u16" where
  "hid_usage VendorHid = MAI2_VENDOR_HID_USAGE"
| "hid_usage TouchHid = MAI2_TOUCH_HID_USAGE"
| "hid_usage ButtonHid = MAI2_BUTTON_HID_USAGE"

fun hid_missing_message :: "hid_kind \<Rightarrow> string" where
  "hid_missing_message VendorHid = '': Vendor HID command interface not found''"
| "hid_missing_message TouchHid = '': Touch HID stream interface not found''"
| "hid_missing_message ButtonHid = '': HID button interface not found''"

fun hid_open_message :: "hid_kind \<Rightarrow> string" where
  "hid_open_message VendorHid = '': Failed to open Vendor HID''"
| "hid_open_message TouchHid = '': Failed to open Touch HID''"
| "hid_open_message ButtonHid = '': Failed to open HID buttons''"

fun hid_connected_message :: "hid_kind \<Rightarrow> string" where
  "hid_connected_message VendorHid = '' Vendor HID command''"
| "hid_connected_message TouchHid = '' Touch HID stream''"
| "hid_connected_message ButtonHid = '' HID buttons''"

fun set_connected :: "hid_kind \<Rightarrow> bool \<Rightarrow> mai2_device \<Rightarrow> mai2_device" where
  "set_connected VendorHid b d = d\<lparr>dv_vendor_connected := b\<rparr>"
| "set_connected TouchHid b d = d\<lparr>dv_touch_hid_connected := b\<rparr>"
| "set_connected ButtonHid b d = d\<lparr>dv_hid_connected := b\<rparr>"

fun is_connected :: "hid_kind \<Rightarrow> mai2_device \<Rightarrow> bool" where
  "is_connected VendorHid d = dv_vendor_connected d"
| "is_connected TouchHid d = dv_touch_hid_connected d"
| "is_connected ButtonHid d = dv_hid_connected d"

record hid_flags =
  hf_unavailable_logged :: bool
  hf_missing_logged :: bool
  hf_open_failed_logged :: bool

definition hid_flags_init :: hid_flags where
  "hid_flags_init = \<lparr>hf_unavailable_logged = False, hf_missing_logged = False, hf_open_failed_logged = False\<rparr>"

text \<open>\<open>if !logged { log_warn(..) }\<close> with the player's label.\<close>

definition warn_once :: "nat \<Rightarrow> bool \<Rightarrow> string \<Rightarrow> mai2_world \<Rightarrow> mai2_world" where
  "warn_once i logged msg w = (if \<not> logged then w_log LogWarn (player_label i w @ lit msg) w else w)"

text \<open>
  A failed search or open clears the flag of the vendor and touch threads; the button thread leaves
  its flag alone there.
\<close>

definition attach_failed :: "hid_kind \<Rightarrow> nat \<Rightarrow> mai2_world \<Rightarrow> mai2_world" where
  "attach_failed kind i w = (if kind = ButtonHid then w else dev_update i (set_connected kind False) w)"

definition hid_api_new :: "os \<Rightarrow> mai2_world \<Rightarrow> bool \<times> mai2_world" where
  "hid_api_new os w = (let ok = os_hid_new os (mw_hist w) in (ok, w\<lparr>mw_hist := mw_hist w @ [EvHidNew ok]\<rparr>))"

definition hid_open :: "os \<Rightarrow> rstr \<Rightarrow> mai2_world \<Rightarrow> bool \<times> mai2_world" where
  "hid_open os path w =
     (let ok = os_hid_open os (mw_hist w) path in (ok, w\<lparr>mw_hist := mw_hist w @ [EvHidOpen path ok]\<rparr>))"

text \<open>The marks of a new connection; the button thread does not touch the page.\<close>

definition attached :: "os \<Rightarrow> hid_kind \<Rightarrow> nat \<Rightarrow> mai2_world \<Rightarrow> mai2_world" where
  "attached os kind i w =
     (let w = w_log LogOk (lit ''Connected '' @ player_label i w @ lit (hid_connected_message kind)) w;
          w = dev_update i (set_connected kind True) w;
          w = (if kind = VendorHid
               then dev_update i (\<lambda>d. d\<lparr>dv_vendor_reconnects := dv_vendor_reconnects d + 1\<rparr>) w else w)
      in if kind = ButtonHid then w else input_update os i mark_input_connected w)"

definition attach ::
  "os \<Rightarrow> hid_kind \<Rightarrow> nat \<Rightarrow> hid_flags \<Rightarrow> mai2_world \<Rightarrow> rstr option \<times> hid_flags \<times> mai2_world" where
  "attach os kind i fl w =
     (if \<not> dv_enabled (dev_of i w) then
        (None, hid_flags_init,
         w_sleep AFFINE_RESCAN_INTERVAL_MS (dev_update i (set_connected kind False) w))
      else
        let (ok, w) = hid_api_new os w
        in if \<not> ok then
             (None, \<lparr>hf_unavailable_logged = True, hf_missing_logged = False, hf_open_failed_logged = False\<rparr>,
              w_sleep AFFINE_RESCAN_INTERVAL_MS
                (warn_once i (hf_unavailable_logged fl) '': HID subsystem unavailable'' w))
           else
             let fl = fl\<lparr>hf_unavailable_logged := False\<rparr>
             in case find_hid_path (os_hid_devices os (mw_hist w)) AFFINE_VID (dv_pid (dev_of i w))
                       (hid_usage_page kind) (hid_usage kind) of
                  None \<Rightarrow>
                    (None, fl\<lparr>hf_missing_logged := True, hf_open_failed_logged := False\<rparr>,
                     w_sleep AFFINE_RESCAN_INTERVAL_MS (attach_failed kind i
                       (warn_once i (hf_missing_logged fl) (hid_missing_message kind) w)))
                | Some path \<Rightarrow>
                    (let fl = fl\<lparr>hf_missing_logged := False\<rparr>; (ok, w) = hid_open os path w
                     in if \<not> ok then
                          (None, fl\<lparr>hf_open_failed_logged := True\<rparr>,
                           w_sleep AFFINE_RESCAN_INTERVAL_MS (attach_failed kind i
                             (warn_once i (hf_open_failed_logged fl) (hid_open_message kind) w)))
                        else (Some path, fl\<lparr>hf_open_failed_logged := False\<rparr>, attached os kind i w)))"

text \<open>
  The end of an inner loop: the flag, the inputs the source was feeding, the pause, and the device
  handle, which lives to the end of the iteration.
\<close>

definition detach :: "os \<Rightarrow> hid_kind \<Rightarrow> nat \<Rightarrow> rstr \<Rightarrow> mai2_world \<Rightarrow> mai2_world" where
  "detach os kind i path w =
     (let w = dev_update i (set_connected kind False) w;
          w = w_sleep AFFINE_RESCAN_INTERVAL_MS (clear_inputs_on_source_drop os i w)
      in w\<lparr>mw_hist := mw_hist w @ [EvHidClose path]\<rparr>)"

text \<open>\<open>hid.read_timeout\<close> into a buffer of \<open>cap\<close> bytes: \<open>None\<close> is an error, \<open>[]\<close> a timeout.\<close>

definition hid_read :: "os \<Rightarrow> rstr \<Rightarrow> nat \<Rightarrow> mai2_world \<Rightarrow> u8 list option \<times> mai2_world" where
  "hid_read os path cap w =
     (map_option (take cap) (os_hid_read os (mw_hist w) path cap),
      w\<lparr>mw_hist := mw_hist w @ [EvHidRead path cap]\<rparr>)"

text \<open>
  A thread with the loop body \<open>body\<close>: one search or one iteration of the inner loop.  \<open>Leave\<close> is the
  body's \<open>break\<close>; \<open>None\<close> is a panic.
\<close>

definition hid_thread_step ::
  "os \<Rightarrow> hid_kind \<Rightarrow> nat \<Rightarrow> (rstr \<Rightarrow> mai2_world \<Rightarrow> 'l \<times> mai2_world) \<Rightarrow> ('l \<Rightarrow> rstr) \<Rightarrow>
     ('l \<times> mai2_world \<Rightarrow> ('l \<times> mai2_world) flow option) \<Rightarrow>
     hid_flags \<times> 'l option \<times> mai2_world \<Rightarrow> (hid_flags \<times> 'l option \<times> mai2_world) option" where
  "hid_thread_step os kind i start path_of body s =
     (let (fl, loop, w) = s in
      case loop of
        None \<Rightarrow>
          (let (found, fl, w) = attach os kind i fl w
           in case found of
                None \<Rightarrow> Some (fl, None, w)
              | Some path \<Rightarrow> (let (l, w) = start path w in Some (fl, Some l, w)))
      | Some l \<Rightarrow> do {
          r \<leftarrow> body (l, w);
          Some (case r of
                  Go (l, w) \<Rightarrow> (fl, Some l, w)
                | Leave (l, w) \<Rightarrow> (fl, None, detach os kind i (path_of l) w))
        })"

section \<open>The vendor command thread\<close>

record vendor_locals =
  vl_path :: rstr
  vl_last_heartbeat :: u64
  vl_board_info_start_ms :: u64
  vl_board_info_request_ms :: u64
  vl_board_info_pending :: bool
  vl_board_info_logged :: bool
  vl_last_buttons_sequence :: u64
  vl_last_billboard_sequence :: u64
  vl_last_pwm_sequence :: u64

type_synonym vt_state = "vendor_locals \<times> mai2_world"

definition vendor_start :: "os \<Rightarrow> rstr \<Rightarrow> mai2_world \<Rightarrow> vt_state" where
  "vendor_start os path w =
     (let (t1, w) = w_tick os w; (t2, w) = w_tick os w
      in (\<lparr>vl_path = path, vl_last_heartbeat = t1, vl_board_info_start_ms = t2,
           vl_board_info_request_ms = 0, vl_board_info_pending = True, vl_board_info_logged = False,
           vl_last_buttons_sequence = 0, vl_last_billboard_sequence = 0, vl_last_pwm_sequence = 0\<rparr>, w))"

fun vendor_frame :: "os \<Rightarrow> nat \<Rightarrow> parsed_frame \<Rightarrow> vt_state \<Rightarrow> vt_state" where
  "vendor_frame os i (FrameTouch buttons0 io_status touch) (l, w) =
     (l, apply_parsed_touch os i buttons0 io_status touch SyntheticSource w)"
| "vendor_frame os i (FrameBoardInfo version) (l, w) =
     (l\<lparr>vl_board_info_pending := False, vl_board_info_logged := True\<rparr>,
      w_log LogNone (player_label i w @ lit '' Firmware: '' @ version) w)"

text \<open>
  \<open>vendor_command_read_once\<close>.  The report's bytes are the start of a receive buffer of their own, so
  nothing is carried over from one report to the next.
\<close>

definition vendor_command_read_once :: "os \<Rightarrow> nat \<Rightarrow> vt_state \<Rightarrow> (bool \<times> vt_state) option" where
  "vendor_command_read_once os i s =
     (let (l, w) = s; (r, w) = hid_read os (vl_path l) MAI2_VENDOR_HID_REPORT_LEN w
      in case r of
           None \<Rightarrow> Some (False, l, w)
         | Some bytes \<Rightarrow>
             if bytes = [] then Some (True, l, w)
             else
               let report = bytes @ replicate (MAI2_VENDOR_HID_REPORT_LEN - length bytes) 0;
                   rx_len = min (length bytes) AFFINE_SERIAL_RX_BUF_LEN
               in do {
                 seg \<leftarrow> slice report 0 rx_len;
                 (frames, rx) \<leftarrow> drain_frames (seg @ replicate (AFFINE_SERIAL_RX_BUF_LEN - rx_len) 0) rx_len;
                 Some (True, fold (vendor_frame os i) frames (l, w))
               })"

definition vt_send :: "os \<Rightarrow> u8 \<Rightarrow> u8 list \<Rightarrow> vt_state \<Rightarrow> bool \<times> vt_state" where
  "vt_send os cmd payload s =
     (let (l, w) = s; (ok, h) = send_hid_frame os (vl_path l) cmd payload (mw_hist w)
      in (ok, l, w\<lparr>mw_hist := h\<rparr>))"

definition vt_heartbeat :: "os \<Rightarrow> nat \<Rightarrow> u64 \<Rightarrow> vt_state \<Rightarrow> vt_state flow" where
  "vt_heartbeat os i now s =
     (if saturating_sub now (vl_last_heartbeat (fst s)) \<ge> AFFINE_HEARTBEAT_INTERVAL_MS then
        let (ok, l, w) = vt_send os AFFINE_CMD_HEARTBEAT [] s
        in if \<not> ok then
             Leave (l, dev_update i (\<lambda>d. d\<lparr>dv_heartbeat_failures := dv_heartbeat_failures d + 1\<rparr>) w)
           else Go (l\<lparr>vl_last_heartbeat := now\<rparr>,
                    dev_update i (\<lambda>d. d\<lparr>dv_heartbeat_writes := dv_heartbeat_writes d + 1\<rparr>) w)
      else Go s)"

definition vt_board_info :: "os \<Rightarrow> nat \<Rightarrow> u64 \<Rightarrow> vt_state \<Rightarrow> vt_state flow" where
  "vt_board_info os i now s =
     (let (l, w) = s in
      if \<not> vl_board_info_pending l then Go s
      else if vl_board_info_request_ms l = 0 \<and>
              saturating_sub now (vl_board_info_start_ms l) \<ge> AFFINE_BOARD_INFO_DELAY_MS then
        let (ok, l, w) = vt_send os AFFINE_CMD_GET_BOARD_INFO [] s
        in if \<not> ok then Leave (l, w) else Go (l\<lparr>vl_board_info_request_ms := now\<rparr>, w)
      else if vl_board_info_request_ms l \<noteq> 0 \<and>
              saturating_sub now (vl_board_info_request_ms l) \<ge> AFFINE_BOARD_INFO_TIMEOUT_MS then
        let (ok, l, w) = vt_send os AFFINE_CMD_GET_BOARD_INFO [] s
        in if \<not> ok then Leave (l, w)
           else
             let l = l\<lparr>vl_board_info_request_ms := now\<rparr>
             in if saturating_sub now (vl_board_info_start_ms l) > 3000 \<and> \<not> vl_board_info_logged l
                then Go (l\<lparr>vl_board_info_pending := False, vl_board_info_logged := True\<rparr>,
                         w_log LogWarn (player_label i w @ lit '' Firmware: unknown'') w)
                else Go (l, w)
      else Go s)"

definition vt_led ::
  "os \<Rightarrow> nat \<Rightarrow> bool \<Rightarrow> u8 \<Rightarrow> u8 list \<Rightarrow> (mai2_device \<Rightarrow> mai2_device) \<Rightarrow> (vendor_locals \<Rightarrow> vendor_locals) \<Rightarrow>
     vt_state \<Rightarrow> vt_state flow" where
  "vt_led os i changed cmd payload count seen s =
     (if changed then
        let (ok, l, w) = vt_send os cmd payload s
        in if \<not> ok then Leave (l, dev_update i (\<lambda>d. d\<lparr>dv_led_failures := dv_led_failures d + 1\<rparr>) w)
           else Go (seen l, dev_update i (\<lambda>d. count (d\<lparr>dv_led_writes := dv_led_writes d + 1\<rparr>)) w)
      else Go s)"

text \<open>The three LED blocks and the pause; the button payload goes out as it is in the page.\<close>

definition vt_leds :: "os \<Rightarrow> nat \<Rightarrow> mai2_output_page \<Rightarrow> vt_state \<Rightarrow> vt_state flow" where
  "vt_leds os i output s =
     and_then (vt_led os i (op_buttons_sequence output \<noteq> vl_last_buttons_sequence (fst s)) 0x14
         (op_buttons output)
         (\<lambda>d. d\<lparr>dv_led_button_writes := dv_led_button_writes d + 1\<rparr>)
         (\<lambda>l. l\<lparr>vl_last_buttons_sequence := op_buttons_sequence output\<rparr>) s) (\<lambda>s.
     and_then (vt_led os i (op_billboard_sequence output \<noteq> vl_last_billboard_sequence (fst s)) 0x15
         (op_billboard output)
         (\<lambda>d. d\<lparr>dv_led_billboard_writes := dv_led_billboard_writes d + 1\<rparr>)
         (\<lambda>l. l\<lparr>vl_last_billboard_sequence := op_billboard_sequence output\<rparr>) s) (\<lambda>s.
     and_then (vt_led os i (op_pwm_sequence output \<noteq> vl_last_pwm_sequence (fst s)) 0x16
         (op_pwm output)
         (\<lambda>d. d\<lparr>dv_led_pwm_writes := dv_led_pwm_writes d + 1\<rparr>)
         (\<lambda>l. l\<lparr>vl_last_pwm_sequence := op_pwm_sequence output\<rparr>) s) (\<lambda>s.
     Go (fst s, w_sleep AFFINE_DEVICE_LOOP_SLEEP_MS (snd s)))))"

definition vendor_iteration :: "os \<Rightarrow> nat \<Rightarrow> vt_state \<Rightarrow> vt_state flow option" where
  "vendor_iteration os i s =
     (if \<not> dv_enabled (dev_of i (snd s)) then Some (Leave s)
      else do {
        (ok, l, w) \<leftarrow> vendor_command_read_once os i s;
        if \<not> ok then Some (Leave (l, w))
        else
          let (now, w) = w_tick os w
          in Some (and_then (vt_heartbeat os i now (l, w)) (\<lambda>s.
                   and_then (vt_board_info os i now s) (\<lambda>s.
                     let (output, w) = output_read os i (snd s)
                     in vt_leds os i output (fst s, w))))
      })"

definition vendor_thread_step ::
  "os \<Rightarrow> nat \<Rightarrow> hid_flags \<times> vendor_locals option \<times> mai2_world \<Rightarrow>
     (hid_flags \<times> vendor_locals option \<times> mai2_world) option" where
  "vendor_thread_step os i = hid_thread_step os VendorHid i (vendor_start os) vl_path (vendor_iteration os i)"

section \<open>The touch HID thread\<close>

record touch_locals =
  tl_path :: rstr
  tl_assembler :: touch_hid_assembler

type_synonym tt_state = "touch_locals \<times> mai2_world"

definition touch_start :: "rstr \<Rightarrow> mai2_world \<Rightarrow> tt_state" where
  "touch_start path w = (\<lparr>tl_path = path, tl_assembler = touch_hid_assembler_default\<rparr>, w)"

text \<open>What a report that was read does.\<close>

definition touch_report :: "os \<Rightarrow> nat \<Rightarrow> u8 list \<Rightarrow> tt_state \<Rightarrow> tt_state option" where
  "touch_report os i bytes s = do {
     part \<leftarrow> parse_touch_hid_part bytes;
     (case part of
        None \<Rightarrow> Some s
      | Some part \<Rightarrow>
          (let (l, w) = s; (assembler, r) = assembler_push (tl_assembler l) part;
               l = l\<lparr>tl_assembler := assembler\<rparr>
           in Some (l, case r of
                None \<Rightarrow> w
              | Some touch \<Rightarrow> apply_device_frame os i None None (Some touch) TouchHidSource w)))
   }"

definition touch_iteration :: "os \<Rightarrow> nat \<Rightarrow> tt_state \<Rightarrow> tt_state flow option" where
  "touch_iteration os i s =
     (let (l, w) = s in
      if \<not> dv_enabled (dev_of i w) then Some (Leave s)
      else
        let (r, w) = hid_read os (tl_path l) MAI2_TOUCH_HID_READ_BUF_LEN w
        in case r of
             None \<Rightarrow> Some (Leave (l, w))
           | Some bytes \<Rightarrow>
               if bytes = [] then Some (Go (l, w)) else map_option Go (touch_report os i bytes (l, w)))"

definition touch_thread_step ::
  "os \<Rightarrow> nat \<Rightarrow> hid_flags \<times> touch_locals option \<times> mai2_world \<Rightarrow>
     (hid_flags \<times> touch_locals option \<times> mai2_world) option" where
  "touch_thread_step os i = hid_thread_step os TouchHid i touch_start tl_path (touch_iteration os i)"

section \<open>The button HID thread\<close>

text \<open>
  A button report has an \<open>io_status\<close> of at most six bits; the interface carries two other kinds of
  report, which are skipped.  The inner loop ends with an error only: it does not look at \<open>enabled\<close>.
\<close>

definition button_report :: "os \<Rightarrow> nat \<Rightarrow> u8 list \<Rightarrow> mai2_world \<Rightarrow> mai2_world option" where
  "button_report os i bytes w =
     (let report = bytes @ replicate (MAI2_BUTTON_HID_REPORT_LEN - length bytes) 0 in
      if length bytes \<ge> 2 then do {
        r0 \<leftarrow> get_at report 0;
        r1 \<leftarrow> get_at report 1;
        if r1 > 0x3F \<or> (r0 = 0xA5 \<and> r1 = 0x5A) then Some w
        else Some (apply_device_frame os i (Some r0) (Some r1) None SyntheticSource w)
      } else Some w)"

definition button_iteration :: "os \<Rightarrow> nat \<Rightarrow> rstr \<times> mai2_world \<Rightarrow> (rstr \<times> mai2_world) flow option" where
  "button_iteration os i s =
     (let (path, w) = s; (r, w) = hid_read os path MAI2_BUTTON_HID_REPORT_LEN w
      in case r of
           None \<Rightarrow> Some (Leave (path, w))
         | Some bytes \<Rightarrow>
             if bytes = [] then Some (Go (path, w))
             else map_option (\<lambda>w. Go (path, w)) (button_report os i bytes w))"

definition button_thread_step ::
  "os \<Rightarrow> nat \<Rightarrow> hid_flags \<times> rstr option \<times> mai2_world \<Rightarrow>
     (hid_flags \<times> rstr option \<times> mai2_world) option" where
  "button_thread_step os i =
     hid_thread_step os ButtonHid i (\<lambda>path w. (path, w)) (\<lambda>path. path) (button_iteration os i)"

section \<open>The callback thread\<close>

record callback_locals =
  kl_last_diag_ms :: u64
  kl_last_touch_frames :: u64
  kl_last_serial_frames :: u64
  kl_last_touch_hid_frames :: u64
  kl_last_callback_frames :: u64
  kl_last_heartbeat_writes :: u64
  kl_last_led_writes :: u64
  kl_last_led_button_writes :: u64
  kl_last_led_billboard_writes :: u64
  kl_last_led_pwm_writes :: u64

type_synonym kt_state = "callback_locals \<times> mai2_world"

definition callback_locals_init :: "os \<Rightarrow> mai2_world \<Rightarrow> kt_state" where
  "callback_locals_init os w =
     (let (now, w) = w_tick os w
      in (\<lparr>kl_last_diag_ms = now, kl_last_touch_frames = 0, kl_last_serial_frames = 0,
           kl_last_touch_hid_frames = 0, kl_last_callback_frames = 0, kl_last_heartbeat_writes = 0,
           kl_last_led_writes = 0, kl_last_led_button_writes = 0, kl_last_led_billboard_writes = 0,
           kl_last_led_pwm_writes = 0\<rparr>, w))"

text \<open>The game is called after the callback mutex has been released.\<close>

definition mai2_invoke_callback :: "nat \<Rightarrow> u8 list \<Rightarrow> mai2_world \<Rightarrow> mai2_world" where
  "mai2_invoke_callback i touch w =
     (let w = w\<lparr>mw_hist := mw_hist w @ [EvCallbackLock, EvCallbackUnlock]\<rparr>
      in case mw_callback w of
           None \<Rightarrow> w
         | Some callback \<Rightarrow>
             dev_update i (\<lambda>d. d\<lparr>dv_touch_callback_frames := dv_touch_callback_frames d + 1\<rparr>)
               (w\<lparr>mw_hist := mw_hist w @ [EvMai2Callback callback (dv_player (dev_of i w)) touch]\<rparr>))"

definition show_count :: "string \<Rightarrow> u64 \<Rightarrow> u64 \<Rightarrow> rstr" where
  "show_count label now_count last_count =
     lit label @ show_dec (unat now_count) @ lit '' (+'' @ show_dec (unat (saturating_sub now_count last_count)) @ lit '')''"

definition diag_link :: "mai2_device \<Rightarrow> u64 \<Rightarrow> rstr" where
  "diag_link d now =
     (let last_update_ms = dv_touch_last_update_ms d;
          last_update_age = (if last_update_ms = 0 then -1 else saturating_sub now last_update_ms);
          last_update_display =
            (if last_update_age = -1 then lit ''never'' else show_dec (unat last_update_age) @ lit ''ms'')
      in lit ''P'' @ show_dec (unat (dv_player d)) @ lit '' diag link  buttons_hid='' @ show_bit (dv_hid_connected d) @
         lit '' vendor_hid='' @ show_bit (dv_vendor_connected d) @
         lit '' touch_hid='' @ show_bit (dv_touch_hid_connected d) @
         lit '' suspend='' @ show_bit (dv_led_suspended d) @
         lit '' reconn=s'' @ show_dec (unat (dv_serial_reconnects d)) @
         lit ''/v'' @ show_dec (unat (dv_vendor_reconnects d)) @
         lit '' last_update='' @ last_update_display)"

definition diag_rate :: "mai2_device \<Rightarrow> callback_locals \<Rightarrow> rstr" where
  "diag_rate d l =
     lit ''P'' @ show_dec (unat (dv_player d)) @ lit '' diag rate'' @
     show_count ''  touch='' (dv_touch_frames d) (kl_last_touch_frames l) @
     show_count '' cdc='' (dv_touch_serial_frames d) (kl_last_serial_frames l) @
     show_count '' touch_hid='' (dv_touch_hid_frames d) (kl_last_touch_hid_frames l) @
     show_count '' cb='' (dv_touch_callback_frames d) (kl_last_callback_frames l) @
     show_count '' hb='' (dv_heartbeat_writes d) (kl_last_heartbeat_writes l) @
     lit '' hb_fail='' @ show_dec (unat (dv_heartbeat_failures d))"

definition diag_led :: "mai2_device \<Rightarrow> callback_locals \<Rightarrow> u8 list \<Rightarrow> rstr" where
  "diag_led d l touch =
     lit ''P'' @ show_dec (unat (dv_player d)) @ lit '' diag led '' @
     show_count ''  set='' (dv_led_writes d) (kl_last_led_writes l) @
     show_count '' btn='' (dv_led_button_writes d) (kl_last_led_button_writes l) @
     show_count '' bb='' (dv_led_billboard_writes d) (kl_last_led_billboard_writes l) @
     show_count '' pwm='' (dv_led_pwm_writes d) (kl_last_led_pwm_writes l) @
     lit '' fail='' @ show_dec (unat (dv_led_failures d)) @ lit '' | touch='' @
     show_HEX 2 (unat (touch ! 0)) @ concat (map (\<lambda>b. lit '' '' @ show_HEX 2 (unat b)) (take 6 (drop 1 touch)))"

definition log_diag_lines :: "nat \<Rightarrow> u64 \<Rightarrow> u8 list \<Rightarrow> kt_state \<Rightarrow> kt_state" where
  "log_diag_lines i now touch s =
     (let (l, w) = s; d = dev_of i w;
          w = w_log LogDiag (diag_link d now) w;
          w = w_log LogDiag (diag_rate d l) w;
          w = w_log LogDiag (diag_led d l touch) w
      in (l\<lparr>kl_last_diag_ms := now, kl_last_touch_frames := dv_touch_frames d,
            kl_last_serial_frames := dv_touch_serial_frames d,
            kl_last_touch_hid_frames := dv_touch_hid_frames d,
            kl_last_callback_frames := dv_touch_callback_frames d,
            kl_last_heartbeat_writes := dv_heartbeat_writes d,
            kl_last_led_writes := dv_led_writes d,
            kl_last_led_button_writes := dv_led_button_writes d,
            kl_last_led_billboard_writes := dv_led_billboard_writes d,
            kl_last_led_pwm_writes := dv_led_pwm_writes d\<rparr>, w))"

definition callback_serve :: "os \<Rightarrow> nat \<Rightarrow> kt_state \<Rightarrow> kt_state" where
  "callback_serve os i s =
     (let (l, w) = s;
          (page, w) = input_read os i w;
          touch = ip_touch page;
          w = mai2_invoke_callback i touch w;
          (now, w) = w_tick os w
      in if dv_diag (dev_of i w) \<and> saturating_sub now (kl_last_diag_ms l) \<ge> AFFINE_TOUCH_DIAG_INTERVAL_MS
         then log_diag_lines i now touch (l, w) else (l, w))"

text \<open>The output page is read only for an enabled device.\<close>

definition callback_iteration :: "os \<Rightarrow> nat \<Rightarrow> kt_state \<Rightarrow> kt_state" where
  "callback_iteration os i s =
     (let (l, w) = s;
          (wanted, w) =
            (if dv_enabled (dev_of i w)
             then (let (output, w) = output_read os i w in (op_touch_enabled output \<noteq> 0, w)) else (False, w));
          (l, w) = (if wanted then callback_serve os i (l, w) else (l, w))
      in (l, w_sleep 1 w))"

section \<open>What the threads leave alone\<close>

text \<open>The flags of a device and the HID devices open in a history.\<close>

definition source_flags :: "mai2_device \<Rightarrow> bool \<times> bool \<times> bool \<times> bool" where
  "source_flags d = (dv_enabled d, dv_hid_connected d, dv_vendor_connected d, dv_touch_hid_connected d)"

fun hid_opened :: "event \<Rightarrow> int" where
  "hid_opened (EvHidOpen path ok) = (if ok then 1 else 0)"
| "hid_opened (EvHidClose path) = -1"
| "hid_opened e = 0"

definition hid_balance :: "history \<Rightarrow> int" where
  "hid_balance h = sum_list (map hid_opened h)"

lemma hid_balance_append [simp]: "hid_balance (h @ es) = hid_balance h + hid_balance es"
  by (simp add: hid_balance_def)

lemma hid_balance_Cons [simp]: "hid_balance (e # es) = hid_opened e + hid_balance es"
  by (simp add: hid_balance_def)

lemma hid_balance_Nil [simp]: "hid_balance [] = 0"
  by (simp add: hid_balance_def)

text \<open>
  What every operation of the threads but \<open>attach\<close> and \<open>detach\<close> keeps: the flags of all devices, the
  HID devices open, the fade latches, the output pages and whether \<open>init\<close> was called.
\<close>

definition hid_sig ::
  "mai2_world \<Rightarrow> (nat \<Rightarrow> bool \<times> bool \<times> bool \<times> bool) \<times> int \<times> (nat \<Rightarrow> u8 list) \<times> mai2_output_page memory \<times> bool" where
  "hid_sig w = (\<lambda>j. source_flags (dev_of j w), hid_balance (mw_hist w), mw_led_start_latch w, mw_output_mem w,
     mw_initialized w)"

text \<open>The touch array of an input page has seven bytes, in whichever view.\<close>

definition inputs_typed :: "mai2_world \<Rightarrow> bool" where
  "inputs_typed w \<longleftrightarrow> (\<forall>a. length (ip_touch (mw_input_mem w a)) = 7)"

definition touch_typed :: "u8 list option \<Rightarrow> bool" where
  "touch_typed t = (case t of None \<Rightarrow> True | Some v \<Rightarrow> length v = 7)"

lemma touch_typed_simps [simp]: "touch_typed None" "touch_typed (Some v) = (length v = 7)"
  by (simp_all add: touch_typed_def)

lemma hid_sig_simps [mai2_simps]:
  "hid_sig (input_update os j g w) = hid_sig w"
  "hid_sig (input_write os j p w) = hid_sig w"
  "hid_sig (snd (input_read os j w)) = hid_sig w"
  "hid_sig (snd (output_read os j w)) = hid_sig w"
  "hid_sig (snd (w_tick os w)) = hid_sig w"
  "hid_sig (w_sleep ms w) = hid_sig w"
  "hid_sig (w_log tag msg w) = hid_sig w"
  "hid_sig (snd (hid_read os path cap w)) = hid_sig w"
  by (auto simp: hid_sig_def hid_read_def mai2_world_defs sleep_ms_def log_event_def split: prod.splits)

lemma hid_sig_dev [mai2_simps]:
  "(\<And>d. source_flags (f d) = source_flags d) \<Longrightarrow> hid_sig (dev_update j f w) = hid_sig w"
  by (auto simp: hid_sig_def mai2_world_defs fun_eq_iff)

lemma hid_sig_hist [mai2_simps]: "hid_balance h = hid_balance (mw_hist w) \<Longrightarrow> hid_sig (w\<lparr>mw_hist := h\<rparr>) = hid_sig w"
  by (simp add: hid_sig_def dev_of_def)

lemma input_mem_simps [mai2_simps]:
  "mw_input_mem (snd (input_read os j w)) = mw_input_mem w"
  "mw_input_mem (output_update os j k w) = mw_input_mem w"
  "mw_input_mem (snd (output_read os j w)) = mw_input_mem w"
  "mw_input_mem (dev_update j f w) = mw_input_mem w"
  "mw_input_mem (snd (w_tick os w)) = mw_input_mem w"
  "mw_input_mem (w_sleep ms w) = mw_input_mem w"
  "mw_input_mem (w_log tag msg w) = mw_input_mem w"
  "mw_input_mem (snd (hid_read os path cap w)) = mw_input_mem w"
  by (auto simp: hid_read_def mai2_world_defs split: prod.splits)

lemma inputs_typed_cong: "mw_input_mem w' = mw_input_mem w \<Longrightarrow> inputs_typed w' = inputs_typed w"
  by (simp add: inputs_typed_def)

lemma inputs_typed_keep [mai2_simps]:
  "inputs_typed (snd (input_read os j w)) = inputs_typed w"
  "inputs_typed (output_update os j k w) = inputs_typed w"
  "inputs_typed (snd (output_read os j w)) = inputs_typed w"
  "inputs_typed (dev_update j f w) = inputs_typed w"
  "inputs_typed (snd (w_tick os w)) = inputs_typed w"
  "inputs_typed (w_sleep ms w) = inputs_typed w"
  "inputs_typed (w_log tag msg w) = inputs_typed w"
  "inputs_typed (snd (hid_read os path cap w)) = inputs_typed w"
  "inputs_typed (w\<lparr>mw_hist := h\<rparr>) = inputs_typed w"
  by (auto intro!: inputs_typed_cong simp: mai2_simps)

lemma inputs_typed_update:
  "inputs_typed w \<Longrightarrow> (\<And>p. length (ip_touch p) = 7 \<Longrightarrow> length (ip_touch (g p)) = 7) \<Longrightarrow>
     inputs_typed (input_update os j g w)"
  by (simp add: inputs_typed_def mai2_world_defs)

lemma inputs_typed_updates [mai2_simps]:
  "inputs_typed w \<Longrightarrow> inputs_typed (input_update os j mark_input_connected w)"
  "inputs_typed w \<Longrightarrow> inputs_typed (input_update os j (clear_update bs ts) w)"
  "inputs_typed w \<Longrightarrow> touch_typed t \<Longrightarrow> inputs_typed (input_update os j (frame_update b s t) w)"
  "inputs_typed w \<Longrightarrow> inputs_typed (input_write os j mai2_input_default w)"
     apply (erule inputs_typed_update, simp add: mark_input_connected_def)
    apply (erule inputs_typed_update, simp add: clear_update_fields)
   apply (erule inputs_typed_update, auto simp: frame_update_def Let_def split: option.split)
  apply (simp add: inputs_typed_def mai2_world_defs mai2_input_default_def)
  done

lemma source_flags_counters [simp]:
  "source_flags (d\<lparr>dv_heartbeat_failures := n\<rparr>) = source_flags d"
  "source_flags (d\<lparr>dv_heartbeat_writes := n\<rparr>) = source_flags d"
  "source_flags (d\<lparr>dv_led_failures := n\<rparr>) = source_flags d"
  "source_flags (d\<lparr>dv_led_writes := n\<rparr>) = source_flags d"
  "source_flags (d\<lparr>dv_led_button_writes := n\<rparr>) = source_flags d"
  "source_flags (d\<lparr>dv_led_billboard_writes := n\<rparr>) = source_flags d"
  "source_flags (d\<lparr>dv_led_pwm_writes := n\<rparr>) = source_flags d"
  "source_flags (d\<lparr>dv_led_suspended := b\<rparr>) = source_flags d"
  "source_flags (d\<lparr>dv_touch_last_update_ms := n\<rparr>) = source_flags d"
  "source_flags (d\<lparr>dv_touch_callback_frames := n\<rparr>) = source_flags d"
  "source_flags (d\<lparr>dv_serial_reconnects := n\<rparr>) = source_flags d"
  "source_flags (d\<lparr>dv_vendor_reconnects := n\<rparr>) = source_flags d"
  "source_flags (count_touch src d) = source_flags d"
  by (auto simp: source_flags_def count_touch_def Let_def split: touch_source.splits)

lemma apply_device_frame_keeps [mai2_simps]:
  "hid_sig (apply_device_frame os i b s t src w) = hid_sig w"
  "inputs_typed w \<Longrightarrow> touch_typed t \<Longrightarrow> inputs_typed (apply_device_frame os i b s t src w)"
  by (auto simp: apply_device_frame_def Let_def split_beta mai2_simps)

lemma apply_parsed_touch_keeps [mai2_simps]:
  "hid_sig (apply_parsed_touch os i b s t src w) = hid_sig w"
  "inputs_typed w \<Longrightarrow> touch_typed t \<Longrightarrow> inputs_typed (apply_parsed_touch os i b s t src w)"
  by (simp_all add: apply_parsed_touch_def Let_def mai2_simps)

lemma clear_inputs_keeps [mai2_simps]:
  "hid_sig (clear_inputs_on_source_drop os i w) = hid_sig w"
  "inputs_typed w \<Longrightarrow> inputs_typed (clear_inputs_on_source_drop os i w)"
  by (simp_all add: clear_inputs_on_source_drop_def Let_def mai2_simps)

text \<open>Both at once, for the operations that do not write the input page.\<close>

definition thread_sig where "thread_sig w = (hid_sig w, mw_input_mem w)"

lemma thread_sig_iff: "thread_sig w' = thread_sig w \<longleftrightarrow> hid_sig w' = hid_sig w \<and> mw_input_mem w' = mw_input_mem w"
  by (auto simp: thread_sig_def)

lemma thread_sig_typed: "thread_sig w' = thread_sig w \<Longrightarrow> hid_sig w' = hid_sig w \<and> inputs_typed w' = inputs_typed w"
  by (simp add: thread_sig_iff inputs_typed_def)

lemma thread_sig_simps [mai2_simps]:
  "thread_sig (snd (input_read os j w)) = thread_sig w"
  "thread_sig (snd (output_read os j w)) = thread_sig w"
  "thread_sig (snd (w_tick os w)) = thread_sig w"
  "thread_sig (w_sleep ms w) = thread_sig w"
  "thread_sig (w_log tag msg w) = thread_sig w"
  "thread_sig (snd (hid_read os path cap w)) = thread_sig w"
  "(\<And>d. source_flags (f d) = source_flags d) \<Longrightarrow> thread_sig (dev_update j f w) = thread_sig w"
  "hid_balance h = hid_balance (mw_hist w) \<Longrightarrow> thread_sig (w\<lparr>mw_hist := h\<rparr>) = thread_sig w"
  by (simp_all add: thread_sig_def mai2_simps)

lemma vt_send_keeps [mai2_simps]: "thread_sig (snd (snd (vt_send os cmd payload s))) = thread_sig (snd s)"
  by (cases s) (auto simp: vt_send_def send_hid_frame_def mai2_simps Let_def split: option.splits)

fun frame_typed :: "parsed_frame \<Rightarrow> bool" where
  "frame_typed (FrameTouch b s t) = touch_typed t"
| "frame_typed (FrameBoardInfo v) = True"

lemma scan_typed: "scan xs = Emit f k \<Longrightarrow> frame_typed f"
  by (auto simp: scan_def split: if_splits)

lemma drain_typed: "f \<in> set (fst (drain xs)) \<Longrightarrow> frame_typed f"
proof (induction xs rule: drain.induct)
  case (1 xs)
  then show ?case
    by (cases "scan xs") (auto simp: drain.simps [of xs] split_beta Let_def dest: scan_typed)
qed

lemma vendor_frames_keep [mai2_simps]:
  "hid_sig (snd (fold (vendor_frame os i) fs s)) = hid_sig (snd s)"
  "inputs_typed (snd s) \<Longrightarrow> \<forall>f \<in> set fs. frame_typed f \<Longrightarrow> inputs_typed (snd (fold (vendor_frame os i) fs s))"
proof (induction fs arbitrary: s)
  case (Cons f fs)
  have one: "hid_sig (snd (vendor_frame os i f s)) = hid_sig (snd s) \<and>
      (inputs_typed (snd s) \<longrightarrow> frame_typed f \<longrightarrow> inputs_typed (snd (vendor_frame os i f s)))" for s
    by (cases f; cases s) (simp_all add: mai2_simps)
  { case 1 show ?case using one Cons.IH(1) by simp }
  { case 2 then show ?case using one Cons.IH(2) by simp }
qed simp_all

lemma and_then_keeps:
  "g (flow_state r) = c \<Longrightarrow> (\<And>s. r = Go s \<Longrightarrow> g s = c \<Longrightarrow> g (flow_state (f s)) = c) \<Longrightarrow>
     g (flow_state (and_then r f)) = c"
  by (cases r) auto

lemma vt_steps_keep [mai2_simps]:
  "thread_sig (snd (flow_state (vt_heartbeat os i now s))) = thread_sig (snd s)"
  "thread_sig (snd (flow_state (vt_board_info os i now s))) = thread_sig (snd s)"
  "(\<And>d. source_flags (count d) = source_flags d) \<Longrightarrow>
     thread_sig (snd (flow_state (vt_led os i changed cmd payload count seen s))) = thread_sig (snd s)"
  using vt_send_keeps [of os]
  by (cases s; auto simp: vt_heartbeat_def vt_board_info_def vt_led_def Let_def split_beta mai2_simps)+

lemma vt_leds_keep [mai2_simps]: "thread_sig (snd (flow_state (vt_leds os i output s))) = thread_sig (snd s)"
  unfolding vt_leds_def
  by (intro and_then_keeps [where g = "\<lambda>s. thread_sig (snd s)"]) (simp_all add: mai2_simps)

lemma hid_read_outcome:
  assumes "hid_read os path cap w = (r, w')"
  shows "thread_sig w' = thread_sig w" and "r = Some bytes \<Longrightarrow> length bytes \<le> cap"
  using assms thread_sig_simps(6) [of os path cap w] by (auto simp: hid_read_def)

text \<open>What an operation that may write the input page keeps.\<close>

definition keeps_world :: "mai2_world \<Rightarrow> mai2_world \<Rightarrow> bool" where
  "keeps_world w w' \<longleftrightarrow> hid_sig w' = hid_sig w \<and> (inputs_typed w \<longrightarrow> inputs_typed w')"

lemma keeps_world_sig: "thread_sig w' = thread_sig w \<Longrightarrow> keeps_world w w'"
  by (drule thread_sig_typed) (simp add: keeps_world_def)

lemma keeps_world_trans: "keeps_world w w1 \<Longrightarrow> keeps_world w1 w2 \<Longrightarrow> keeps_world w w2"
  by (simp add: keeps_world_def)

lemma keeps_world_frame: "touch_typed t \<Longrightarrow> keeps_world w (apply_device_frame os i b s t src w)"
  by (simp add: keeps_world_def mai2_simps)

lemma vendor_read_keeps:
  "\<exists>ok s'. vendor_command_read_once os i s = Some (ok, s') \<and> keeps_world (snd s) (snd s')"
proof -
  obtain l w where s: "s = (l, w)" by (cases s)
  obtain r w1 where r: "hid_read os (vl_path l) MAI2_VENDOR_HID_REPORT_LEN w = (r, w1)"
    by (cases "hid_read os (vl_path l) MAI2_VENDOR_HID_REPORT_LEN w")
  note w1 = keeps_world_sig [OF hid_read_outcome(1) [OF r]]
  show ?thesis
  proof (cases r)
    case None
    then show ?thesis using w1 by (intro exI [of _ False]) (simp add: s r vendor_command_read_once_def)
  next
    case (Some bytes)
    then have n: "length bytes \<le> 65"
      using hid_read_outcome(2) [OF r] by (simp add: MAI2_VENDOR_HID_REPORT_LEN_def)
    let ?buf = "bytes @ replicate (512 - length bytes) 0"
    have "buf_ok ?buf (length bytes)" using n by (simp add: buf_ok_def AFFINE_SERIAL_RX_BUF_LEN_def)
    from drain_frames_refines [OF this] obtain rx where
      fs: "drain_frames ?buf (length bytes) = Some (fst (drain bytes), rx)" by auto
    have seg: "slice (bytes @ replicate (65 - length bytes) 0) 0 (length bytes) = Some bytes"
      using n by (simp add: slice_def)
    have "keeps_world w1 (snd (fold (vendor_frame os i) (fst (drain bytes)) (l, w1)))"
      using vendor_frames_keep [where os = os and i = i and fs = "fst (drain bytes)" and s = "(l, w1)"] drain_typed [of _ bytes]
      by (simp add: keeps_world_def)
    from keeps_world_trans [OF w1 this] show ?thesis
      using Some fs seg n r [unfolded MAI2_VENDOR_HID_REPORT_LEN_def]
        keeps_world_sig [OF hid_read_outcome(1) [OF r]]
      by (cases rx; cases "fold (vendor_frame os i) (fst (drain bytes)) (l, w1)")
        (auto simp: s vendor_command_read_once_def MAI2_VENDOR_HID_REPORT_LEN_def AFFINE_SERIAL_RX_BUF_LEN_def)
  qed
qed

lemma vendor_iteration_keeps:
  "\<exists>r. vendor_iteration os i s = Some r \<and> keeps_world (snd s) (snd (flow_state r))"
proof -
  obtain ok l w where v: "vendor_command_read_once os i s = Some (ok, l, w)" "keeps_world (snd s) w"
    using vendor_read_keeps [of os i s] by auto
  obtain now w1 where t: "w_tick os w = (now, w1)" by (cases "w_tick os w")
  have w1: "thread_sig w1 = thread_sig w" using t thread_sig_simps(3) [of os w] by simp
  have "thread_sig (snd (flow_state (and_then (vt_heartbeat os i now (l, w1)) (\<lambda>s.
        and_then (vt_board_info os i now s) (\<lambda>s.
          let (output, w) = output_read os i (snd s) in vt_leds os i output (fst s, w)))))) =
      thread_sig w"
    by (intro and_then_keeps [where g = "\<lambda>s. thread_sig (snd s)"])
      (simp_all add: mai2_simps w1 split_beta Let_def)
  from keeps_world_trans [OF v(2) keeps_world_sig [OF this]] show ?thesis
    using v t keeps_world_sig [of "snd s" "snd s"] by (simp add: vendor_iteration_def)
qed

lemma length_pack_legacy [simp]: "length (pack_legacy_touch_bits tb) = 7"
  by (simp add: pack_legacy_touch_bits_def)

lemma assembler_push_length: "snd (assembler_push a p) = Some t \<Longrightarrow> length t = 7"
  by (auto simp: assembler_push_def Let_def split: if_splits)

lemma touch_report_keeps:
  "\<exists>s'. touch_report os i bytes s = Some s' \<and> keeps_world (snd s) (snd s') \<and>
     (assembler_wf (tl_assembler (fst s)) \<longrightarrow> assembler_wf (tl_assembler (fst s')))"
proof -
  obtain l w where s: "s = (l, w)" by (cases s)
  obtain part where p: "parse_touch_hid_part bytes = Some part" "\<And>p. part = Some p \<Longrightarrow> part_ok p"
    using parse_touch_hid_part_ok [of bytes] by auto
  show ?thesis
  proof (cases part)
    case None
    then show ?thesis using p keeps_world_sig [of w w] by (simp add: s touch_report_def)
  next
    case (Some q)
    obtain a r where a: "assembler_push (tl_assembler l) q = (a, r)" by (cases "assembler_push (tl_assembler l) q")
    have "keeps_world w (case r of None \<Rightarrow> w
        | Some touch \<Rightarrow> apply_device_frame os i None None (Some touch) TouchHidSource w)"
      using keeps_world_sig [of w w] a assembler_push_length [of "tl_assembler l" q]
      by (auto intro: keeps_world_frame split: option.split)
    then show ?thesis
      using p a Some assembler_push_pairs [of "tl_assembler l" q] by (auto simp: s touch_report_def)
  qed
qed

lemma touch_iteration_keeps:
  "\<exists>r. touch_iteration os i s = Some r \<and> keeps_world (snd s) (snd (flow_state r)) \<and>
     (assembler_wf (tl_assembler (fst s)) \<longrightarrow> assembler_wf (tl_assembler (fst (flow_state r))))"
proof -
  obtain l w where s: "s = (l, w)" by (cases s)
  obtain r w1 where r: "hid_read os (tl_path l) MAI2_TOUCH_HID_READ_BUF_LEN w = (r, w1)"
    by (cases "hid_read os (tl_path l) MAI2_TOUCH_HID_READ_BUF_LEN w")
  note w1 = keeps_world_sig [OF hid_read_outcome(1) [OF r]] and w0 = keeps_world_sig [of w w]
  show ?thesis
  proof (cases r)
    case None
    then show ?thesis using w0 w1 r by (simp add: s touch_iteration_def)
  next
    case (Some bytes)
    from touch_report_keeps [of os i bytes "(l, w1)"] obtain s' where
      t: "touch_report os i bytes (l, w1) = Some s'" "keeps_world w1 (snd s')"
      "assembler_wf (tl_assembler l) \<longrightarrow> assembler_wf (tl_assembler (fst s'))" by auto
    from keeps_world_trans [OF w1 t(2)] show ?thesis
      using Some w0 w1 r t by (simp add: s touch_iteration_def)
  qed
qed

text \<open>The test for the debug stream never decides: its second byte is not a button status either.\<close>

lemma button_report_eq:
  "button_report os i bytes w =
     Some (case bytes of
         r0 # r1 # rest \<Rightarrow>
           if r1 > 0x3F then w else apply_device_frame os i (Some r0) (Some r1) None SyntheticSource w
       | _ \<Rightarrow> w)"
  by (auto simp: button_report_def access_simps Let_def split: list.split)

lemma button_report_keeps:
  "\<exists>w'. button_report os i bytes w = Some w' \<and> keeps_world w w'"
  using keeps_world_sig [of w w]
  by (auto simp: button_report_eq keeps_world_frame split: list.split)

lemma button_iteration_keeps:
  "\<exists>r. button_iteration os i s = Some r \<and> keeps_world (snd s) (snd (flow_state r))"
proof -
  obtain path w where s: "s = (path, w)" by (cases s)
  obtain r w1 where r: "hid_read os path MAI2_BUTTON_HID_REPORT_LEN w = (r, w1)"
    by (cases "hid_read os path MAI2_BUTTON_HID_REPORT_LEN w")
  note w1 = keeps_world_sig [OF hid_read_outcome(1) [OF r]]
  show ?thesis
  proof (cases r)
    case None
    then show ?thesis using w1 r by (simp add: s button_iteration_def)
  next
    case (Some bytes)
    from button_report_keeps [of os i bytes w1] obtain w' where
      "button_report os i bytes w1 = Some w'" "keeps_world w1 w'" by blast
    then show ?thesis using Some w1 r keeps_world_trans [OF w1] by (auto simp: s button_iteration_def)
  qed
qed

section \<open>Attaching and detaching\<close>

lemma is_connected_set [simp]:
  "is_connected k (set_connected k' b d) = (if k = k' then b else is_connected k d)"
  "dv_enabled (set_connected k' b d) = dv_enabled d"
  by (cases k'; cases k; simp)+

lemma is_connected_flags: "source_flags d = source_flags d' \<Longrightarrow> is_connected k d = is_connected k d'"
  by (cases k) (simp_all add: source_flags_def)

text \<open>
  What a thread of one kind and player leaves to the others: the flags other than its own, the fade
  latches, the output pages and whether \<open>init\<close> was called.
\<close>

definition others :: "hid_kind \<Rightarrow> nat \<Rightarrow> mai2_world \<Rightarrow>
    (hid_kind \<Rightarrow> nat \<Rightarrow> bool) \<times> (nat \<Rightarrow> u8 list) \<times> mai2_output_page memory \<times> bool" where
  "others kind i w =
     (\<lambda>k j. is_connected k (dev_of j w) \<and> (k \<noteq> kind \<or> j \<noteq> i), mw_led_start_latch w, mw_output_mem w,
      mw_initialized w)"

lemma others_sig:
  assumes "hid_sig w' = hid_sig w"
  shows "is_connected k (dev_of j w') = is_connected k (dev_of j w)"
    and "hid_balance (mw_hist w') = hid_balance (mw_hist w)"
    and "others kind i w' = others kind i w"
proof -
  have "source_flags (dev_of j w') = source_flags (dev_of j w)" for j
    using assms by (metis (no_types, lifting) fst_conv hid_sig_def)
  then show flags: "is_connected k (dev_of j w') = is_connected k (dev_of j w)" for k j
    by (rule is_connected_flags)
  show "hid_balance (mw_hist w') = hid_balance (mw_hist w)" "others kind i w' = others kind i w"
    using assms flags by (simp_all add: hid_sig_def others_def)
qed

lemma hid_balance_simps [mai2_simps]:
  "hid_balance (mw_hist (dev_update j f w)) = hid_balance (mw_hist w)"
  "hid_balance (mw_hist (input_update os j g w)) = hid_balance (mw_hist w)"
  "hid_balance (mw_hist (w_sleep ms w)) = hid_balance (mw_hist w)"
  "hid_balance (mw_hist (w_log tag msg w)) = hid_balance (mw_hist w)"
  by (auto simp: mai2_world_defs sleep_ms_def log_event_def split: prod.splits)

lemma hist_update_dev [mai2_simps]: "dev_of i (w\<lparr>mw_hist := h\<rparr>) = dev_of i w"
  by (simp add: dev_of_def)

lemma others_simps [mai2_simps]:
  "others kind i (input_update os j g w) = others kind i w"
  "others kind i (w_sleep ms w) = others kind i w"
  "others kind i (w_log tag msg w) = others kind i w"
  "others kind i (w\<lparr>mw_hist := h\<rparr>) = others kind i w"
  "others kind i (dev_update i (set_connected kind b) w) = others kind i w"
  "(\<And>d. source_flags (f d) = source_flags d) \<Longrightarrow> others kind i (dev_update j f w) = others kind i w"
       apply (rule others_sig(3), simp add: mai2_simps)
      apply (rule others_sig(3), simp add: mai2_simps)
     apply (rule others_sig(3), simp add: mai2_simps)
    apply (simp add: others_def dev_of_def)
   apply (auto simp: others_def mai2_simps dev_update_def fun_eq_iff dev_of_def)[1]
  apply (rule others_sig(3), simp add: mai2_simps)
  done

lemma warn_once_simps [mai2_simps]:
  "dev_of i (warn_once j logged msg w) = dev_of i w"
  "hid_balance (mw_hist (warn_once j logged msg w)) = hid_balance (mw_hist w)"
  "others kind i (warn_once j logged msg w) = others kind i w"
  "inputs_typed (warn_once j logged msg w) = inputs_typed w"
  by (simp_all add: warn_once_def mai2_simps)

lemma attached_simps [mai2_simps]:
  "is_connected k (dev_of i (attached os kind i w)) = (k = kind \<or> is_connected k (dev_of i w))"
  "hid_balance (mw_hist (attached os kind i w)) = hid_balance (mw_hist w)"
  "others kind i (attached os kind i w) = others kind i w"
  "inputs_typed w \<Longrightarrow> inputs_typed (attached os kind i w)"
  by (cases kind; cases k; simp add: attached_def Let_def mai2_simps)+

lemma attach_outcome:
  assumes "\<not> is_connected kind (dev_of i w)" "attach os kind i fl w = (found, fl', w')"
  shows "is_connected kind (dev_of i w') \<longleftrightarrow> found \<noteq> None"
    and "hid_balance (mw_hist w') = hid_balance (mw_hist w) + (if found = None then 0 else 1)"
    and "others kind i w' = others kind i w"
    and "inputs_typed w \<Longrightarrow> inputs_typed w'"
  using assms
  by (auto simp: attach_def attach_failed_def hid_api_new_def hid_open_def Let_def mai2_simps
      split: if_splits option.splits; metis)+

lemma detach_outcome:
  "is_connected kind (dev_of i (detach os kind i path w)) = False"
  "hid_balance (mw_hist (detach os kind i path w)) = hid_balance (mw_hist w) - 1"
  "others kind i (detach os kind i path w) = others kind i w"
  "inputs_typed w \<Longrightarrow> inputs_typed (detach os kind i path w)"
proof -
  let ?w = "dev_update i (set_connected kind False) w"
  have "hid_sig (clear_inputs_on_source_drop os i ?w) = hid_sig ?w" by (simp add: mai2_simps)
  note s = others_sig [OF this]
  show "is_connected kind (dev_of i (detach os kind i path w)) = False"
    "hid_balance (mw_hist (detach os kind i path w)) = hid_balance (mw_hist w) - 1"
    "others kind i (detach os kind i path w) = others kind i w"
    "inputs_typed w \<Longrightarrow> inputs_typed (detach os kind i path w)"
    using s by (simp_all add: detach_def Let_def mai2_simps)
qed

text \<open>
  A thread state in order: the flag says that the loop runs, and the loop has a device open.  What one
  iteration of a thread may do to the rest is \<open>hid_thread_effect\<close>.
\<close>

definition loop_count :: "'l option \<Rightarrow> int" where
  "loop_count loop = (if loop = None then 0 else 1)"

definition hid_conf_ok :: "hid_kind \<Rightarrow> nat \<Rightarrow> int \<Rightarrow> hid_flags \<times> 'l option \<times> mai2_world \<Rightarrow> bool" where
  "hid_conf_ok kind i base c =
     (let (fl, loop, w) = c
      in (is_connected kind (dev_of i w) \<longleftrightarrow> loop \<noteq> None) \<and>
         hid_balance (mw_hist w) = base + loop_count loop)"

text \<open>
  The contract of a HID thread's inner loop: it starts and runs without a panic, touches neither the
  flags nor the open devices, and keeps its own locals in order.  A thread with such a loop stays in
  order and leaves everything else as it is.
\<close>

fun thread_steps :: "('c \<Rightarrow> 'c option) \<Rightarrow> nat \<Rightarrow> 'c \<Rightarrow> 'c option" where
  "thread_steps step 0 c = Some c"
| "thread_steps step (Suc n) c = do { c \<leftarrow> step c; thread_steps step n c }"

locale hid_loop =
  fixes os :: os and kind :: hid_kind and i :: nat
    and start :: "rstr \<Rightarrow> mai2_world \<Rightarrow> 'l \<times> mai2_world"
    and path_of :: "'l \<Rightarrow> rstr"
    and body :: "'l \<times> mai2_world \<Rightarrow> ('l \<times> mai2_world) flow option"
    and locals_ok :: "'l \<Rightarrow> bool"
  assumes start: "keeps_world w (snd (start path w)) \<and> locals_ok (fst (start path w))"
    and body: "\<exists>r. body s = Some r \<and> keeps_world (snd s) (snd (flow_state r)) \<and>
      (locals_ok (fst s) \<longrightarrow> locals_ok (fst (flow_state r)))"
begin

lemma step_effect:
  assumes ok: "hid_conf_ok kind i base (fl, loop, w)"
  shows "\<exists>fl' loop' w'. hid_thread_step os kind i start path_of body (fl, loop, w) = Some (fl', loop', w') \<and>
    hid_conf_ok kind i base (fl', loop', w') \<and> others kind i w' = others kind i w \<and>
    (inputs_typed w \<longrightarrow> inputs_typed w') \<and>
    ((\<forall>l. loop = Some l \<longrightarrow> locals_ok l) \<longrightarrow> (\<forall>l. loop' = Some l \<longrightarrow> locals_ok l))"
proof (cases loop)
  case None
  obtain found fl' w' where a: "attach os kind i fl w = (found, fl', w')" by (cases "attach os kind i fl w")
  have off: "\<not> is_connected kind (dev_of i w)" "hid_balance (mw_hist w) = base"
    using ok None by (simp_all add: hid_conf_ok_def loop_count_def)
  note out = attach_outcome [OF off(1) a]
  show ?thesis
  proof (cases found)
    case None
    with out a \<open>loop = None\<close> off(2) show ?thesis
      by (simp add: hid_thread_step_def hid_conf_ok_def loop_count_def)
  next
    case (Some path)
    obtain l w2 where st: "start path w' = (l, w2)" by (cases "start path w'")
    with start [of w' path] have k: "hid_sig w2 = hid_sig w'" "inputs_typed w' \<longrightarrow> inputs_typed w2" "locals_ok l"
      by (simp_all add: keeps_world_def)
    from out a st Some \<open>loop = None\<close> off(2) k(2, 3) others_sig [OF k(1)] show ?thesis
      by (simp add: hid_thread_step_def hid_conf_ok_def loop_count_def)
  qed
next
  case (Some l)
  obtain r where r: "body (l, w) = Some r" "keeps_world w (snd (flow_state r))"
    "locals_ok l \<longrightarrow> locals_ok (fst (flow_state r))"
    using body [of "(l, w)"] by auto
  obtain l2 w2 where s: "flow_state r = (l2, w2)" by (cases "flow_state r")
  have k: "hid_sig w2 = hid_sig w" "inputs_typed w \<longrightarrow> inputs_typed w2" using r(2) s by (simp_all add: keeps_world_def)
  note same = others_sig [OF k(1)]
  show ?thesis
  proof (cases r)
    case (Go s')
    with r s k(2) same ok Some show ?thesis
      by (simp add: hid_thread_step_def hid_conf_ok_def loop_count_def)
  next
    case (Leave s')
    with r s k(2) same ok Some detach_outcome [where kind = kind and i = i and os = os and path = "path_of l2" and w = w2] show ?thesis
      by (simp add: hid_thread_step_def hid_conf_ok_def loop_count_def)
  qed
qed

lemma step_keeps:
  assumes "hid_conf_ok kind i base c"
  shows "\<exists>c'. hid_thread_step os kind i start path_of body c = Some c' \<and> hid_conf_ok kind i base c'"
proof -
  obtain fl loop w where "c = (fl, loop, w)" by (cases c)
  with step_effect [of base fl loop w] assms show ?thesis by fastforce
qed

lemma steps_keep:
  "hid_conf_ok kind i base c \<Longrightarrow>
     \<exists>c'. thread_steps (hid_thread_step os kind i start path_of body) n c = Some c' \<and> hid_conf_ok kind i base c'"
proof (induction n arbitrary: c)
  case (Suc n)
  from step_keeps [OF Suc.prems] Suc.IH show ?case by fastforce
qed simp

end

lemma vendor_start_keeps: "keeps_world w (snd (vendor_start os path w))"
  by (rule keeps_world_sig) (simp add: vendor_start_def Let_def split_beta mai2_simps)

interpretation vendor_loop: hid_loop os VendorHid i "vendor_start os" vl_path "vendor_iteration os i" "\<lambda>l. True" for os i
  by unfold_locales (simp add: vendor_start_keeps, use vendor_iteration_keeps in simp)

interpretation touch_loop: hid_loop os TouchHid i touch_start tl_path "touch_iteration os i"
    "\<lambda>l. assembler_wf (tl_assembler l)" for os i
  by unfold_locales (simp add: touch_start_def keeps_world_sig assembler_wf_def touch_hid_assembler_default_def,
      rule touch_iteration_keeps)

interpretation button_loop: hid_loop os ButtonHid i "\<lambda>path w. (path, w)" "\<lambda>path. path" "button_iteration os i" "\<lambda>l. True" for os i
  by unfold_locales (simp add: keeps_world_sig, use button_iteration_keeps in simp)

section \<open>Vendor reports\<close>

lemma drain_zeros: "drain (replicate n 0 @ xs) = drain xs"
proof (induction n)
  case (Suc n)
  have "scan (replicate (Suc n) 0 @ xs) = Skip" by (simp add: scan_def)
  with Suc show ?case by (simp add: drain.simps [of "0 # replicate n 0 @ xs"])
qed simp

lemma drain_padded:
  assumes "board_ok m"
  shows "drain (replicate pre 0 @ board_encode m @ replicate pad 0) = ([board_view m], [])"
  using drain_append [of "board_encode m" "replicate pad 0"] drain_board_encode [OF assms]
    drain_zeros [of pad "[]"]
  by (simp add: drain_zeros drain_waiting)

lemma vendor_frame_input:
  "input_of i (snd (vendor_frame os i f s)) =
     frame_effect (dv_hid_connected (dev_of i (snd s))) f (input_of i (snd s))"
  by (cases f; cases s) (simp_all add: apply_parsed_touch_def Let_def mai2_simps)

section \<open>The callback thread's histories\<close>

text \<open>Locks and unlocks match, and a game function is called only while the mutex is free.\<close>

fun calls_unlocked :: "bool \<Rightarrow> history \<Rightarrow> bool" where
  "calls_unlocked held [] = (\<not> held)"
| "calls_unlocked held (e # es) =
     (if e = EvCallbackLock then \<not> held \<and> calls_unlocked True es
      else if e = EvCallbackUnlock then held \<and> calls_unlocked False es
      else (ev_called e = [] \<or> \<not> held) \<and> calls_unlocked held es)"

lemma calls_unlocked_free:
  "(\<And>e. e \<in> set es \<Longrightarrow> e \<noteq> EvCallbackLock \<and> e \<noteq> EvCallbackUnlock) \<Longrightarrow> calls_unlocked False (es @ fs) = calls_unlocked False fs"
  by (induction es) auto

section \<open>Properties\<close>

text \<open>
  Each HID thread stays in order however often its devices appear, fail and vanish: it never
  panics, its connected flag is set exactly while it has a device open, and it has at most one
  device open, which it opened itself and closes before it opens the next.
\<close>

theorem mai2_hid_threads_own_devices:
  "(\<exists>c. thread_steps (vendor_thread_step os i) n
        (hid_flags_init, None, dev_update i (set_connected VendorHid False) w) = Some c \<and>
      hid_conf_ok VendorHid i (hid_balance (mw_hist w)) c) \<and>
   (\<exists>c. thread_steps (touch_thread_step os i) n
        (hid_flags_init, None, dev_update i (set_connected TouchHid False) w) = Some c \<and>
      hid_conf_ok TouchHid i (hid_balance (mw_hist w)) c) \<and>
   (\<exists>c. thread_steps (button_thread_step os i) n
        (hid_flags_init, None, dev_update i (set_connected ButtonHid False) w) = Some c \<and>
      hid_conf_ok ButtonHid i (hid_balance (mw_hist w)) c)"
proof -
  have init: "hid_conf_ok k i (hid_balance (mw_hist w)) (hid_flags_init, None, dev_update i (set_connected k False) w)" for k
    by (simp add: hid_conf_ok_def loop_count_def mai2_simps)
  show ?thesis
    unfolding vendor_thread_step_def touch_thread_step_def button_thread_step_def
    using vendor_loop.steps_keep [OF init] touch_loop.steps_keep [OF init] button_loop.steps_keep [OF init]
    by blast
qed

text \<open>
  A vendor report with one board message in it, wherever in the report's 65 bytes and padded with
  zeros, is taken over like the same message on the serial line.
\<close>

theorem mai2_vendor_report:
  assumes "board_ok m"
    and "pre + length (board_encode m) + pad \<le> 65"
    and "os_hid_read os (mw_hist w) (vl_path l) 65 = Some (replicate pre 0 @ board_encode m @ replicate pad 0)"
  shows "\<exists>l' w'. vendor_command_read_once os i (l, w) = Some (True, l', w') \<and>
    input_of i w' = frame_effect (dv_hid_connected (dev_of i w)) (board_view m) (input_of i w)"
proof -
  let ?bytes = "replicate pre 0 @ board_encode m @ replicate pad (0 :: u8)"
  have n: "length ?bytes \<le> 65" using assms(2) by simp
  have ne: "board_encode m \<noteq> []" by (cases m) (simp_all add: mai2_frame_def Let_def)
  let ?buf = "?bytes @ replicate (512 - length ?bytes) 0"
  have "buf_ok ?buf (length ?bytes)" using n by (simp add: buf_ok_def AFFINE_SERIAL_RX_BUF_LEN_def)
  from drain_frames_refines [OF this] obtain rx where
    rx: "drain_frames ?buf (length ?bytes) = Some ([board_view m], rx)"
    using drain_padded [OF assms(1), of pre pad] by (metis append_eq_conv_conj fst_conv)
  have seg: "slice (?bytes @ replicate (65 - length ?bytes) 0) 0 (length ?bytes) = Some ?bytes"
    using n by (simp add: slice_def)
  let ?w = "w\<lparr>mw_hist := mw_hist w @ [EvHidRead (vl_path l) 65]\<rparr>"
  have read: "hid_read os (vl_path l) 65 w = (Some ?bytes, ?w)"
    using assms(3) n by (simp add: hid_read_def)
  have w: "input_of i ?w = input_of i w" "dev_of i ?w = dev_of i w" by (simp_all add: mai2_world_defs)
  show ?thesis
    using rx seg ne n vendor_frame_input [of i os "board_view m" "(l, ?w)"]
    by (cases rx; cases "vendor_frame os i (board_view m) (l, ?w)")
      (simp add: vendor_command_read_once_def MAI2_VENDOR_HID_REPORT_LEN_def AFFINE_SERIAL_RX_BUF_LEN_def
        read w del: append_assoc)
qed

theorem mai2_vendor_report_witness:
  "\<exists>l' w'. vendor_command_read_once (willing_os\<lparr>os_hid_read := \<lambda>h p n. Some [0, 0x28, 1, 2, 3, 4, 5, 6, 7, 0x29, 0]\<rparr>)
       1 (fst (vendor_start willing_os (lit ''hid'') mai2_demo_world), mai2_demo_world) = Some (True, l', w') \<and>
     ip_touch (input_of 1 w') = [1, 2, 3, 4, 5, 6, 7]"
  using mai2_vendor_report [of "MsgLegacyTouch [1, 2, 3, 4, 5, 6, 7]" 1 1
      "willing_os\<lparr>os_hid_read := \<lambda>h p n. Some [0, 0x28, 1, 2, 3, 4, 5, 6, 7, 0x29, 0]\<rparr>"
      mai2_demo_world "fst (vendor_start willing_os (lit ''hid'') mai2_demo_world)" 1]
  by (fastforce simp: frame_update_def Let_def)

text \<open>
  C18. The touch callback is called with the state of the input page, once per iteration and only for
  an enabled player whose touch the game has switched on, and never while the callback mutex is
  held; the iteration leaves the input page alone.
\<close>

theorem mai2_callback_unlocked:
  "\<exists>es. mw_hist (snd (callback_iteration os i (l, w))) = mw_hist w @ es \<and> calls_unlocked False es \<and>
     called es = (if dv_enabled (dev_of i w) \<and> op_touch_enabled (output_of i w) \<noteq> 0
       then map (\<lambda>f. EvMai2Callback f (dv_player (dev_of i w)) (ip_touch (input_of i w))) (opt_list (mw_callback w))
       else []) \<and>
     input_of i (snd (callback_iteration os i (l, w))) = input_of i w"
proof (cases "dv_enabled (dev_of i w) \<and> op_touch_enabled (output_of i w) \<noteq> 0")
  case False
  then show ?thesis
    by (auto simp: callback_iteration_def mai2_world_defs sleep_ms_def Let_def split_beta)
next
  case True
  then show ?thesis
    by (cases "mw_callback w")
      (auto simp: callback_iteration_def callback_serve_def mai2_invoke_callback_def log_diag_lines_def
        mai2_world_defs sleep_ms_def log_event_def Let_def split_beta)
qed

end
