(* ===== verification/Mai2_Sources.thy ===== *)
theory Mai2_Sources
  imports Mai2_Hid_Threads
begin

text \<open>
  The sources of one player's input page at the grain of their atomic accesses.  Five threads write
  the page of a \<open>DeviceHandle\<close>: the serial reader, the device thread when it opens and disconnects the
  session, and the vendor, touch and button HID threads.  Every page access is under the page's
  mutex and every flag access is a sequentially consistent atomic, so an execution is a sequence of
  such accesses; between a thread's accesses the others may run.  \<open>source_step\<close> makes the next
  access of one thread, \<open>source_run\<close> any interleaving of them, and the lemmas at the end say that a
  drop and a disconnect that are not interrupted are the functions \<open>clear_inputs_on_source_drop\<close> and
  \<open>disconnect_session\<close> of the sequential model.
\<close>

section \<open>The machine\<close>

text \<open>
  A HID thread that searches, that runs its loop (with the value of \<open>hid_connected\<close> it has loaded for a
  frame it is about to apply), or that is inside \<open>clear_inputs_on_source_drop\<close>: about to load one of
  the flags, or to update the page.
\<close>

datatype hid_phase =
    HidOff
  | HidOn "bool option"
  | DropLoadHid
  | DropLoadVendor
  | DropLoadTouch bool
  | DropLoadVendorAgain bool
  | DropPage bool bool

text \<open>
  The serial side: no session; a session with its reader, which may have loaded \<open>hid_connected\<close>; or
  \<open>disconnect_session\<close> after the reader was joined, about to load a flag or to write the page.
\<close>

datatype serial_phase =
    NoSession
  | Session "bool option"
  | DiscLoadVendor
  | DiscLoadTouch
  | DiscLoadHid
  | DiscPage bool

record sources =
  sy_dev :: mai2_device
  sy_page :: mai2_input_page
  sy_hid :: "hid_kind \<Rightarrow> hid_phase"
  sy_serial :: serial_phase

datatype source_event =
    HidAttach hid_kind
  | HidMark hid_kind
  | VendorLook
  | HidFrame hid_kind "u8 option" "u8 option" "u8 list option"
  | HidLost hid_kind
  | HidDrop hid_kind
  | SerialOpen
  | SerialMark
  | SerialLook
  | SerialFrame "u8 option" "u8 option" "u8 list option"
  | SerialLost
  | SerialDisc

definition hid_goes :: "hid_kind \<Rightarrow> hid_phase \<Rightarrow> sources \<Rightarrow> sources" where
  "hid_goes k ph s = s\<lparr>sy_hid := (sy_hid s)(k := ph)\<rparr>"

text \<open>The next access of \<open>clear_inputs_on_source_drop\<close>; \<open>||\<close> loads its second flag only if it has to.\<close>

definition drop_step :: "hid_kind \<Rightarrow> sources \<Rightarrow> sources option" where
  "drop_step k s =
     (case sy_hid s k of
        DropLoadHid \<Rightarrow>
          Some (hid_goes k (if dv_hid_connected (sy_dev s) then DropLoadTouch True else DropLoadVendor) s)
      | DropLoadVendor \<Rightarrow> Some (hid_goes k (DropLoadTouch (dv_vendor_connected (sy_dev s))) s)
      | DropLoadTouch buttons_live \<Rightarrow>
          Some (hid_goes k (if dv_touch_hid_connected (sy_dev s) then DropPage buttons_live True
                            else DropLoadVendorAgain buttons_live) s)
      | DropLoadVendorAgain buttons_live \<Rightarrow>
          Some (hid_goes k (DropPage buttons_live (dv_vendor_connected (sy_dev s))) s)
      | DropPage buttons_live touch_live \<Rightarrow>
          Some ((hid_goes k HidOff s)\<lparr>sy_page :=
            (if buttons_live \<and> touch_live then sy_page s
             else clear_update buttons_live touch_live (sy_page s))\<rparr>)
      | _ \<Rightarrow> None)"

text \<open>The next access of \<open>disconnect_session\<close>.\<close>

definition disc_step :: "sources \<Rightarrow> sources option" where
  "disc_step s =
     (case sy_serial s of
        DiscLoadVendor \<Rightarrow>
          Some (s\<lparr>sy_serial := (if dv_vendor_connected (sy_dev s) then DiscPage True else DiscLoadTouch)\<rparr>)
      | DiscLoadTouch \<Rightarrow>
          Some (s\<lparr>sy_serial := (if dv_touch_hid_connected (sy_dev s) then DiscPage True else DiscLoadHid)\<rparr>)
      | DiscLoadHid \<Rightarrow> Some (s\<lparr>sy_serial := DiscPage (dv_hid_connected (sy_dev s))\<rparr>)
      | DiscPage live \<Rightarrow>
          Some (s\<lparr>sy_serial := NoSession,
                  sy_page := (if live then mark_input_connected (sy_page s) else mai2_input_default)\<rparr>)
      | _ \<Rightarrow> None)"

text \<open>A frame of the vendor or the serial stream, with the flag that was loaded for it.\<close>

definition looked_frame ::
  "bool \<Rightarrow> u8 option \<Rightarrow> u8 option \<Rightarrow> u8 list option \<Rightarrow> mai2_input_page \<Rightarrow> mai2_input_page" where
  "looked_frame hid buttons0 io_status touch =
     frame_update (if \<not> hid then buttons0 else None) (if \<not> hid then io_status else None) touch"

fun source_step :: "source_event \<Rightarrow> sources \<Rightarrow> sources option" where
  "source_step (HidAttach k) s =
     (if sy_hid s k = HidOff
      then Some ((hid_goes k (HidOn None) s)\<lparr>sy_dev := set_connected k True (sy_dev s)\<rparr>) else None)"
| "source_step (HidMark k) s =
     (if sy_hid s k = HidOn None \<and> k \<noteq> ButtonHid
      then Some (s\<lparr>sy_page := mark_input_connected (sy_page s)\<rparr>) else None)"
| "source_step VendorLook s =
     (if sy_hid s VendorHid = HidOn None
      then Some (hid_goes VendorHid (HidOn (Some (dv_hid_connected (sy_dev s)))) s) else None)"
| "source_step (HidFrame VendorHid b io t) s =
     (case sy_hid s VendorHid of
        HidOn (Some hid) \<Rightarrow>
          Some ((hid_goes VendorHid (HidOn None) s)\<lparr>sy_page := looked_frame hid b io t (sy_page s)\<rparr>)
      | _ \<Rightarrow> None)"
| "source_step (HidFrame TouchHid b io t) s =
     (if sy_hid s TouchHid = HidOn None
      then Some (s\<lparr>sy_page := frame_update None None t (sy_page s)\<rparr>) else None)"
| "source_step (HidFrame ButtonHid b io t) s =
     (if sy_hid s ButtonHid = HidOn None
      then Some (s\<lparr>sy_page := frame_update b io None (sy_page s)\<rparr>) else None)"
| "source_step (HidLost k) s =
     (if sy_hid s k = HidOn None
      then Some ((hid_goes k DropLoadHid s)\<lparr>sy_dev := set_connected k False (sy_dev s)\<rparr>) else None)"
| "source_step (HidDrop k) s = drop_step k s"
| "source_step SerialOpen s = (if sy_serial s = NoSession then Some (s\<lparr>sy_serial := Session None\<rparr>) else None)"
| "source_step SerialMark s =
     (case sy_serial s of
        Session looked \<Rightarrow> Some (s\<lparr>sy_page := mark_input_connected (sy_page s)\<rparr>) | _ \<Rightarrow> None)"
| "source_step SerialLook s =
     (if sy_serial s = Session None
      then Some (s\<lparr>sy_serial := Session (Some (dv_hid_connected (sy_dev s)))\<rparr>) else None)"
| "source_step (SerialFrame b io t) s =
     (case sy_serial s of
        Session (Some hid) \<Rightarrow>
          Some (s\<lparr>sy_serial := Session None, sy_page := looked_frame hid b io t (sy_page s)\<rparr>)
      | _ \<Rightarrow> None)"
| "source_step SerialLost s =
     (if sy_serial s = Session None \<or> sy_serial s = NoSession
      then Some (s\<lparr>sy_serial := DiscLoadVendor\<rparr>) else None)"
| "source_step SerialDisc s = disc_step s"

fun source_run :: "source_event list \<Rightarrow> sources \<Rightarrow> sources option" where
  "source_run [] s = Some s"
| "source_run (e # es) s = do { s \<leftarrow> source_step e s; source_run es s }"

inductive source_next :: "sources \<Rightarrow> sources \<Rightarrow> bool" where
  source_next: "source_step e s = Some s' \<Longrightarrow> source_next s s'"

inductive_cases source_nextE [elim!]: "source_next s s'"

definition source_initial :: "sources \<Rightarrow> bool" where
  "source_initial s \<longleftrightarrow> sy_page s = mai2_input_default \<and> sy_serial s = NoSession \<and>
     (\<forall>k. sy_hid s k = HidOff \<and> \<not> is_connected k (sy_dev s))"

section \<open>Who answers for the inputs in the page\<close>

text \<open>A drop that has not seen a live source of the buttons, of the touch state.\<close>

fun clears_buttons :: "hid_phase \<Rightarrow> bool" where
  "clears_buttons DropLoadHid = True"
| "clears_buttons DropLoadVendor = True"
| "clears_buttons (DropLoadTouch blive) = (\<not> blive)"
| "clears_buttons (DropLoadVendorAgain blive) = (\<not> blive)"
| "clears_buttons (DropPage blive tlive) = (\<not> blive)"
| "clears_buttons ph = False"

fun clears_touch :: "hid_phase \<Rightarrow> bool" where
  "clears_touch DropLoadHid = True"
| "clears_touch DropLoadVendor = True"
| "clears_touch (DropLoadTouch blive) = True"
| "clears_touch (DropLoadVendorAgain blive) = True"
| "clears_touch (DropPage blive tlive) = (\<not> tlive)"
| "clears_touch ph = False"

fun is_on :: "hid_phase \<Rightarrow> bool" where
  "is_on (HidOn looked) = True"
| "is_on ph = False"

text \<open>No source is live and no disconnect will reset the page.\<close>

definition unattended :: "sources \<Rightarrow> bool" where
  "unattended s \<longleftrightarrow> (\<forall>k. \<not> is_connected k (sy_dev s)) \<and> sy_serial s \<in> {NoSession, DiscPage True}"

definition buttons_idle :: "mai2_input_page \<Rightarrow> bool" where
  "buttons_idle page \<longleftrightarrow> ip_buttons0 page = 0 \<and> ip_io_status page = 0"

definition touch_idle :: "mai2_input_page \<Rightarrow> bool" where
  "touch_idle page \<longleftrightarrow> ip_touch page = replicate 7 0"

definition sources_ok :: "sources \<Rightarrow> bool" where
  "sources_ok s \<longleftrightarrow> (\<forall>k. is_connected k (sy_dev s) = is_on (sy_hid s k)) \<and>
     (unattended s \<longrightarrow>
        (buttons_idle (sy_page s) \<or> (\<exists>k. clears_buttons (sy_hid s k))) \<and>
        (touch_idle (sy_page s) \<or> (\<exists>k. clears_touch (sy_hid s k))))"

lemma all_kinds: "(\<forall>k. P k) \<longleftrightarrow> P VendorHid \<and> P TouchHid \<and> P ButtonHid"
  by (metis hid_kind.exhaust)

lemma ex_kinds: "(\<exists>k. P k) \<longleftrightarrow> P VendorHid \<or> P TouchHid \<or> P ButtonHid"
  by (metis hid_kind.exhaust)

lemma input_marks [simp]:
  "buttons_idle (mark_input_connected page) = buttons_idle page"
  "touch_idle (mark_input_connected page) = touch_idle page"
  "buttons_idle mai2_input_default" "touch_idle mai2_input_default"
  by (simp_all add: buttons_idle_def touch_idle_def mark_input_connected_def mai2_input_default_def)

lemma cleared [simp]:
  "buttons_idle (clear_update blive tlive page) = (blive \<longrightarrow> buttons_idle page)"
  "touch_idle (clear_update blive tlive page) = (tlive \<longrightarrow> touch_idle page)"
  by (simp_all add: buttons_idle_def touch_idle_def clear_update_fields)

lemma hid_goes_simps [simp]:
  "sy_dev (hid_goes k ph s) = sy_dev s" "sy_page (hid_goes k ph s) = sy_page s"
  "sy_serial (hid_goes k ph s) = sy_serial s"
  "sy_hid (hid_goes k ph s) j = (if j = k then ph else sy_hid s j)"
  by (simp_all add: hid_goes_def)

lemma step_flags:
  assumes "\<forall>k. is_connected k (sy_dev s) = is_on (sy_hid s k)" "source_step e s = Some s'"
  shows "\<forall>k. is_connected k (sy_dev s') = is_on (sy_hid s' k)"
  using assms
  by (induction e s rule: source_step.induct)
    (auto simp: drop_step_def disc_step_def split: if_splits hid_phase.splits serial_phase.splits option.splits)

text \<open>
  A step that does not lose a source keeps the debt: either it clears what it owes, or whoever owed it
  still does.
\<close>

definition owed :: "sources \<Rightarrow> bool" where
  "owed s \<longleftrightarrow>
     (buttons_idle (sy_page s) \<or> (\<exists>k. clears_buttons (sy_hid s k))) \<and>
     (touch_idle (sy_page s) \<or> (\<exists>k. clears_touch (sy_hid s k)))"

lemma owed_goes:
  assumes "owed s" "clears_buttons (sy_hid s k) \<Longrightarrow> clears_buttons ph" "clears_touch (sy_hid s k) \<Longrightarrow> clears_touch ph"
  shows "owed (hid_goes k ph s)"
  using assms by (simp add: owed_def) metis

lemma drop_step_owed:
  assumes "owed s" "\<forall>k. \<not> is_connected k (sy_dev s)" "drop_step k s = Some s'"
  shows "owed s'"
proof -
  have off: "\<not> dv_hid_connected (sy_dev s)" "\<not> dv_vendor_connected (sy_dev s)" "\<not> dv_touch_hid_connected (sy_dev s)"
    using assms(2) by (simp_all add: all_kinds)
  show ?thesis
  proof (cases "sy_hid s k")
    case (DropPage blive tlive)
    then have s': "s' = (hid_goes k HidOff s)\<lparr>sy_page :=
        (if blive \<and> tlive then sy_page s else clear_update blive tlive (sy_page s))\<rparr>"
      using assms(3) by (simp add: drop_step_def)
    show ?thesis using assms(1) DropPage unfolding s' owed_def by auto (metis clears_buttons.simps clears_touch.simps)+
  qed (use assms off in \<open>auto simp: drop_step_def intro!: owed_goes\<close>)
qed

lemma disc_step_owed:
  assumes debt: "unattended s \<Longrightarrow> owed s" and step: "disc_step s = Some s'" and u: "unattended s'"
  shows "owed s'"
proof (cases "sy_serial s = DiscPage True")
  case True
  then have s': "s' = s\<lparr>sy_serial := NoSession, sy_page := mark_input_connected (sy_page s)\<rparr>"
    using step by (simp add: disc_step_def)
  have "unattended s" using u True by (simp add: s' unattended_def)
  from debt [OF this] show ?thesis by (simp add: s' owed_def)
next
  case False
  then show ?thesis using step u
    by (auto simp: disc_step_def unattended_def all_kinds owed_def split: serial_phase.splits if_splits)
qed

lemma sources_ok_step:
  assumes ok: "sources_ok s" and step: "source_step e s = Some s'"
  shows "sources_ok s'"
proof -
  have flags: "\<forall>k. is_connected k (sy_dev s) = is_on (sy_hid s k)"
    and debt: "unattended s \<Longrightarrow> owed s"
    using ok by (auto simp: sources_ok_def owed_def)
  have "owed s'" if u: "unattended s'"
  proof (cases e)
    case (HidDrop k)
    then have d: "drop_step k s = Some s'" using step by simp
    then have "sy_dev s' = sy_dev s" "sy_serial s' = sy_serial s"
      by (auto simp: drop_step_def split: hid_phase.splits)
    with u debt have "owed s" "\<forall>k. \<not> is_connected k (sy_dev s)" by (simp_all add: unattended_def)
    with d show ?thesis by (rule drop_step_owed [rotated 2])
  next
    case (HidLost k)
    then have "sy_hid s' k = DropLoadHid" using step by (auto split: if_splits)
    then show ?thesis unfolding owed_def by (metis clears_buttons.simps(1) clears_touch.simps(1))
  next
    case SerialDisc
    then show ?thesis using disc_step_owed [OF debt] step u by simp
  next
    case (HidFrame k b io t)
    then have "is_on (sy_hid s' k)"
      using step by (cases k) (auto split: if_splits hid_phase.splits option.splits)
    with u step_flags [OF flags step] show ?thesis by (auto simp: unattended_def)
  next
    case VendorLook
    then have "is_on (sy_hid s' VendorHid)" using step by (auto split: if_splits)
    with u step_flags [OF flags step] show ?thesis by (auto simp: unattended_def)
  next
    case (HidAttach k)
    then have "is_connected k (sy_dev s')" using step by (auto split: if_splits)
    with u show ?thesis by (auto simp: unattended_def)
  qed (use step u debt flags in \<open>auto simp: unattended_def owed_def
      split: if_splits serial_phase.splits option.splits\<close>)
  with step_flags [OF flags step] show ?thesis by (simp add: sources_ok_def owed_def)
qed

interpretation input_sources: invariant_system source_initial source_next sources_ok
proof
  fix s assume "source_initial s"
  then show "sources_ok s" by (simp add: source_initial_def sources_ok_def)
next
  fix s s' assume "sources_ok s" "source_next s s'"
  then show "sources_ok s'" by (auto intro: sources_ok_step)
qed

section \<open>Sources that stay\<close>

text \<open>The vendor stream is live, and no drop or disconnect has missed it.\<close>

fun seen_live :: "hid_phase \<Rightarrow> bool" where
  "seen_live (DropLoadTouch blive) = blive"
| "seen_live (DropLoadVendorAgain blive) = blive"
| "seen_live (DropPage blive tlive) = (blive \<and> tlive)"
| "seen_live ph = True"

definition vendor_live :: "sources \<Rightarrow> bool" where
  "vendor_live s \<longleftrightarrow> is_on (sy_hid s VendorHid) \<and> (\<forall>k. seen_live (sy_hid s k)) \<and>
     sy_serial s \<notin> {DiscLoadTouch, DiscLoadHid, DiscPage False} \<and>
     (\<forall>k. is_connected k (sy_dev s) = is_on (sy_hid s k))"

text \<open>What the frame of an event does to the page, and the frames of a run one after the other.\<close>

fun frame_of :: "source_event \<Rightarrow> sources \<Rightarrow> mai2_input_page \<Rightarrow> mai2_input_page" where
  "frame_of (HidFrame VendorHid b io t) s =
     (case sy_hid s VendorHid of HidOn (Some hid) \<Rightarrow> looked_frame hid b io t | _ \<Rightarrow> id)"
| "frame_of (HidFrame TouchHid b io t) s = frame_update None None t"
| "frame_of (HidFrame ButtonHid b io t) s = frame_update b io None"
| "frame_of (SerialFrame b io t) s =
     (case sy_serial s of Session (Some hid) \<Rightarrow> looked_frame hid b io t | _ \<Rightarrow> id)"
| "frame_of e s = id"

fun frames_of :: "source_event list \<Rightarrow> sources \<Rightarrow> mai2_input_page \<Rightarrow> mai2_input_page" where
  "frames_of [] s page = page"
| "frames_of (e # es) s page =
     (case source_step e s of None \<Rightarrow> page | Some s' \<Rightarrow> frames_of es s' (frame_of e s page))"

definition inputs :: "mai2_input_page \<Rightarrow> u8 \<times> u8 \<times> u8 list" where
  "inputs page = (ip_buttons0 page, ip_io_status page, ip_touch page)"

lemma inputs_mark [simp]: "inputs (mark_input_connected page) = inputs page"
  by (simp add: inputs_def mark_input_connected_def)

definition overlay ::
  "u8 option \<Rightarrow> u8 option \<Rightarrow> u8 list option \<Rightarrow> u8 \<times> u8 \<times> u8 list \<Rightarrow> u8 \<times> u8 \<times> u8 list" where
  "overlay b io t x =
     (let (b0, io0, t0) = x
      in (case b of Some v \<Rightarrow> v | None \<Rightarrow> b0, case io of Some v \<Rightarrow> v | None \<Rightarrow> io0, case t of Some v \<Rightarrow> v | None \<Rightarrow> t0))"

lemma inputs_frame [simp]: "inputs (frame_update b io t p) = overlay b io t (inputs p)"
  by (simp add: inputs_def overlay_def frame_update_def Let_def split: option.splits)

lemma inputs_looked [simp]:
  "inputs (looked_frame hid b io t p) =
     overlay (if \<not> hid then b else None) (if \<not> hid then io else None) t (inputs p)"
  by (simp add: looked_frame_def)

lemma inputs_frame_of:
  assumes "inputs p = inputs q"
  shows "inputs (frame_of e s p) = inputs (frame_of e s q)"
proof (cases e)
  case (HidFrame k b io t)
  then show ?thesis using assms by (cases k) (simp_all split: hid_phase.split option.split)
qed (simp_all add: assms split: serial_phase.split option.split)

lemma inputs_frames_of: "inputs p = inputs q \<Longrightarrow> inputs (frames_of es s p) = inputs (frames_of es s q)"
proof (induction es arbitrary: s p q)
  case (Cons e es)
  show ?case
  proof (cases "source_step e s")
    case (Some s1)
    with Cons.IH [OF inputs_frame_of [OF Cons.prems, of e s], of s1] show ?thesis by simp
  qed (use Cons.prems in simp)
qed simp

lemma vendor_live_step:
  assumes live: "vendor_live s" and step: "source_step e s = Some s'" and stays: "e \<noteq> HidLost VendorHid"
  shows "vendor_live s' \<and> inputs (sy_page s') = inputs (frame_of e s (sy_page s))"
proof -
  have flags: "\<forall>k. is_connected k (sy_dev s) = is_on (sy_hid s k)" using live by (simp add: vendor_live_def)
  then have v: "dv_vendor_connected (sy_dev s)" using live by (simp add: vendor_live_def all_kinds)
  note flags' = step_flags [OF flags step]
  have "is_on (sy_hid s' VendorHid) \<and> (\<forall>k. seen_live (sy_hid s' k)) \<and>
      sy_serial s' \<notin> {DiscLoadTouch, DiscLoadHid, DiscPage False} \<and>
      inputs (sy_page s') = inputs (frame_of e s (sy_page s))"
  proof (cases e)
    case (HidFrame k b io t)
    then show ?thesis using step live v stays unfolding vendor_live_def all_kinds
      by (cases k) (auto split: if_splits hid_phase.splits option.splits)
  next
    case (HidDrop k)
    then show ?thesis using step live v stays unfolding vendor_live_def all_kinds
      by (cases k) (auto simp: drop_step_def split: if_splits hid_phase.splits)
  next
    case SerialDisc
    then show ?thesis using step live v stays unfolding vendor_live_def all_kinds
      by (auto simp: disc_step_def split: if_splits serial_phase.splits)
  qed (use step live v stays in \<open>unfold vendor_live_def all_kinds,
      auto split: if_splits serial_phase.splits option.splits\<close>)
  then show ?thesis using flags' by (simp add: vendor_live_def)
qed

lemma vendor_live_run:
  "source_run es s = Some s' \<Longrightarrow> vendor_live s \<Longrightarrow> HidLost VendorHid \<notin> set es \<Longrightarrow>
     vendor_live s' \<and> inputs (sy_page s') = inputs (frames_of es s (sy_page s))"
proof (induction es arbitrary: s)
  case (Cons e es)
  then obtain s1 where s1: "source_step e s = Some s1" "source_run es s1 = Some s'"
    by (auto split: bind_splits)
  have step: "vendor_live s1 \<and> inputs (sy_page s1) = inputs (frame_of e s (sy_page s))"
    using vendor_live_step [OF Cons.prems(2) s1(1)] Cons.prems(3) by auto
  have "vendor_live s' \<and> inputs (sy_page s') = inputs (frames_of es s1 (sy_page s1))"
    using Cons.IH [OF s1(2)] step Cons.prems(3) by auto
  then show ?case using inputs_frames_of [of "sy_page s1" "frame_of e s (sy_page s)" es s1] step s1(1) by simp
qed simp

section \<open>The sequential functions\<close>



section \<open>Properties\<close>

text \<open>
  C2. No stuck input: in every state that any interleaving of the accesses of the serial and the HID
  threads can reach, once no session is open, no HID interface is connected and no thread is in the
  middle of a drop, no button and no touch area of the input page is on.  In particular two sources
  that go away at the same time cannot each leave the clearing to the other.
\<close>

theorem mai2_no_stuck_input:
  assumes "source_next\<^sup>*\<^sup>* s0 s" and "source_initial s0"
    and "sy_serial s = NoSession" and "\<forall>k. sy_hid s k = HidOff"
  shows "ip_buttons0 (sy_page s) = 0 \<and> ip_io_status (sy_page s) = 0 \<and> ip_touch (sy_page s) = replicate 7 0"
proof -
  have "sources_ok s" by (rule input_sources.reachable_good [OF assms(2, 1)])
  with assms(3, 4) show ?thesis
    by (simp add: sources_ok_def unattended_def buttons_idle_def touch_idle_def)
qed

text \<open>The button and the vendor interface go away at the same time, their drops interleaved.\<close>

definition demo_sources :: sources where
  "demo_sources = \<lparr>sy_dev = (dev_of 0 mai2_demo_world)\<lparr>dv_hid_connected := False\<rparr>, sy_page = mai2_input_default,
     sy_hid = (\<lambda>k. HidOff), sy_serial = NoSession\<rparr>"

definition demo_vendor :: sources where
  "demo_vendor = demo_sources\<lparr>sy_dev := (sy_dev demo_sources)\<lparr>dv_vendor_connected := True, dv_hid_connected := True\<rparr>,
     sy_hid := (\<lambda>k. if k = TouchHid then HidOff else HidOn None), sy_serial := Session None\<rparr>"

lemma source_run_append: "source_run (es @ fs) s = do { s' \<leftarrow> source_run es s; source_run fs s' }"
  by (induction es arbitrary: s) (auto split: bind_splits)

lemma source_run_reaches: "source_run es s = Some s' \<Longrightarrow> source_next\<^sup>*\<^sup>* s s'"
proof (induction es arbitrary: s)
  case (Cons e es)
  then obtain s1 where "source_step e s = Some s1" "source_run es s1 = Some s'" by (auto split: bind_splits)
  with Cons.IH source_next show ?case by (metis converse_rtranclp_into_rtranclp)
qed simp

definition demo_drops :: "source_event list" where
  "demo_drops = [HidAttach ButtonHid, HidAttach VendorHid, VendorLook, HidFrame ButtonHid (Some 5) (Some 2) None,
     HidFrame VendorHid (Some 1) None (Some [1, 2, 3, 4, 5, 6, 7]), HidLost ButtonHid, HidDrop ButtonHid,
     HidDrop ButtonHid, HidLost VendorHid, HidDrop VendorHid, HidDrop ButtonHid, HidDrop VendorHid,
     HidDrop ButtonHid, HidDrop ButtonHid, HidDrop VendorHid, HidDrop VendorHid, HidDrop VendorHid]"

lemma demo_drops_run:
  "\<exists>s. source_run demo_drops demo_sources = Some s \<and> sy_serial s = NoSession \<and> (\<forall>k. sy_hid s k = HidOff)"
  by (simp add: demo_drops_def demo_sources_def drop_step_def all_kinds mai2_demo_world_def
      mai2_demo_device_def dev_of_def)

theorem mai2_no_stuck_input_witness:
  "\<exists>s. source_run demo_drops demo_sources = Some s \<and> ip_buttons0 (sy_page s) = 0 \<and> ip_touch (sy_page s) = replicate 7 0"
proof -
  obtain s where s: "source_run demo_drops demo_sources = Some s" "sy_serial s = NoSession" "\<forall>k. sy_hid s k = HidOff"
    using demo_drops_run by blast
  have "source_initial demo_sources"
    by (simp add: source_initial_def demo_sources_def all_kinds mai2_demo_world_def mai2_demo_device_def dev_of_def)
  from mai2_no_stuck_input [OF source_run_reaches [OF s(1)] this s(2, 3)] s(1) show ?thesis by blast
qed

text \<open>
  A drop that looked for the vendor interface before it was there erases what the vendor stream has
  applied since: the button interface is lost, its drop finds no live source, the vendor interface
  connects and applies a frame, and the drop then clears the page.
\<close>

definition demo_late_drop :: "source_event list" where
  "demo_late_drop = [HidAttach ButtonHid, HidLost ButtonHid, HidDrop ButtonHid, HidDrop ButtonHid,
     HidDrop ButtonHid, HidDrop ButtonHid, HidAttach VendorHid, VendorLook,
     HidFrame VendorHid (Some 1) None (Some [1, 2, 3, 4, 5, 6, 7])]"

lemma late_drop_erases_vendor_input:
  "map_option (\<lambda>s. (sy_hid s VendorHid, inputs (sy_page s))) (source_run demo_late_drop demo_sources) =
     Some (HidOn None, 1, 0, [1, 2, 3, 4, 5, 6, 7])"
  "map_option (\<lambda>s. (sy_hid s VendorHid, inputs (sy_page s)))
     (source_run (demo_late_drop @ [HidDrop ButtonHid]) demo_sources) =
     Some (HidOn None, 0, 0, replicate 7 0)"
  by (simp_all add: demo_late_drop_def demo_sources_def hid_goes_def drop_step_def mai2_demo_world_def mai2_demo_device_def
      dev_of_def overlay_def clear_update_def inputs_def mai2_input_default_def looked_frame_def frame_update_def Let_def)

text \<open>
  A disconnect that finds a HID interface, whatever it provides, keeps what the serial stream wrote: the
  button interface is connected, the serial stream turns a touch area on, the session ends, and with no
  source of touch left the area stays on.
\<close>

definition demo_serial_end :: "source_event list" where
  "demo_serial_end = [HidAttach ButtonHid, SerialOpen, SerialLook, SerialFrame None None (Some [1, 0, 0, 0, 0, 0, 0]),
     SerialLost, SerialDisc, SerialDisc, SerialDisc, SerialDisc]"

lemma serial_end_leaves_touch:
  "map_option (\<lambda>s. (sy_serial s, map (sy_hid s) [VendorHid, TouchHid, ButtonHid], inputs (sy_page s)))
     (source_run demo_serial_end demo_sources) =
   Some (NoSession, [HidOff, HidOff, HidOn None], 0, 0, [1, 0, 0, 0, 0, 0, 0])"
  by (simp add: demo_serial_end_def demo_sources_def hid_goes_def disc_step_def mai2_demo_world_def mai2_demo_device_def
      dev_of_def overlay_def) (simp add: inputs_def mai2_input_default_def)

text \<open>
  C9. A live source is not cut off: from any reachable state in which the vendor interface is connected
  and no drop or disconnect under way has already looked for it and found it gone, the vendor
  interface staying connected, no drop of another HID interface and no end of the serial session
  erases an input.  Buttons and touch are those that the frames of the run leave, applied in their
  order to what was there.  The second condition is needed (\<open>late_drop_erases_vendor_input\<close>).
\<close>

theorem mai2_live_vendor_keeps_inputs:
  assumes "source_initial s0" and "source_run es0 s0 = Some s" and "source_run es s = Some s'"
    and "is_on (sy_hid s VendorHid)" and "HidLost VendorHid \<notin> set es"
    and "\<forall>k. seen_live (sy_hid s k)" and "sy_serial s \<notin> {DiscLoadTouch, DiscLoadHid, DiscPage False}"
  shows "inputs (sy_page s') = inputs (frames_of es s (sy_page s))"
proof -
  have "sources_ok s"
    by (rule input_sources.reachable_good [OF assms(1) source_run_reaches [OF assms(2)]])
  then have "vendor_live s" using assms(4, 6, 7) by (simp add: vendor_live_def sources_ok_def)
  from vendor_live_run [OF assms(3) this assms(5)] show ?thesis by simp
qed

definition demo_start :: "source_event list" where
  "demo_start = [HidAttach ButtonHid, HidAttach VendorHid, SerialOpen]"

theorem mai2_live_vendor_keeps_inputs_witness:
  "map_option (\<lambda>s. inputs (sy_page s)) (source_run (demo_start @ [HidFrame ButtonHid (Some 5) (Some 2) None,
     HidLost ButtonHid, HidDrop ButtonHid, SerialLost, SerialDisc, HidDrop ButtonHid, SerialDisc, HidDrop ButtonHid,
     HidDrop ButtonHid, HidDrop ButtonHid]) demo_sources) = Some (5, 2, replicate 7 0)"
proof -
  let ?es = "[HidFrame ButtonHid (Some 5) (Some 2) None, HidLost ButtonHid,
     HidDrop ButtonHid, SerialLost, SerialDisc, HidDrop ButtonHid, SerialDisc, HidDrop ButtonHid,
     HidDrop ButtonHid, HidDrop ButtonHid]"
  note demo = demo_start_def demo_sources_def hid_goes_def drop_step_def disc_step_def mai2_demo_world_def
    mai2_demo_device_def dev_of_def
  have initial: "source_initial demo_sources"
    by (simp add: source_initial_def demo_sources_def all_kinds mai2_demo_world_def mai2_demo_device_def dev_of_def)
  have start: "source_run demo_start demo_sources = Some (demo_vendor)"
    by (simp add: demo demo_vendor_def fun_eq_iff all_kinds)
  have "\<exists>s. source_run ?es demo_vendor = Some s" by (simp add: demo demo_vendor_def)
  then obtain s where run: "source_run ?es demo_vendor = Some s" by blast
  have "is_on (sy_hid demo_vendor VendorHid)" "\<forall>k. seen_live (sy_hid demo_vendor k)"
    "sy_serial demo_vendor \<notin> {DiscLoadTouch, DiscLoadHid, DiscPage False}"
    by (simp_all add: demo_vendor_def all_kinds)
  from mai2_live_vendor_keeps_inputs [OF initial start run this(1) _ this(2, 3)]
  have "inputs (sy_page s) = inputs (frames_of ?es demo_vendor (sy_page demo_vendor))" by simp
  also have "\<dots> = (5, 2, replicate 7 0)"
    by (simp add: demo demo_vendor_def overlay_def) (simp add: inputs_def mai2_input_default_def)
  finally show ?thesis using run start by (simp add: source_run_append)
qed



end
