(* ===== verification/Mai2_Source_Runs.thy ===== *)
theory Mai2_Source_Runs
  imports Mai2_Sources
begin

text \<open>
  Infinite executions of the sources of one input page.  \<open>Mai2_Sources\<close> says what every reachable state
  satisfies; here an execution is a sequence of states with the access made at each instant (or
  none), in which no thread that is inside a drop or a disconnect waits for ever, and the question is
  what it comes to.
\<close>

section \<open>Fair executions\<close>

text \<open>A state for every instant and the access that leads to the next; \<open>None\<close> lets time pass.\<close>

definition source_path :: "(nat \<Rightarrow> source_event option) \<Rightarrow> (nat \<Rightarrow> sources) \<Rightarrow> bool" where
  "source_path ev st \<longleftrightarrow>
     (\<forall>n. case ev n of None \<Rightarrow> st (Suc n) = st n | Some e \<Rightarrow> source_step e (st n) = Some (st (Suc n)))"

text \<open>How many accesses a drop, a disconnect has at most before it.\<close>

fun drop_left :: "hid_phase \<Rightarrow> nat" where
  "drop_left DropLoadHid = 5"
| "drop_left DropLoadVendor = 4"
| "drop_left (DropLoadTouch blive) = 3"
| "drop_left (DropLoadVendorAgain blive) = 2"
| "drop_left (DropPage blive tlive) = 1"
| "drop_left ph = 0"

fun disc_left :: "serial_phase \<Rightarrow> nat" where
  "disc_left DiscLoadVendor = 4"
| "disc_left DiscLoadTouch = 3"
| "disc_left DiscLoadHid = 2"
| "disc_left (DiscPage live) = 1"
| "disc_left ph = 0"

text \<open>The scheduler is weakly fair to a thread that is clearing up.\<close>

definition clears_up :: "(nat \<Rightarrow> source_event option) \<Rightarrow> (nat \<Rightarrow> sources) \<Rightarrow> bool" where
  "clears_up ev st \<longleftrightarrow>
     (\<forall>n k. 0 < drop_left (sy_hid (st n) k) \<longrightarrow> (\<exists>m\<ge>n. ev m = Some (HidDrop k))) \<and>
     (\<forall>n. 0 < disc_left (sy_serial (st n)) \<longrightarrow> (\<exists>m\<ge>n. ev m = Some SerialDisc))"

fun in_session :: "serial_phase \<Rightarrow> bool" where
  "in_session (Session looked) = True"
| "in_session ph = False"

definition no_source :: "sources \<Rightarrow> bool" where
  "no_source s \<longleftrightarrow> (\<forall>k. \<not> is_connected k (sy_dev s)) \<and> \<not> in_session (sy_serial s)"

section \<open>What a step leaves to do\<close>

lemma source_pathD:
  assumes "source_path ev st"
  shows "ev n = None \<Longrightarrow> st (Suc n) = st n" "ev n = Some e \<Longrightarrow> source_step e (st n) = Some (st (Suc n))"
  using assms [unfolded source_path_def, THEN spec [of _ n]] by simp_all

lemma path_ok:
  assumes "source_path ev st" "source_initial (st 0)"
  shows "sources_ok (st n)"
proof (induction n)
  case 0
  show ?case using assms(2) by (rule input_sources.initial_good)
next
  case (Suc n)
  with source_pathD [OF assms(1), of n] show ?case by (cases "ev n") (auto intro: sources_ok_step)
qed

text \<open>With no source left, only drops and disconnects make steps, and each makes its own progress.\<close>

lemma drop_step_left: "drop_step k s = Some s' \<Longrightarrow> drop_left (sy_hid s' k) < drop_left (sy_hid s k)"
  by (auto simp: drop_step_def split: hid_phase.splits)

lemma disc_step_left: "disc_step s = Some s' \<Longrightarrow> disc_left (sy_serial s') < disc_left (sy_serial s)"
  by (auto simp: disc_step_def split: serial_phase.splits)

lemma is_on_left: "is_on ph \<Longrightarrow> drop_left ph = 0"
  by (cases ph) auto

lemma step_drop_left:
  assumes "source_step e s = Some s'" "e \<noteq> HidLost k"
  shows "drop_left (sy_hid s' k) \<le> drop_left (sy_hid s k)"
proof (cases e)
  case (HidDrop j)
  then have d: "drop_step j s = Some s'" using assms(1) by simp
  show ?thesis
  proof (cases "j = k")
    case True
    then show ?thesis using drop_step_left [OF d] by simp
  next
    case False
    then show ?thesis using d by (auto simp: drop_step_def split: hid_phase.splits)
  qed
next
  case (HidFrame j b io t)
  then show ?thesis using assms by (cases j) (auto split: if_splits hid_phase.splits option.splits)
qed (use assms in \<open>auto simp: disc_step_def split: if_splits hid_phase.splits serial_phase.splits option.splits\<close>)

lemma step_disc_left:
  assumes "source_step e s = Some s'" "e \<noteq> SerialLost"
  shows "disc_left (sy_serial s') \<le> disc_left (sy_serial s)"
proof (cases e)
  case SerialDisc
  then show ?thesis using assms disc_step_left [of s s'] by simp
next
  case (HidFrame j b io t)
  then show ?thesis using assms by (cases j) (auto split: if_splits hid_phase.splits option.splits)
next
  case (HidDrop j)
  then show ?thesis using assms by (auto simp: drop_step_def split: hid_phase.splits)
qed (use assms in \<open>auto split: if_splits serial_phase.splits option.splits\<close>)

text \<open>Only its own accesses end a drop or a disconnect.\<close>

lemma drop_kept:
  assumes "source_step e s = Some s'" "e \<noteq> HidDrop k" "0 < drop_left (sy_hid s k)"
  shows "0 < drop_left (sy_hid s' k)"
proof (cases e)
  case (HidFrame j b io t)
  then show ?thesis using assms by (cases j) (auto split: if_splits hid_phase.splits option.splits)
next
  case (HidDrop j)
  then show ?thesis using assms by (auto simp: drop_step_def split: hid_phase.splits)
qed (use assms in \<open>auto simp: disc_step_def split: if_splits hid_phase.splits serial_phase.splits option.splits\<close>)

lemma disc_kept:
  assumes "source_step e s = Some s'" "e \<noteq> SerialDisc" "0 < disc_left (sy_serial s)"
  shows "0 < disc_left (sy_serial s')"
proof (cases e)
  case (HidFrame j b io t)
  then show ?thesis using assms by (cases j) (auto split: if_splits hid_phase.splits option.splits)
next
  case (HidDrop j)
  then show ?thesis using assms by (auto simp: drop_step_def split: hid_phase.splits)
qed (use assms in \<open>auto split: if_splits serial_phase.splits option.splits\<close>)

text \<open>A quantity that goes down again and again while it is positive reaches zero.\<close>

lemma reaches_zero:
  assumes "\<And>n. a \<le> n \<Longrightarrow> 0 < f n \<Longrightarrow> \<exists>m\<ge>n. f (Suc m) < (f n :: nat)"
  shows "\<exists>m\<ge>a. f m = 0"
proof -
  have "a \<le> n \<Longrightarrow> \<exists>m\<ge>a. f m = 0" for n
  proof (induction "f n" arbitrary: n rule: less_induct)
    case less
    show ?case
    proof (cases "f n = 0")
      case False
      with assms [of n] less.prems obtain m where "m \<ge> n" "f (Suc m) < f n" by auto
      with less show ?thesis by (meson le_Suc_eq le_trans)
    qed (use less.prems in blast)
  qed
  then show ?thesis by blast
qed

lemma stays_below:
  assumes "\<And>n. a \<le> n \<Longrightarrow> f (Suc n) \<le> (f n :: nat)" "a \<le> n" "n \<le> m"
  shows "f m \<le> f n"
  using assms(3)
proof (induction m)
  case (Suc m)
  then show ?case using assms(1) [of m] assms(2) by (cases "n = Suc m") auto
qed simp

text \<open>While no source is there, an access is part of a drop or of a disconnect.\<close>

lemma no_source_event:
  assumes "sources_ok s" "no_source s" "source_step e s = Some s'" "no_source s'"
  shows "(\<exists>k. e = HidDrop k) \<or> e = SerialLost \<or> e = SerialDisc"
proof -
  have off: "\<not> is_on (sy_hid s k)" "\<not> is_on (sy_hid s' k)" for k
    using assms(1, 2) step_flags [OF _ assms(3)] assms(4) by (auto simp: sources_ok_def no_source_def)
  have "\<not> in_session (sy_serial s)" "\<not> in_session (sy_serial s')" using assms(2, 4) by (simp_all add: no_source_def)
  with assms(3) off show ?thesis
  proof (cases e)
    case (HidFrame k b io t)
    then show ?thesis using assms(3) off(1) [of k]
      by (cases k) (auto split: if_splits hid_phase.splits option.splits)
  next
    case (HidAttach k)
    then show ?thesis using assms(3) off(2) [of k] by (auto split: if_splits)
  next
    case (HidMark k)
    then show ?thesis using assms(3) off(1) [of k] by (auto split: if_splits)
  next
    case VendorLook
    then show ?thesis using assms(3) off(1) [of VendorHid] by (auto split: if_splits)
  next
    case (HidLost k)
    then show ?thesis using assms(3) off(1) [of k] by (auto split: if_splits)
  qed (auto split: if_splits serial_phase.splits)
qed

text \<open>All drops are over and no input is on; a disconnect may still run.\<close>

definition all_clear :: "sources \<Rightarrow> bool" where
  "all_clear s \<longleftrightarrow> (\<forall>k. sy_hid s k = HidOff) \<and> buttons_idle (sy_page s) \<and> touch_idle (sy_page s)"

lemma all_clear_step:
  assumes "all_clear s" "source_step e s = Some s'" "(\<exists>k. e = HidDrop k) \<or> e = SerialLost \<or> e = SerialDisc"
  shows "all_clear s'"
  using assms
  by (auto simp: all_clear_def drop_step_def disc_step_def split: if_splits hid_phase.splits serial_phase.splits)

lemma drops_end:
  assumes path: "source_path ev st" and ok: "\<And>n. sources_ok (st n)" and fair: "clears_up ev st"
    and none: "\<And>n. n0 \<le> n \<Longrightarrow> no_source (st n)"
  shows "\<exists>m\<ge>n0. \<forall>n\<ge>m. sy_hid (st n) k = HidOff"
proof -
  have down: "drop_left (sy_hid (st (Suc n)) k) \<le> drop_left (sy_hid (st n) k)" if "n0 \<le> n" for n
  proof (cases "ev n")
    case (Some e)
    note step = source_pathD(2) [OF path Some]
    from no_source_event [OF ok none step none] that have "e \<noteq> HidLost k" by auto
    with step show ?thesis by (rule step_drop_left)
  qed (use source_pathD [OF path, of n] in simp)
  have "\<exists>m\<ge>n0. drop_left (sy_hid (st m) k) = 0"
  proof (rule reaches_zero)
    fix n assume n: "n0 \<le> n" "0 < drop_left (sy_hid (st n) k)"
    with fair obtain m where m: "m \<ge> n" "ev m = Some (HidDrop k)" unfolding clears_up_def by blast
    from source_pathD(2) [OF path m(2)] have "drop_left (sy_hid (st (Suc m)) k) < drop_left (sy_hid (st m) k)"
      by (simp add: drop_step_left)
    also have "\<dots> \<le> drop_left (sy_hid (st n) k)"
      using stays_below [of n0 "\<lambda>i. drop_left (sy_hid (st i) k)" n m] down n m by simp
    finally show "\<exists>m\<ge>n. drop_left (sy_hid (st (Suc m)) k) < drop_left (sy_hid (st n) k)" using m by blast
  qed
  then obtain m where m: "m \<ge> n0" "drop_left (sy_hid (st m) k) = 0" by blast
  have "sy_hid (st n) k = HidOff" if "n \<ge> m" for n
  proof -
    have "drop_left (sy_hid (st n) k) = 0"
      using stays_below [of n0 "\<lambda>i. drop_left (sy_hid (st i) k)" m n] down m that by simp
    moreover have "\<not> is_on (sy_hid (st n) k)"
      using none [of n] ok [of n] m that by (auto simp: no_source_def sources_ok_def)
    ultimately show ?thesis by (cases "sy_hid (st n) k") auto
  qed
  with m show ?thesis by blast
qed

lemma disconnect_ends:
  assumes path: "source_path ev st" and ok: "\<And>n. sources_ok (st n)" and fair: "clears_up ev st"
    and none: "\<And>n. n0 \<le> n \<Longrightarrow> no_source (st n)"
  shows "\<exists>m\<ge>n0. sy_serial (st m) = NoSession"
proof (rule ccontr)
  assume never: "\<not> ?thesis"
  have busy: "0 < disc_left (sy_serial (st n))" if "n0 \<le> n" for n
    using never none [OF that] that by (cases "sy_serial (st n)") (auto simp: no_source_def)
  have down: "disc_left (sy_serial (st (Suc n))) \<le> disc_left (sy_serial (st n))" if "n0 \<le> n" for n
  proof (cases "ev n")
    case (Some e)
    note step = source_pathD(2) [OF path Some]
    then have "e \<noteq> SerialLost" using busy [OF that] by (auto split: if_splits)
    with step show ?thesis by (rule step_disc_left)
  qed (use source_pathD [OF path, of n] in simp)
  have "\<exists>m\<ge>n0. disc_left (sy_serial (st m)) = 0"
  proof (rule reaches_zero)
    fix n assume n: "n0 \<le> n" "0 < disc_left (sy_serial (st n))"
    with fair obtain m where m: "m \<ge> n" "ev m = Some SerialDisc" unfolding clears_up_def by blast
    from source_pathD(2) [OF path m(2)] have "disc_left (sy_serial (st (Suc m))) < disc_left (sy_serial (st m))"
      by (simp add: disc_step_left)
    also have "\<dots> \<le> disc_left (sy_serial (st n))"
      using stays_below [of n0 "\<lambda>i. disc_left (sy_serial (st i))" n m] down n m by simp
    finally show "\<exists>m\<ge>n. disc_left (sy_serial (st (Suc m))) < disc_left (sy_serial (st n))" using m by blast
  qed
  with busy show False by (metis less_irrefl)
qed

section \<open>Finite executions, followed by rest\<close>

definition rest_events :: "source_event list \<Rightarrow> nat \<Rightarrow> source_event option" where
  "rest_events es n = (if n < length es then Some (es ! n) else None)"

definition rest_states :: "source_event list \<Rightarrow> sources \<Rightarrow> nat \<Rightarrow> sources" where
  "rest_states es s n = the (source_run (take n es) s)"

lemma source_run_prefix: "source_run es s = Some s' \<Longrightarrow> \<exists>t. source_run (take n es) s = Some t"
  using source_run_append [of "take n es" "drop n es" s] by (auto split: bind_splits)

lemma rest_path:
  assumes "source_run es s = Some s'"
  shows "source_path (rest_events es) (rest_states es s)"
proof -
  have "source_step (es ! n) (rest_states es s n) = Some (rest_states es s (Suc n))" if n: "n < length es" for n
  proof -
    obtain t t' where "source_run (take n es) s = Some t" "source_run (take (Suc n) es) s = Some t'"
      using source_run_prefix [OF assms] by meson
    then show ?thesis using n
      by (auto simp: rest_states_def take_Suc_conv_app_nth source_run_append split: bind_splits)
  qed
  then show ?thesis by (simp add: source_path_def rest_events_def rest_states_def)
qed

text \<open>What is pending until it is served, and is not pending later, has been served.\<close>

lemma until_served:
  assumes "P n" "\<And>m. P m \<Longrightarrow> \<not> Q m \<Longrightarrow> P (Suc m)" "n \<le> N" "\<not> P N"
  shows "\<exists>m\<ge>n. Q m"
proof (rule ccontr)
  assume no: "\<not> ?thesis"
  from \<open>n \<le> N\<close> have "P N"
    by (induction N rule: dec_induct) (use no assms(1, 2) in auto)
  with assms(4) show False by simp
qed

text \<open>An execution that ends with every thread at rest let each of them finish.\<close>

lemma rest_clears_up:
  assumes "source_run es s = Some s'" "\<forall>k. sy_hid s' k = HidOff" "sy_serial s' = NoSession"
  shows "clears_up (rest_events es) (rest_states es s)"
proof -
  let ?st = "rest_states es s"
  have last: "?st n = s'" if "length es \<le> n" for n using that assms(1) by (simp add: rest_states_def)
  have step: "source_step (es ! n) (?st n) = Some (?st (Suc n))" if "n < length es" for n
    using source_pathD(2) [OF rest_path [OF assms(1)], of n] that by (simp add: rest_events_def)
  have hid: "\<exists>m\<ge>n. rest_events es m = Some (HidDrop k)" if d: "0 < drop_left (sy_hid (?st n) k)" for n k
  proof (rule until_served [where P = "\<lambda>m. 0 < drop_left (sy_hid (?st m) k)" and N = "n + length es"])
    fix m assume "0 < drop_left (sy_hid (?st m) k)" "rest_events es m \<noteq> Some (HidDrop k)"
    with drop_kept [OF step, of m k] last [of m] last [of "Suc m"] show "0 < drop_left (sy_hid (?st (Suc m)) k)"
      by (cases "m < length es") (auto simp: rest_events_def)
  qed (use d last [of "n + length es"] assms(2) in simp_all)
  have ser: "\<exists>m\<ge>n. rest_events es m = Some SerialDisc" if d: "0 < disc_left (sy_serial (?st n))" for n
  proof (rule until_served [where P = "\<lambda>m. 0 < disc_left (sy_serial (?st m))" and N = "n + length es"])
    fix m assume "0 < disc_left (sy_serial (?st m))" "rest_events es m \<noteq> Some SerialDisc"
    with disc_kept [OF step, of m] last [of m] last [of "Suc m"] show "0 < disc_left (sy_serial (?st (Suc m)))"
      by (cases "m < length es") (auto simp: rest_events_def)
  qed (use d last [of "n + length es"] assms(3) in simp_all)
  from hid ser show ?thesis by (simp add: clears_up_def)
qed

section \<open>Properties\<close>

text \<open>
  C4. Every input is switched off in the end: take any infinite interleaving of the accesses of the serial
  and the HID threads in which a thread that is inside a drop or a disconnect is not left waiting for
  ever.  If from some time on no HID interface is connected and no session is open, then from some time
  on no button and no touch area of the input page is on.
\<close>

theorem mai2_inputs_cleared_in_the_end:
  assumes "source_path ev st" and "source_initial (st 0)" and "clears_up ev st"
    and "\<forall>n\<ge>n0. no_source (st n)"
  shows "\<exists>m. \<forall>n\<ge>m. inputs (sy_page (st n)) = (0, 0, replicate 7 0)"
proof -
  note ok = path_ok [OF assms(1, 2)]
  have none: "no_source (st n)" if "n0 \<le> n" for n using assms(4) that by simp
  obtain m where m: "\<And>k. m k \<ge> n0" "\<And>k n. n \<ge> m k \<Longrightarrow> sy_hid (st n) k = HidOff"
    using drops_end [OF assms(1) ok assms(3) none] by metis
  let ?m = "max (m VendorHid) (max (m TouchHid) (m ButtonHid))"
  have off: "\<forall>k. sy_hid (st n) k = HidOff" if "?m \<le> n" for n
    using m(2) that by (simp add: all_kinds)
  have n0: "n0 \<le> ?m" using m(1) [of VendorHid] by simp
  obtain j where j: "j \<ge> ?m" "sy_serial (st j) = NoSession"
    using disconnect_ends [OF assms(1) ok assms(3), of ?m] none n0 by force
  have "all_clear (st n)" if "j \<le> n" for n
    using that
  proof (induction n rule: dec_induct)
    case base
    have "\<not> is_connected k (sy_dev (st j))" for k using none [of j] n0 j by (simp add: no_source_def)
    then show ?case using ok [of j] off [OF j(1)] j(2) by (auto simp: all_clear_def sources_ok_def unattended_def)
  next
    case (step n)
    show ?case
    proof (cases "ev n")
      case (Some e)
      have "n0 \<le> n" using n0 j(1) step(1) by (meson le_trans)
      with no_source_event [OF ok none source_pathD(2) [OF assms(1) Some] none] show ?thesis
        using all_clear_step [OF step(3) source_pathD(2) [OF assms(1) Some]] by simp
    qed (use source_pathD [OF assms(1), of n] step in simp)
  qed
  then show ?thesis by (intro exI [of _ j]) (simp add: all_clear_def inputs_def buttons_idle_def touch_idle_def)
qed

theorem mai2_inputs_cleared_in_the_end_witness:
  "\<exists>m. \<forall>n\<ge>m. inputs (sy_page (rest_states demo_drops demo_sources n)) = (0, 0, replicate 7 0)"
proof -
  obtain s where s: "source_run demo_drops demo_sources = Some s" "sy_serial s = NoSession" "\<forall>k. sy_hid s k = HidOff"
    using demo_drops_run by blast
  have init: "source_initial (rest_states demo_drops demo_sources 0)"
    by (simp add: rest_states_def source_initial_def demo_sources_def all_kinds mai2_demo_world_def
        mai2_demo_device_def dev_of_def)
  have "no_source (rest_states demo_drops demo_sources n)" if "length demo_drops \<le> n" for n
  proof -
    have "rest_states demo_drops demo_sources n = s" using that s(1) by (simp add: rest_states_def)
    moreover have "sources_ok s"
      using path_ok [OF rest_path [OF s(1)] init, of n] calculation by simp
    ultimately show ?thesis using s by (simp add: no_source_def sources_ok_def)
  qed
  with mai2_inputs_cleared_in_the_end [OF rest_path [OF s(1)] init rest_clears_up [OF s(1, 3, 2)]]
  show ?thesis by blast
qed

end
