(* ===== verification/Mai2_Effects.thy ===== *)
theory Mai2_Effects
  imports Mai2_Hid_Threads
begin

text \<open>
  What one iteration of the device thread, the serial reader and the callback thread, and one call of
  the game, leaves as it was: the connected flags and the open HID devices, which only the HID threads
  touch, and the shapes of the shared arrays.  \<open>Mai2_System\<close> puts these together with the effect of
  the HID threads (\<open>hid_loop\<close>).
\<close>

section \<open>The serial port opens no HID device\<close>

lemma hid_balance_port [mai2_simps]:
  "hid_balance (snd (sp_close p h)) = hid_balance h"
  "hid_balance (snd (sp_drop p h)) = hid_balance h"
  "hid_balance (snd (set_timeouts os t p h)) = hid_balance h"
  "hid_balance (snd (snd (sp_read os cap p h))) = hid_balance h"
  "hid_balance (snd (snd (sp_write os bs p h))) = hid_balance h"
  by (auto simp: sp_close_def sp_drop_def set_timeouts_def apply_timeouts_def sp_read_def sp_write_def
      wait_overlapped_def prepare_overlapped_def ensure_event_def Let_def
      split: answer.splits overlapped_wait.splits)

lemma hid_balance_ensure [mai2_simps]: "hid_balance (snd (snd (ensure_events os p h))) = hid_balance h"
  by (auto simp: ensure_events_def ensure_event_def Let_def)

lemma hid_balance_open [mai2_simps]: "hid_balance (snd (snd (sp_open os path baud p h))) = hid_balance h"
proof -
  let ?c = "sp_close p h"
  let ?h = "snd ?c @ [EvCreateFile path (os_create_file os (snd ?c) path)]"
  have "hid_balance (snd (snd (ensure_events os (fst ?c) ?h))) = hid_balance h" by (simp add: mai2_simps)
  then show ?thesis
    by (auto simp: sp_open_def apply_timeouts_def Let_def split_beta hid_balance_port split: option.splits)
qed

lemma hid_balance_search:
  assumes "find_com_port os vid pid h = Some (r, h')"
  shows "hid_balance h' = hid_balance h"
proof -
  from find_com_port_history [OF assms] obtain es where es: "h' = h @ es" "list_all is_search_event es"
    by (auto simp: search_more_def)
  from es(2) have "hid_balance es = 0"
  proof (induction es)
    case (Cons e es)
    then show ?case by (cases e) auto
  qed simp
  with es(1) show ?thesis by simp
qed

lemma port_wf_write [wf_intros]: "port_wf p \<Longrightarrow> port_wf (fst (snd (sp_write os bs p h)))"
proof (cases "is_open p")
  case False
  then have "fst (snd (sp_write os bs p h)) = p" by (auto simp: sp_write_def is_open_def Let_def)
  then show "port_wf p \<Longrightarrow> port_wf (fst (snd (sp_write os bs p h)))" by simp
qed (use sp_write_ready in blast)

section \<open>The device thread\<close>

definition session_ok :: "serial_session option \<Rightarrow> bool" where
  "session_ok s = (case s of None \<Rightarrow> True | Some ses \<Rightarrow> port_wf (ss_port ses))"

lemma session_ok_simps [simp]: "session_ok None" "session_ok (Some ses) = port_wf (ss_port ses)"
  by (simp_all add: session_ok_def)

definition dt_keeps :: "dt_state \<Rightarrow> dt_state \<Rightarrow> bool" where
  "dt_keeps s s' \<longleftrightarrow> keeps_world (snd s) (snd s') \<and>
     (session_ok (dl_session (fst s)) \<longrightarrow> session_ok (dl_session (fst s')))"

lemma keeps_world_refl [simp]: "keeps_world w w"
  by (simp add: keeps_world_def)

lemma dt_keeps_refl: "dt_keeps s s"
  by (simp add: dt_keeps_def)

lemma dt_keeps_trans: "dt_keeps s s1 \<Longrightarrow> dt_keeps s1 s2 \<Longrightarrow> dt_keeps s s2"
  unfolding dt_keeps_def using keeps_world_trans by blast

text \<open>Only the session and the world matter.\<close>

lemma dt_keeps_by:
  "keeps_world w w' \<Longrightarrow> (session_ok (dl_session l) \<Longrightarrow> session_ok (dl_session l')) \<Longrightarrow> dt_keeps (l, w) (l', w')"
  by (simp add: dt_keeps_def)

lemma dt_keeps_then:
  assumes "dt_keeps s (flow_state r)" "\<And>s'. r = Go s' \<Longrightarrow> dt_keeps s' (flow_state (f s'))"
  shows "dt_keeps s (flow_state (and_then r f))"
  using assms by (cases r) (auto intro: dt_keeps_trans)

lemma keeps_world_hist: "hid_balance h = hid_balance (mw_hist w) \<Longrightarrow> keeps_world w (w\<lparr>mw_hist := h\<rparr>)"
  by (rule keeps_world_sig) (simp add: mai2_simps)

lemma keeps_world_mark: "keeps_world w (input_update os i mark_input_connected w)"
  by (simp add: keeps_world_def mai2_simps)

lemma disconnect_session_keeps:
  "keeps_world w (snd (disconnect_session os i session w))" "fst (disconnect_session os i session w) = None"
proof -
  let ?w = "case session of None \<Rightarrow> w
    | Some s \<Rightarrow> w\<lparr>mw_hist := snd (sp_drop (ss_port (fst (session_close s (mw_hist w))))
        (snd (session_close s (mw_hist w)) @ [EvJoin]))\<rparr>"
  have "hid_balance (snd (session_close s h)) = hid_balance h" for s h
    using hid_balance_port(1) [of "ss_port s" h] by (simp add: session_close_def Let_def split_beta)
  then have w: "keeps_world w ?w"
    by (auto intro!: keeps_world_hist simp: hid_balance_port split: option.split)
  have "keeps_world ?w (input_update os i mark_input_connected ?w)"
    "keeps_world ?w (input_write os i mai2_input_default ?w)"
    by (simp_all add: keeps_world_def mai2_simps)
  note two = this [THEN keeps_world_trans [OF w]]
  show "keeps_world w (snd (disconnect_session os i session w))"
    using two by (auto simp: disconnect_session_def Let_def split_beta split: option.splits)
  show "fst (disconnect_session os i session w) = None" by (rule disconnect_session_input)
qed

lemma dt_disconnect_keeps: "dt_keeps s (dt_disconnect os i s)"
  using disconnect_session_keeps [where os = os and i = i and session = "dl_session (fst s)" and w = "snd s"]
  by (simp add: dt_keeps_def dt_disconnect_def Let_def split_beta)

lemma keeps_sleep: "keeps_world w w' \<Longrightarrow> keeps_world w (w_sleep ms w')"
  by (simp add: keeps_world_def mai2_simps)

lemma keeps_log: "keeps_world w w' \<Longrightarrow> keeps_world w (w_log tag msg w')"
  by (simp add: keeps_world_def mai2_simps)

lemma keeps_tick: "keeps_world w w' \<Longrightarrow> keeps_world w (snd (w_tick os w'))"
  by (simp add: keeps_world_def mai2_simps)

lemma keeps_dev: "keeps_world w w' \<Longrightarrow> (\<And>d. source_flags (f d) = source_flags d) \<Longrightarrow> keeps_world w (dev_update j f w')"
  by (simp add: keeps_world_def mai2_simps)

lemma dt_drop_keeps: "dt_keeps s (flow_state (dt_drop os i s))"
  using dt_disconnect_keeps [of s os i]
  by (auto simp: dt_drop_def dt_keeps_def split_beta Let_def intro: keeps_sleep)

text \<open>A step that gives up the session, in a world that is as good as the one before.\<close>

lemma dt_drop_from:
  "keeps_world (snd s) w \<Longrightarrow> (session_ok (dl_session (fst s)) \<Longrightarrow> session_ok (dl_session l)) \<Longrightarrow>
     dt_keeps s (flow_state (dt_drop os i (l, w)))"
  using dt_keeps_trans [OF _ dt_drop_keeps [of "(l, w)" os i], of s] by (simp add: dt_keeps_def)

lemma dt_gate_keeps: "dt_keeps s (flow_state (dt_gate os i s))"
proof -
  obtain l w where s: "s = (l, w)" by (cases s)
  have down: "keeps_world w (w_sleep ms (snd (dt_disconnect os i (l, w'))))"
      "session_ok (dl_session l) \<Longrightarrow> session_ok (dl_session (fst (dt_disconnect os i (l, w'))))"
    if "keeps_world w w'" for w' ms
    using dt_disconnect_keeps [of "(l, w')" os i] keeps_world_trans [OF that] keeps_sleep by (auto simp: dt_keeps_def)
  have h: "keeps_world w (w\<lparr>mw_hist := snd (hid_interface_present os pid up u (mw_hist w))\<rparr>)" for pid up u
    by (rule keeps_world_hist) (simp add: hid_interface_present_def Let_def)
  show ?thesis
    using h by (auto simp: s dt_gate_def Let_def split_beta intro!: dt_keeps_by down)
qed

lemma dt_connected_keeps: "port_wf port \<Longrightarrow> dt_keeps s (flow_state (dt_connected os i path port s))"
proof -
  assume p: "port_wf port"
  obtain l w where s: "s = (l, w)" by (cases s)
  let ?w1 = "dev_update i (\<lambda>d. d\<lparr>dv_serial_reconnects := dv_serial_reconnects d + 1\<rparr>)
      (w_log LogOk (lit ''Connected '' @ player_label i w @ lit '': '' @ trim_start_matches device_prefix path) w)"
  have w1: "keeps_world w ?w1" by (intro keeps_dev keeps_log) simp_all
  let ?w2 = "?w1\<lparr>mw_hist := snd (set_timeouts os session_timeouts port (mw_hist ?w1)) @
      [EvSpawn (lit ''serial_reader_thread'')]\<rparr>"
  have w2: "keeps_world w ?w2"
    by (rule keeps_world_trans [OF w1]) (rule keeps_world_hist, simp add: mai2_simps)
  show ?thesis
    unfolding s dt_connected_def Let_def split_beta fst_conv snd_conv flow_state.simps
    by (intro dt_keeps_by keeps_tick keeps_world_trans [OF w2] keeps_world_mark) (simp add: p session_new_def)
qed

lemma dt_connect_keeps:
  assumes "dt_connect os i s = Some r"
  shows "dt_keeps s (flow_state r)"
proof -
  obtain l w where s: "s = (l, w)" by (cases s)
  show ?thesis
  proof (cases "dl_session l \<noteq> None")
    case True
    then show ?thesis using assms dt_keeps_refl by (auto simp: s dt_connect_def)
  next
    case False
    then obtain found h where f: "find_com_port os AFFINE_VID (dv_pid (dev_of i w)) (mw_hist w) = Some (found, h)"
      using assms by (auto simp: s dt_connect_def Let_def split: bind_splits)
    let ?w = "w\<lparr>mw_hist := h\<rparr>"
    have w: "keeps_world w ?w" by (rule keeps_world_hist [OF hid_balance_search [OF f]])
    show ?thesis
    proof (cases found)
      case None
      then show ?thesis using assms False f w
        by (auto simp: s dt_connect_def Let_def intro!: dt_keeps_by keeps_sleep keeps_log)
    next
      case (Some path)
      obtain ok port h2 where o: "sp_open os path 115200 serial_port_default h = (ok, port, h2)"
        by (cases "sp_open os path 115200 serial_port_default h")
      have p: "port_wf port" using port_wf_open [of os path 115200 serial_port_default h] o by simp
      let ?w2 = "w\<lparr>mw_hist := h2\<rparr>"
      have "hid_balance h2 = hid_balance h"
        using hid_balance_open [where os = os and path = path and baud = 115200 and p = serial_port_default and h = h] o
        by simp
      then have "hid_balance h2 = hid_balance (mw_hist w)" using hid_balance_search [OF f] by simp
      then have w2: "keeps_world w ?w2" by (rule keeps_world_hist)
      show ?thesis
      proof (cases ok)
        case True
        have "dt_keeps (l, w) (flow_state (dt_connected os i path port (l, ?w2)))"
          by (rule dt_keeps_trans [OF _ dt_connected_keeps [OF p]]) (simp add: dt_keeps_def w2)
        then show ?thesis using assms False f Some o True by (auto simp: s dt_connect_def)
      next
        case fail: False
        let ?w3 = "w_sleep AFFINE_RESCAN_INTERVAL_MS (if \<not> dl_port_open_failed_logged l
            then w_log LogWarn (player_label i ?w2 @ lit '': Failed to open port '' @ path) ?w2 else ?w2)"
        have w3: "keeps_world w ?w3" by (intro keeps_sleep) (auto intro: keeps_log w2)
        have "keeps_world w (?w3\<lparr>mw_hist := snd (sp_drop port (mw_hist ?w3))\<rparr>)"
          by (rule keeps_world_trans [OF w3]) (rule keeps_world_hist, simp add: mai2_simps)
        then show ?thesis using assms False f Some o fail
          by (auto simp: s dt_connect_def Let_def split_beta intro!: dt_keeps_by)
      qed
    qed
  qed
qed

lemma dt_send_keeps: "dt_keeps s (snd (dt_send os cmd payload s))"
proof -
  obtain l w where s: "s = (l, w)" by (cases s)
  have bal: "hid_balance (snd (snd (session_write_frame os cmd payload ses h))) = hid_balance h"
    "port_wf (ss_port ses) \<Longrightarrow> port_wf (ss_port (fst (snd (session_write_frame os cmd payload ses h))))" for ses h
    using hid_balance_port(5) [of os "mai2_frame cmd payload" "ss_port ses" h]
      port_wf_write [of "ss_port ses" os "mai2_frame cmd payload" h]
    by (auto simp: session_write_frame_def Let_def split_beta)
  show ?thesis
    by (cases "dl_session l")
      (auto simp: s dt_send_def Let_def split_beta bal dt_keeps_refl intro!: dt_keeps_by keeps_world_hist)
qed

text \<open>A frame that is sent, with the failure that gives up the session.\<close>

lemma dt_sent:
  assumes "dt_send os cmd payload s = (ok, l, w)"
  shows "keeps_world (snd s) w" "session_ok (dl_session (fst s)) \<Longrightarrow> session_ok (dl_session l)"
  using dt_send_keeps [of s os cmd payload] assms by (simp_all add: dt_keeps_def)

lemma dt_heartbeat_keeps: "dt_keeps s (flow_state (dt_heartbeat os i now s))"
proof -
  obtain ok l w where r: "dt_send os AFFINE_CMD_HEARTBEAT [] s = (ok, l, w)"
    by (cases "dt_send os AFFINE_CMD_HEARTBEAT [] s")
  note k = dt_sent [OF r]
  show ?thesis
    using k by (auto simp: dt_heartbeat_def r dt_keeps_refl intro!: dt_drop_from keeps_dev)
      (auto simp: dt_keeps_def intro!: keeps_dev)
qed

lemma dt_board_info_keeps: "dt_keeps s (flow_state (dt_board_info os i now s))"
proof -
  obtain l0 w0 where s: "s = (l0, w0)" by (cases s)
  obtain ok l w where r: "dt_send os AFFINE_CMD_GET_BOARD_INFO [] (l0, w0) = (ok, l, w)"
    by (cases "dt_send os AFFINE_CMD_GET_BOARD_INFO [] (l0, w0)")
  have k: "keeps_world w0 w" "session_ok (dl_session l0) \<Longrightarrow> session_ok (dl_session l)"
    using dt_sent [OF r] by simp_all
  have seen: "session_ok (map_option (\<lambda>ses. ses\<lparr>ss_board_info_pending := a, ss_board_info_logged := b\<rparr>) x) = session_ok x"
    for a b x by (cases x) simp_all
  have drop: "dt_keeps (l0, w0) (flow_state (dt_drop os i (l, w)))"
    using k by (intro dt_drop_from) auto
  have go: "dt_keeps (l0, w0) (l\<lparr>dl_board_info_request_ms := now\<rparr>, w)"
    using k by (intro dt_keeps_by) auto
  have warn: "dt_keeps (l0, w0) (l\<lparr>dl_board_info_request_ms := now,
      dl_session := map_option (\<lambda>ses. ses\<lparr>ss_board_info_pending := False, ss_board_info_logged := True\<rparr>) (dl_session l)\<rparr>,
      w_log LogWarn msg w)" for msg
    using k by (intro dt_keeps_by keeps_log) (auto simp: seen)
  show ?thesis
    using drop go warn
    by (cases "dl_session l0") (auto simp: s dt_board_info_def r dt_keeps_refl Let_def)
qed

lemma dt_touch_watch_keeps: "dt_keeps s (flow_state (dt_touch_watch os i now output s))"
proof -
  obtain l0 w0 where s: "s = (l0, w0)" by (cases s)
  obtain l w where r: "dt_touch_recovered os i (l0, w0) = (l, w)" by (cases "dt_touch_recovered os i (l0, w0)")
  have k: "keeps_world w0 w" "dl_session l = dl_session l0"
    using r by (auto simp: dt_touch_recovered_def Let_def intro!: keeps_dev keeps_log split: if_splits)
  let ?w1 = "dev_update i (\<lambda>d. d\<lparr>dv_led_suspended := True\<rparr>) w"
  have k1: "keeps_world w0 ?w1" using k by (intro keeps_dev) auto
  then have k2: "keeps_world w0 (w_log tag msg ?w1)" for tag msg by (intro keeps_log)
  show ?thesis
    unfolding s dt_touch_watch_def r prod.case Let_def
    by (auto simp: k(2) intro!: dt_drop_from dt_keeps_by keeps_log keeps_sleep k(1) k1 k2)
qed

lemma dt_led_keeps:
  assumes "\<And>d. source_flags (count d) = source_flags d" "\<And>l. dl_session (seen l) = dl_session l"
  shows "dt_keeps s (flow_state (dt_led os i changed cmd payload count seen s))"
proof -
  obtain ok l w where r: "dt_send os cmd payload s = (ok, l, w)" by (cases "dt_send os cmd payload s")
  note k = dt_sent [OF r]
  have "dt_keeps s (flow_state (dt_drop os i (l, dev_update i (\<lambda>d. d\<lparr>dv_led_failures := dv_led_failures d + 1\<rparr>) w)))"
    using k by (intro dt_drop_from keeps_dev) auto
  moreover have "dt_keeps s (seen l, dev_update i (\<lambda>d. count (d\<lparr>dv_led_writes := dv_led_writes d + 1\<rparr>)) w)"
    using k by (auto simp: dt_keeps_def assms intro!: keeps_dev)
  ultimately show ?thesis by (simp add: dt_led_def r dt_keeps_refl)
qed

lemma dt_leds_keeps: "dt_keeps s (flow_state (dt_leds os i output s))"
  unfolding dt_leds_def
  by (intro dt_keeps_then dt_led_keeps) (simp_all add: dt_keeps_def keeps_sleep)

lemma dt_serve_keeps: "dt_keeps s (flow_state (dt_serve os i s))"
proof -
  have alive: "dt_keeps s (flow_state (dt_alive os i s))"
    using dt_drop_keeps [of s os i]
    by (auto simp: dt_alive_def dt_keeps_refl dt_keeps_def keeps_sleep split: option.split)
  have tick: "dt_keeps s (fst s, snd (w_tick os (snd s)))" for s
    by (simp add: dt_keeps_def keeps_tick)
  have out: "dt_keeps s (fst s, snd (output_read os i (snd s)))" for s
    by (simp add: dt_keeps_def keeps_world_sig mai2_simps)
  show ?thesis
    unfolding dt_serve_def Let_def split_beta
    by (intro dt_keeps_then alive dt_keeps_trans [OF tick dt_heartbeat_keeps] dt_board_info_keeps
        dt_keeps_trans [OF out dt_touch_watch_keeps] dt_leds_keeps
        dt_keeps_trans [OF tick dt_keeps_then] dt_keeps_trans [OF out dt_keeps_then] dt_heartbeat_keeps
        dt_touch_watch_keeps)
qed

lemma device_iteration_keeps:
  assumes "device_iteration os i s = Some s'"
  shows "dt_keeps s s'"
proof (cases "dt_gate os i s")
  case (Leave s1)
  then show ?thesis using assms dt_gate_keeps [of s os i] by (simp add: device_iteration_def)
next
  case (Go s1)
  then obtain c where c: "dt_connect os i s1 = Some c" "s' = flow_state (and_then c (dt_serve os i))"
    using assms by (auto simp: device_iteration_def split: bind_splits)
  have "dt_keeps s1 s'" unfolding c(2)
    by (rule dt_keeps_then [OF dt_connect_keeps [OF c(1)] dt_serve_keeps])
  with dt_gate_keeps [of s os i] Go show ?thesis using dt_keeps_trans by fastforce
qed

text \<open>An iteration has no result only if the enumeration of the COM ports does not end.\<close>

lemma device_iteration_stops:
  assumes "device_iteration os i s = None"
  shows "\<exists>h. find_com_port os AFFINE_VID (dv_pid (dev_of i (snd s))) h = None"
proof (cases "dt_gate os i s")
  case (Go s1)
  have pid: "dv_pid (dev_of i (snd s1)) = dv_pid (dev_of i (snd s))"
    using Go by (cases s) (auto simp: dt_gate_def Let_def split_beta dev_of_def split: if_splits)
  have "dt_connect os i s1 = None" using assms Go by (auto simp: device_iteration_def split: bind_splits)
  then have "\<exists>h. find_com_port os AFFINE_VID (dv_pid (dev_of i (snd s1))) h = None"
    by (cases s1) (auto simp: dt_connect_def Let_def split_beta split: if_splits bind_splits option.splits)
  then show ?thesis by (simp only: pid)
qed (use assms in \<open>simp add: device_iteration_def\<close>)

section \<open>The reader and the callback thread\<close>

lemma serial_frames_keep:
  "\<forall>f \<in> set fs. frame_typed f \<Longrightarrow> keeps_world (snd s) (snd (fold (serial_frame os i) fs s)) \<and>
     ss_port (fst (fold (serial_frame os i) fs s)) = ss_port (fst s)"
proof (induction fs arbitrary: s)
  case (Cons f fs)
  have one: "keeps_world (snd s) (snd (serial_frame os i f s))" "ss_port (fst (serial_frame os i f s)) = ss_port (fst s)"
    using Cons.prems by (cases f; cases s; simp add: keeps_world_def mai2_simps)+
  from Cons.IH [of "serial_frame os i f s"] Cons.prems show ?case
    using keeps_world_trans [OF one(1)] one(2) by simp
qed simp

lemma reader_iteration_keeps:
  assumes "rx_wf rx"
  shows "\<exists>rx' ses' w'. reader_iteration os i rx (ses, w) = Some (rx', ses', w') \<and> rx_wf rx' \<and>
    keeps_world w w' \<and> (port_wf (ss_port ses) \<longrightarrow> port_wf (ss_port ses'))"
proof (cases "ss_active ses")
  case False
  then show ?thesis using assms by (simp add: reader_iteration_def)
next
  case True
  obtain r p h where rd: "sp_read os AFFINE_SERIAL_READ_BUF_LEN (ss_port ses) (mw_hist w) = (r, p, h)"
    by (cases "sp_read os AFFINE_SERIAL_READ_BUF_LEN (ss_port ses) (mw_hist w)")
  let ?ses = "ses\<lparr>ss_port := p\<rparr>" and ?w = "w\<lparr>mw_hist := h\<rparr>"
  have "hid_balance h = hid_balance (mw_hist w)"
    using hid_balance_port(4) [of os AFFINE_SERIAL_READ_BUF_LEN "ss_port ses" "mw_hist w"] rd by simp
  then have w: "keeps_world w ?w" by (rule keeps_world_hist)
  have p: "port_wf (ss_port ses) \<longrightarrow> port_wf p"
    using port_wf_read [of "ss_port ses" os AFFINE_SERIAL_READ_BUF_LEN "mw_hist w"] rd by simp
  show ?thesis
  proof (cases r)
    case None
    then show ?thesis using True rd w p assms by (simp add: reader_iteration_def session_read_def)
  next
    case (Some bytes)
    let ?fs = "fst (drain (rx_held rx @ bytes))"
    from rx_run_refines [OF assms, of bytes] obtain rx' where
      rx': "rx_run rx bytes = Some (?fs, rx')" "rx_wf rx'" by blast
    have typed: "\<forall>f \<in> set ?fs. frame_typed f" using drain_typed by blast
    obtain ses' w' where e: "fold (serial_frame os i) ?fs (?ses, ?w) = (ses', w')"
      by (cases "fold (serial_frame os i) ?fs (?ses, ?w)")
    have "keeps_world w w'" "ss_port ses' = p"
      using serial_frames_keep [OF typed, of "(?ses, ?w)" os i] e keeps_world_trans [OF w] by simp_all
    then show ?thesis using True rd Some rx' p e
      by (simp add: reader_iteration_def session_read_def reader_bytes_run)
  qed
qed

lemma callback_iteration_keeps: "keeps_world w (snd (callback_iteration os i (l, w)))"
proof -
  have hist: "thread_sig (w\<lparr>mw_hist := mw_hist w @ [EvCallbackLock, EvCallbackUnlock]\<rparr>) = thread_sig w"
    "thread_sig (w\<lparr>mw_hist := mw_hist w @ [EvCallbackLock, EvCallbackUnlock, EvMai2Callback f p t]\<rparr>) = thread_sig w"
    for w f p t by (simp_all add: mai2_simps)
  have call: "thread_sig (mai2_invoke_callback i t w) = thread_sig w" for t w
    using hist by (auto simp: mai2_invoke_callback_def Let_def mai2_simps split: option.split)
  have diag: "thread_sig (snd (log_diag_lines i now t s)) = thread_sig (snd s)" for now t s
    by (cases s) (simp add: log_diag_lines_def Let_def mai2_simps)
  have serve: "thread_sig (snd (callback_serve os i s)) = thread_sig (snd s)" for s
    by (cases s) (simp add: callback_serve_def Let_def split_beta mai2_simps call diag)
  show ?thesis
    by (rule keeps_world_sig) (auto simp: callback_iteration_def Let_def split_beta mai2_simps serve)
qed

section \<open>The game's calls\<close>

definition output_page_typed :: "mai2_output_page \<Rightarrow> bool" where
  "output_page_typed page \<longleftrightarrow>
     length (op_buttons page) = 56 \<and> length (op_billboard page) = 24 \<and> length (op_pwm page) = 3"

definition outputs_typed :: "mai2_world \<Rightarrow> bool" where
  "outputs_typed w \<longleftrightarrow> (\<forall>a. output_page_typed (mw_output_mem w a))"

text \<open>The colour of \<open>led_set_fet_output\<close> is a \<open>[u8; 3]\<close>; every other argument may have any length.\<close>

fun request_typed :: "mai2_request \<Rightarrow> bool" where
  "request_typed (Mai2LedSetFet board rgb) = (length rgb = 3)"
| "request_typed c = True"

lemma outputs_typed_update:
  "outputs_typed w \<Longrightarrow> (\<And>p. output_page_typed p \<Longrightarrow> output_page_typed (f p)) \<Longrightarrow> outputs_typed (output_update os j f w)"
  by (simp add: outputs_typed_def mai2_world_defs)

text \<open>What a call keeps whatever it publishes: the flags, the open HID devices and the input pages.\<close>

definition game_sig ::
  "mai2_world \<Rightarrow> (nat \<Rightarrow> bool \<times> bool \<times> bool \<times> bool) \<times> int \<times> mai2_input_page memory" where
  "game_sig w = (\<lambda>j. source_flags (dev_of j w), hid_balance (mw_hist w), mw_input_mem w)"

lemma game_sig_simps [mai2_simps]:
  "game_sig (output_update os j f w) = game_sig w"
  "game_sig (snd (input_read os j w)) = game_sig w"
  "game_sig (w\<lparr>mw_led_start_latch := l\<rparr>) = game_sig w"
  by (auto simp: game_sig_def mai2_world_defs)

lemma game_sig_hist:
  "hid_balance h = hid_balance (mw_hist w) \<Longrightarrow>
     game_sig (w\<lparr>mw_poll_mem := m, mw_callback := c, mw_initialized := b, mw_hist := h\<rparr>) = game_sig w"
  by (simp add: game_sig_def dev_of_def)

lemma poll_game_sig: "game_sig (snd (mai2_poll os w)) = game_sig w"
proof -
  have keys: "hid_balance (snd (poll_keys os kb h)) = hid_balance h" for kb h
    by (auto simp: poll_keys_def key_down_def Let_def split_beta)
  have reads: "hid_balance (mw_hist (snd (input_read os j v))) = hid_balance (mw_hist v)" for j v
    by (simp add: mai2_world_defs)
  have sig: "game_sig (snd (input_read os 1 (snd (input_read os 0 w)))) = game_sig w" by (simp add: mai2_simps)
  show ?thesis
    unfolding mai2_poll_def Let_def split_beta snd_conv
    by (subst sig [symmetric]) (simp add: game_sig_def dev_of_def page_lock_def page_unlock_def keys reads)
qed

lemma init_game_sig: "game_sig (snd (mai2_init version exe w)) = game_sig w"
  by (auto simp: mai2_init_def game_sig_def dev_of_def log_event_def spawn_device_threads_def Let_def split: option.split)

lemma gs_records_length: "length (concat (map (gs_record rgbs latch) [0..<8])) = 56"
  if "length latch = 24"
  using that by (subst length_concat_const [where k = 7]) (auto simp: gs_record_def gs_target_def)

lemma output_mem_same: "mw_output_mem w' = mw_output_mem w \<Longrightarrow> outputs_typed w' = outputs_typed w"
  by (simp add: outputs_typed_def)

lemma publish_typed:
  "output_page_typed p \<Longrightarrow> length v = 56 \<Longrightarrow> output_page_typed (publish_buttons v p)"
  "output_page_typed p \<Longrightarrow> length v = 24 \<Longrightarrow> output_page_typed (publish_billboard v p)"
  "output_page_typed p \<Longrightarrow> length v = 3 \<Longrightarrow> output_page_typed (publish_pwm v p)"
  "output_page_typed p \<Longrightarrow> output_page_typed (p\<lparr>op_touch_enabled := b\<rparr>)"
  by (auto simp: output_page_typed_def publish_buttons_def publish_billboard_def publish_pwm_def)

lemma gs_update_game:
  assumes "mai2_led_gs_update os board rgb w = Some w'" "latch_ok w"
  shows "game_sig w' = game_sig w" and "outputs_typed w \<Longrightarrow> outputs_typed w'"
proof -
  have probe: "log_led_probe os b p w = w" for b p
    by (simp add: log_led_probe_def AFFINE_LED_PROBE_ENABLED_def)
  have "game_sig w' = game_sig w \<and> (outputs_typed w \<longrightarrow> outputs_typed w')"
  proof (cases "board > 1 \<or> length rgb < 32")
    case True
    then show ?thesis using assms(1) by (simp add: mai2_led_gs_update_def)
  next
    case False
    then have b: "board \<le> 1" "32 \<le> length rgb" by auto
    then have "unat board \<le> unat (1 :: u8)" by (simp add: word_le_nat_alt)
    then have "unat board = 0 \<or> unat board = 1" by (simp add: le_Suc_eq)
    then have latch: "length (mw_led_start_latch w (unat board)) = 24" using assms(2) by (auto simp: latch_ok_def)
    have "length (take 32 rgb) = 32" using b by simp
    note gs = gs_payload_records [OF this latch]
    let ?p = "concat (map (gs_record (take 32 rgb) (mw_led_start_latch w (unat board))) [0..<8])"
    let ?v = "w\<lparr>mw_led_start_latch := (mw_led_start_latch w)(unat board := concat (map (gs_target (take 32 rgb)) [0..<8]))\<rparr>"
    have w': "w' = output_update os (unat board) (publish_buttons ?p) ?v"
      using assms(1) False gs by (auto simp: mai2_led_gs_update_def probe Let_def)
    have "outputs_typed w'" if "outputs_typed w"
      unfolding w'
    proof (rule outputs_typed_update)
      show "outputs_typed ?v" using that by (simp add: outputs_typed_def)
    qed (rule publish_typed(1) [OF _ gs_records_length [OF latch]])
    then show ?thesis by (simp add: w' mai2_simps)
  qed
  then show "game_sig w' = game_sig w" "outputs_typed w \<Longrightarrow> outputs_typed w'" by simp_all
qed

lemma mai2_call_game:
  assumes "mai2_call os c w = Some w'" "latch_ok w"
  shows "game_sig w' = game_sig w"
proof (cases c)
  case (Mai2Init version exe)
  then show ?thesis using assms init_game_sig [of version exe w] by simp
next
  case (Mai2LedInit version exe)
  then show ?thesis using assms init_game_sig [of version exe w] by (auto simp: mai2_led_init_def)
next
  case Mai2Poll
  then show ?thesis using assms poll_game_sig [of os w] by simp
next
  case (Mai2LedGsUpdate board rgb)
  then show ?thesis using assms gs_update_game(1) [of os board rgb w w'] by simp
next
  case (Mai2SetTouchCallback callback)
  then show ?thesis using assms by (auto simp: mai2_set_touch_callback_def game_sig_def dev_of_def)
qed (use assms in \<open>auto simp: mai2_get_opbtns_def mai2_get_gamebtns_def poll_read_def mai2_set_touch_enabled_def
      mai2_led_set_fet_output_def mai2_led_billboard_set_def game_sig_def mai2_world_defs Let_def split: if_splits\<close>)

lemma mai2_call_outputs:
  assumes "mai2_call os c w = Some w'" "latch_ok w" "outputs_typed w" "request_typed c"
  shows "outputs_typed w'"
proof (cases c)
  case (Mai2LedGsUpdate board rgb)
  then show ?thesis using assms gs_update_game(2) [of os board rgb w w'] by simp
next
  case (Mai2LedSetFet board rgb)
  then show ?thesis using assms
    by (auto simp: mai2_led_set_fet_output_def intro!: outputs_typed_update publish_typed split: if_splits)
next
  case (Mai2LedBillboard board rgb)
  then show ?thesis using assms
    by (auto simp: mai2_led_billboard_set_def Let_def numeral_eq_Suc intro!: outputs_typed_update publish_typed split: if_splits)
next
  case (Mai2SetTouchEnabled p1 p2)
  then show ?thesis using assms
    by (auto simp: mai2_set_touch_enabled_def intro!: outputs_typed_update publish_typed)
next
  case (Mai2Init version exe)
  then have "mw_output_mem w' = mw_output_mem w"
    using assms by (auto simp: mai2_init_def Let_def split: option.splits if_splits)
  with assms(3) show ?thesis using output_mem_same by blast
next
  case (Mai2LedInit version exe)
  then have "mw_output_mem w' = mw_output_mem w"
    using assms by (auto simp: mai2_led_init_def mai2_init_def Let_def split: option.splits if_splits)
  with assms(3) show ?thesis using output_mem_same by blast
next
  case Mai2Poll
  then have "mw_output_mem w' = mw_output_mem w"
    using assms by (auto simp: mai2_poll_def input_read_def Let_def split_beta)
  with assms(3) show ?thesis using output_mem_same by blast
qed (use assms in \<open>auto simp: mai2_get_opbtns_def mai2_get_gamebtns_def poll_read_def mai2_set_touch_callback_def
      outputs_typed_def Let_def split_beta\<close>)

end
