(* ===== verification/Mai2_System.thy ===== *)
theory Mai2_System
  imports Mai2_Effects
begin

text \<open>
  The whole mai2 runtime as one machine: the shared world of \<open>Mai2_Device\<close>, the six threads of each of
  the two players with their locals, and the game.  An event is one iteration of one thread or one call
  of the game, in any order; the threads come into being with the first \<open>init\<close>, in the program the
  runtime is made for.  \<open>system_typed\<close> is the type of its states and the theorems at the end are type
  soundness: every reachable state has it, and from every reachable state every event can happen.
\<close>

section \<open>The machine\<close>

text \<open>
  The locals of one player's threads: for a HID thread its log flags and, while it has a device open,
  the locals of its inner loop.  The serial reader works on the session of the device thread.
\<close>

record player_threads =
  pt_device :: device_locals
  pt_rx :: rx_state
  pt_vendor :: "hid_flags \<times> vendor_locals option"
  pt_touch :: "hid_flags \<times> touch_locals option"
  pt_button :: "hid_flags \<times> rstr option"
  pt_callback :: callback_locals

datatype mai2_thread =
    DeviceThread
  | ReaderThread
  | VendorThread
  | TouchThread
  | ButtonThread
  | CallbackThread

datatype system_event = ThreadRuns mai2_thread nat | GameCalls mai2_request

record mai2_system =
  sys_world :: mai2_world
  sys_threads :: "nat \<Rightarrow> player_threads option"

definition hid_idle :: "hid_flags \<times> 'l option" where
  "hid_idle = (hid_flags_init, None)"

text \<open>What \<open>init\<close> spawns for one player: the threads at the head of their functions.\<close>

definition start_player :: "os \<Rightarrow> nat \<Rightarrow> mai2_world \<Rightarrow> player_threads \<times> mai2_world" where
  "start_player os i w =
     (let (device, w) = device_locals_init os i w; (callback, w) = callback_locals_init os w
      in (\<lparr>pt_device = device, pt_rx = rx_init, pt_vendor = hid_idle, pt_touch = hid_idle,
           pt_button = hid_idle, pt_callback = callback\<rparr>, w))"

definition start_threads :: "os \<Rightarrow> mai2_system \<Rightarrow> mai2_system" where
  "start_threads os s =
     (let (p1, w) = start_player os 0 (sys_world s); (p2, w) = start_player os 1 w
      in s\<lparr>sys_world := w, sys_threads := (sys_threads s)(0 := Some p1, 1 := Some p2)\<rparr>)"

text \<open>The call that starts the threads: the first \<open>init\<close> or \<open>led_init\<close>, in the game's own program.\<close>

definition runs_in_game :: "rstr option \<Rightarrow> bool" where
  "runs_in_game exe = (case exe of None \<Rightarrow> True | Some name \<Rightarrow> eq_ignore_ascii_case name (lit ''Sinmai.exe''))"

fun call_spawns :: "mai2_request \<Rightarrow> mai2_world \<Rightarrow> bool" where
  "call_spawns (Mai2Init version exe) w = (\<not> mw_initialized w \<and> runs_in_game exe)"
| "call_spawns (Mai2LedInit version exe) w = (\<not> mw_initialized w \<and> runs_in_game exe)"
| "call_spawns c w = False"

text \<open>
  One iteration of a thread.  A session that is opened gets a reader of its own, with an empty receive
  buffer; without a session there is no reader.
\<close>

fun thread_iteration ::
  "os \<Rightarrow> mai2_thread \<Rightarrow> nat \<Rightarrow> player_threads \<times> mai2_world \<Rightarrow> (player_threads \<times> mai2_world) option" where
  "thread_iteration os DeviceThread i (pt, w) = do {
     (l, w) \<leftarrow> device_iteration os i (pt_device pt, w);
     Some (pt\<lparr>pt_device := l, pt_rx := (if dl_session (pt_device pt) = None then rx_init else pt_rx pt)\<rparr>, w)
   }"
| "thread_iteration os ReaderThread i (pt, w) =
     (case dl_session (pt_device pt) of
        None \<Rightarrow> Some (pt, w)
      | Some session \<Rightarrow> do {
          (rx, session, w) \<leftarrow> reader_iteration os i (pt_rx pt) (session, w);
          Some (pt\<lparr>pt_rx := rx, pt_device := (pt_device pt)\<lparr>dl_session := Some session\<rparr>\<rparr>, w)
        })"
| "thread_iteration os VendorThread i (pt, w) = do {
     (fl, loop, w) \<leftarrow> vendor_thread_step os i (fst (pt_vendor pt), snd (pt_vendor pt), w);
     Some (pt\<lparr>pt_vendor := (fl, loop)\<rparr>, w)
   }"
| "thread_iteration os TouchThread i (pt, w) = do {
     (fl, loop, w) \<leftarrow> touch_thread_step os i (fst (pt_touch pt), snd (pt_touch pt), w);
     Some (pt\<lparr>pt_touch := (fl, loop)\<rparr>, w)
   }"
| "thread_iteration os ButtonThread i (pt, w) = do {
     (fl, loop, w) \<leftarrow> button_thread_step os i (fst (pt_button pt), snd (pt_button pt), w);
     Some (pt\<lparr>pt_button := (fl, loop)\<rparr>, w)
   }"
| "thread_iteration os CallbackThread i (pt, w) =
     (let (l, w) = callback_iteration os i (pt_callback pt, w) in Some (pt\<lparr>pt_callback := l\<rparr>, w))"

text \<open>\<open>None\<close> is a panic, or an enumeration of the COM ports that does not end.\<close>

fun system_step :: "os \<Rightarrow> system_event \<Rightarrow> mai2_system \<Rightarrow> mai2_system option" where
  "system_step os (ThreadRuns t i) s =
     (case sys_threads s i of
        None \<Rightarrow> Some s
      | Some pt \<Rightarrow> do {
          (pt, w) \<leftarrow> thread_iteration os t i (pt, sys_world s);
          Some (s\<lparr>sys_world := w, sys_threads := (sys_threads s)(i := Some pt)\<rparr>)
        })"
| "system_step os (GameCalls c) s = do {
     w \<leftarrow> mai2_call os c (sys_world s);
     let s1 = s\<lparr>sys_world := w\<rparr>;
     Some (if call_spawns c (sys_world s) then start_threads os s1 else s1)
   }"

fun system_run :: "os \<Rightarrow> system_event list \<Rightarrow> mai2_system \<Rightarrow> mai2_system option" where
  "system_run os [] s = Some s"
| "system_run os (e # es) s = do { s \<leftarrow> system_step os e s; system_run os es s }"

text \<open>The runtime as it is created, before the first call.\<close>

definition system_new :: "mai2_world \<Rightarrow> mai2_system" where
  "system_new w = \<lparr>sys_world = w, sys_threads = (\<lambda>i. None)\<rparr>"

fun event_typed :: "system_event \<Rightarrow> bool" where
  "event_typed (GameCalls c) = request_typed c"
| "event_typed (ThreadRuns t i) = True"

section \<open>The type of a state\<close>

definition hid_part_ok :: "hid_kind \<Rightarrow> nat \<Rightarrow> hid_flags \<times> 'l option \<Rightarrow> mai2_world \<Rightarrow> bool" where
  "hid_part_ok kind i part w \<longleftrightarrow> (is_connected kind (dev_of i w) \<longleftrightarrow> snd part \<noteq> None)"

definition threads_ok :: "nat \<Rightarrow> player_threads option \<Rightarrow> mai2_world \<Rightarrow> bool" where
  "threads_ok i threads w =
     (case threads of
        None \<Rightarrow> \<forall>k. \<not> is_connected k (dev_of i w)
      | Some pt \<Rightarrow>
          rx_wf (pt_rx pt) \<and> session_ok (dl_session (pt_device pt)) \<and>
          hid_part_ok VendorHid i (pt_vendor pt) w \<and> hid_part_ok TouchHid i (pt_touch pt) w \<and>
          hid_part_ok ButtonHid i (pt_button pt) w \<and>
          (\<forall>l. snd (pt_touch pt) = Some l \<longrightarrow> assembler_wf (tl_assembler l)))"

text \<open>How many HID devices the threads of a player have open.\<close>

definition open_loops :: "player_threads option \<Rightarrow> int" where
  "open_loops threads =
     (case threads of
        None \<Rightarrow> 0
      | Some pt \<Rightarrow> loop_count (snd (pt_vendor pt)) + loop_count (snd (pt_touch pt)) + loop_count (snd (pt_button pt)))"

text \<open>
  The arrays of the shared pages have the lengths of their Rust types, every connected flag is set
  exactly while its thread has a device open, every receive buffer and port is well formed, there are
  threads for the two players only, once \<open>init\<close> was called, and every HID device that was opened and
  not closed belongs to a thread.
\<close>

definition system_typed :: "mai2_system \<Rightarrow> bool" where
  "system_typed s \<longleftrightarrow>
     inputs_typed (sys_world s) \<and> outputs_typed (sys_world s) \<and> latch_ok (sys_world s) \<and>
     (\<forall>i. threads_ok i (sys_threads s i) (sys_world s)) \<and>
     (\<forall>i. sys_threads s i \<noteq> None \<longrightarrow> i < 2 \<and> mw_initialized (sys_world s)) \<and>
     hid_balance (mw_hist (sys_world s)) = open_loops (sys_threads s 0) + open_loops (sys_threads s 1)"

section \<open>Preservation by the threads\<close>

text \<open>
  What an iteration of a thread of player \<open>i\<close> does, seen from outside: the state stays typed, and the
  threads of other players, the output pages and the latches are as they were.
\<close>

definition iteration_ok :: "nat \<Rightarrow> player_threads \<times> mai2_world \<Rightarrow> player_threads \<times> mai2_world \<Rightarrow> bool" where
  "iteration_ok i s s' \<longleftrightarrow>
     (inputs_typed (snd s) \<longrightarrow> inputs_typed (snd s')) \<and> mw_output_mem (snd s') = mw_output_mem (snd s) \<and>
     mw_led_start_latch (snd s') = mw_led_start_latch (snd s) \<and>
     mw_initialized (snd s') = mw_initialized (snd s) \<and>
     (threads_ok i (Some (fst s)) (snd s) \<longrightarrow> threads_ok i (Some (fst s')) (snd s')) \<and>
     (\<forall>k j. j \<noteq> i \<longrightarrow> is_connected k (dev_of j (snd s')) = is_connected k (dev_of j (snd s))) \<and>
     hid_balance (mw_hist (snd s')) - open_loops (Some (fst s')) =
       hid_balance (mw_hist (snd s)) - open_loops (Some (fst s))"

text \<open>An iteration that keeps the world and the HID loops, and leaves its own locals well formed.\<close>

lemma iteration_ok_keeps:
  assumes "keeps_world w w'"
    and "pt_vendor pt' = pt_vendor pt" "pt_touch pt' = pt_touch pt" "pt_button pt' = pt_button pt"
    and "rx_wf (pt_rx pt) \<and> session_ok (dl_session (pt_device pt)) \<longrightarrow>
      rx_wf (pt_rx pt') \<and> session_ok (dl_session (pt_device pt'))"
  shows "iteration_ok i (pt, w) (pt', w')"
proof -
  have sig: "hid_sig w' = hid_sig w" using assms(1) by (simp add: keeps_world_def)
  then have mem: "mw_output_mem w' = mw_output_mem w" "mw_led_start_latch w' = mw_led_start_latch w"
    "mw_initialized w' = mw_initialized w"
    by (simp_all add: hid_sig_def)
  show ?thesis
    using assms mem others_sig [OF sig]
    by (simp add: iteration_ok_def threads_ok_def hid_part_ok_def open_loops_def keeps_world_def)
qed

lemma others_apart:
  assumes "others kind i w' = others kind i w"
  shows "mw_output_mem w' = mw_output_mem w" "mw_led_start_latch w' = mw_led_start_latch w"
    "mw_initialized w' = mw_initialized w"
    and "k \<noteq> kind \<or> j \<noteq> i \<Longrightarrow> is_connected k (dev_of j w') = is_connected k (dev_of j w)"
proof -
  from assms have f: "(\<lambda>k j. is_connected k (dev_of j w') \<and> (k \<noteq> kind \<or> j \<noteq> i)) =
      (\<lambda>k j. is_connected k (dev_of j w) \<and> (k \<noteq> kind \<or> j \<noteq> i))"
    and m: "mw_output_mem w' = mw_output_mem w" "mw_led_start_latch w' = mw_led_start_latch w"
      "mw_initialized w' = mw_initialized w"
    by (simp_all add: others_def)
  show "mw_output_mem w' = mw_output_mem w" "mw_led_start_latch w' = mw_led_start_latch w"
    "mw_initialized w' = mw_initialized w" by (fact m)+
  show "k \<noteq> kind \<or> j \<noteq> i \<Longrightarrow> is_connected k (dev_of j w') = is_connected k (dev_of j w)"
    using fun_cong [OF fun_cong [OF f, of k], of j] by blast
qed

lemma hid_conf_of_part:
  "hid_conf_ok kind i (hid_balance (mw_hist w) - loop_count loop) (fl, loop, w) =
     hid_part_ok kind i (fl, loop) w"
  by (simp add: hid_conf_ok_def hid_part_ok_def)

text \<open>An iteration of a HID thread, once it is known what it makes of its own part.\<close>

lemma hid_iteration_ok:
  assumes conf: "hid_conf_ok kind i (hid_balance (mw_hist w) - loop_count loop) (fl', loop', w')"
    and oth: "others kind i w' = others kind i w" and typed: "inputs_typed w \<longrightarrow> inputs_typed w'"
    and loops: "open_loops (Some pt') - loop_count loop' = open_loops (Some pt) - loop_count loop"
    and own: "\<And>v. (\<And>k. is_connected k (dev_of i v) \<longleftrightarrow> (if k = kind then loop' \<noteq> None else is_connected k (dev_of i w))) \<Longrightarrow>
      threads_ok i (Some pt') v"
  shows "iteration_ok i (pt, w) (pt', w')"
proof -
  note apart = others_apart [OF oth]
  have flag: "is_connected kind (dev_of i w') \<longleftrightarrow> loop' \<noteq> None"
    and bal: "hid_balance (mw_hist w') = hid_balance (mw_hist w) - loop_count loop + loop_count loop'"
    using conf by (simp_all add: hid_conf_ok_def)
  have "threads_ok i (Some pt') w'" by (rule own) (use flag apart(4) in auto)
  then show ?thesis using typed apart bal loops by (simp add: iteration_ok_def)
qed

definition endless_search :: "os \<Rightarrow> bool" where
  "endless_search os \<longleftrightarrow> (\<exists>pid h. find_com_port os AFFINE_VID pid h = None)"

lemma thread_iteration_ok:
  assumes ok: "threads_ok i (Some pt) w"
  shows "(\<exists>s'. thread_iteration os t i (pt, w) = Some s' \<and> iteration_ok i (pt, w) s') \<or>
    (thread_iteration os t i (pt, w) = None \<and> endless_search os)"
proof (cases t)
  case DeviceThread
  show ?thesis
  proof (cases "device_iteration os i (pt_device pt, w)")
    case None
    then show ?thesis using DeviceThread device_iteration_stops [OF None] by (auto simp: endless_search_def)
  next
    case (Some lw)
    obtain l w' where lw: "lw = (l, w')" by (cases lw)
    then show ?thesis
      using DeviceThread Some device_iteration_keeps [OF Some]
      by (auto simp: dt_keeps_def rx_wf_init intro!: iteration_ok_keeps)
  qed
next
  case ReaderThread
  have rx: "rx_wf (pt_rx pt)" using ok by (simp add: threads_ok_def)
  show ?thesis
  proof (cases "dl_session (pt_device pt)")
    case None
    then show ?thesis using ReaderThread by (auto intro!: iteration_ok_keeps)
  next
    case (Some ses)
    from reader_iteration_keeps [OF rx, of os i ses w] show ?thesis
      using ReaderThread Some by (auto intro!: iteration_ok_keeps)
  qed
next
  case CallbackThread
  obtain l w' where c: "callback_iteration os i (pt_callback pt, w) = (l, w')"
    by (cases "callback_iteration os i (pt_callback pt, w)")
  have "keeps_world w w'" using callback_iteration_keeps [of w os i "pt_callback pt"] c by simp
  then show ?thesis using CallbackThread c by (auto intro!: iteration_ok_keeps)
next
  case VendorThread
  obtain fl loop where p: "pt_vendor pt = (fl, loop)" by (cases "pt_vendor pt")
  have "hid_conf_ok VendorHid i (hid_balance (mw_hist w) - loop_count loop) (fl, loop, w)"
    using ok p by (simp add: hid_conf_of_part threads_ok_def)
  from vendor_loop.step_effect [OF this, of os] obtain fl' loop' w' where
    step: "vendor_thread_step os i (fl, loop, w) = Some (fl', loop', w')"
      "hid_conf_ok VendorHid i (hid_balance (mw_hist w) - loop_count loop) (fl', loop', w')"
      "others VendorHid i w' = others VendorHid i w" "inputs_typed w \<longrightarrow> inputs_typed w'"
    unfolding vendor_thread_step_def by blast
  have "iteration_ok i (pt, w) (pt\<lparr>pt_vendor := (fl', loop')\<rparr>, w')"
  proof (rule hid_iteration_ok [OF step(2, 3, 4)])
    show "open_loops (Some (pt\<lparr>pt_vendor := (fl', loop')\<rparr>)) - loop_count loop' = open_loops (Some pt) - loop_count loop"
      using p by (simp add: open_loops_def)
  qed (use ok p in \<open>simp add: threads_ok_def hid_part_ok_def\<close>)
  then show ?thesis using VendorThread p step(1) by simp
next
  case TouchThread
  obtain fl loop where p: "pt_touch pt = (fl, loop)" by (cases "pt_touch pt")
  have "hid_conf_ok TouchHid i (hid_balance (mw_hist w) - loop_count loop) (fl, loop, w)"
    using ok p by (simp add: hid_conf_of_part threads_ok_def)
  from touch_loop.step_effect [OF this, of os] obtain fl' loop' w' where
    step: "touch_thread_step os i (fl, loop, w) = Some (fl', loop', w')"
      "hid_conf_ok TouchHid i (hid_balance (mw_hist w) - loop_count loop) (fl', loop', w')"
      "others TouchHid i w' = others TouchHid i w" "inputs_typed w \<longrightarrow> inputs_typed w'"
      "(\<forall>l. loop = Some l \<longrightarrow> assembler_wf (tl_assembler l)) \<longrightarrow>
         (\<forall>l. loop' = Some l \<longrightarrow> assembler_wf (tl_assembler l))"
    unfolding touch_thread_step_def by blast
  have "\<forall>l. loop = Some l \<longrightarrow> assembler_wf (tl_assembler l)" using ok p by (simp add: threads_ok_def)
  with step(5) have asm: "\<forall>l. loop' = Some l \<longrightarrow> assembler_wf (tl_assembler l)" by (rule mp)
  have "iteration_ok i (pt, w) (pt\<lparr>pt_touch := (fl', loop')\<rparr>, w')"
  proof (rule hid_iteration_ok [OF step(2, 3, 4)])
    show "open_loops (Some (pt\<lparr>pt_touch := (fl', loop')\<rparr>)) - loop_count loop' = open_loops (Some pt) - loop_count loop"
      using p by (simp add: open_loops_def)
  qed (use ok p asm in \<open>simp add: threads_ok_def hid_part_ok_def\<close>)
  then show ?thesis using TouchThread p step(1) by simp
next
  case ButtonThread
  obtain fl loop where p: "pt_button pt = (fl, loop)" by (cases "pt_button pt")
  have "hid_conf_ok ButtonHid i (hid_balance (mw_hist w) - loop_count loop) (fl, loop, w)"
    using ok p by (simp add: hid_conf_of_part threads_ok_def)
  from button_loop.step_effect [OF this, of os] obtain fl' loop' w' where
    step: "button_thread_step os i (fl, loop, w) = Some (fl', loop', w')"
      "hid_conf_ok ButtonHid i (hid_balance (mw_hist w) - loop_count loop) (fl', loop', w')"
      "others ButtonHid i w' = others ButtonHid i w" "inputs_typed w \<longrightarrow> inputs_typed w'"
    unfolding button_thread_step_def by blast
  have "iteration_ok i (pt, w) (pt\<lparr>pt_button := (fl', loop')\<rparr>, w')"
  proof (rule hid_iteration_ok [OF step(2, 3, 4)])
    show "open_loops (Some (pt\<lparr>pt_button := (fl', loop')\<rparr>)) - loop_count loop' = open_loops (Some pt) - loop_count loop"
      using p by (simp add: open_loops_def)
  qed (use ok p in \<open>simp add: threads_ok_def hid_part_ok_def\<close>)
  then show ?thesis using ButtonThread p step(1) by simp
qed

section \<open>Preservation by the game's calls\<close>

text \<open>Only the world's flags matter to \<open>threads_ok\<close>.\<close>

lemma threads_ok_flags:
  "(\<And>k. is_connected k (dev_of i w') = is_connected k (dev_of i w)) \<Longrightarrow> threads_ok i t w' = threads_ok i t w"
  by (simp add: threads_ok_def hid_part_ok_def split: option.split)

lemma game_sig_flags:
  assumes "game_sig w' = game_sig w"
  shows "is_connected k (dev_of i w') = is_connected k (dev_of i w)"
    and "hid_balance (mw_hist w') = hid_balance (mw_hist w)"
    and "inputs_typed w' = inputs_typed w"
proof -
  have "source_flags (dev_of i w') = source_flags (dev_of i w)"
    using assms by (metis (no_types, lifting) fst_conv game_sig_def)
  then show "is_connected k (dev_of i w') = is_connected k (dev_of i w)" by (rule is_connected_flags)
  show "hid_balance (mw_hist w') = hid_balance (mw_hist w)" "inputs_typed w' = inputs_typed w"
    using assms by (simp_all add: game_sig_def inputs_typed_def)
qed

lemma call_initialized:
  assumes "mai2_call os c w = Some w'"
  shows "mw_initialized w \<Longrightarrow> mw_initialized w'" and "call_spawns c w \<Longrightarrow> mw_initialized w' \<and> \<not> mw_initialized w"
proof -
  have out: "mw_initialized (output_update os j f v) = mw_initialized v"
    and led: "log_led_probe os b p v = v" for j f v b p
    by (auto simp: mai2_world_defs log_led_probe_def AFFINE_LED_PROBE_ENABLED_def)
  show "mw_initialized w \<Longrightarrow> mw_initialized w'" "call_spawns c w \<Longrightarrow> mw_initialized w' \<and> \<not> mw_initialized w"
    using assms
    by (cases c; auto simp: mai2_init_def mai2_led_init_def mai2_poll_def input_read_def mai2_get_opbtns_def
        mai2_get_gamebtns_def poll_read_def mai2_set_touch_callback_def mai2_set_touch_enabled_def out led
        mai2_led_set_fet_output_def mai2_led_gs_update_def mai2_led_billboard_set_def Let_def split_beta
        split: option.splits if_splits bind_splits)+
qed

lemma start_player_effect:
  "keeps_world w (snd (start_player os i w))"
  "(\<And>k. \<not> is_connected k (dev_of i v)) \<Longrightarrow> threads_ok i (Some (fst (start_player os i w))) v"
  "open_loops (Some (fst (start_player os i w))) = 0"
  by (auto simp: start_player_def device_locals_init_def callback_locals_init_def Let_def split_beta hid_idle_def
      threads_ok_def hid_part_ok_def open_loops_def loop_count_def rx_wf_init intro!: keeps_tick)

lemma start_threads_typed:
  assumes typed: "system_typed s" and fresh: "\<And>i. sys_threads s i = None" and up: "mw_initialized (sys_world s)"
  shows "system_typed (start_threads os s)"
proof -
  obtain p1 w1 where p1: "start_player os 0 (sys_world s) = (p1, w1)" by (cases "start_player os 0 (sys_world s)")
  obtain p2 w2 where p2: "start_player os 1 w1 = (p2, w2)" by (cases "start_player os 1 w1")
  have k: "keeps_world (sys_world s) w2"
    using start_player_effect(1) [of "sys_world s" os 0] start_player_effect(1) [of w1 os 1] p1 p2
    by (metis keeps_world_trans snd_conv)
  then have sig: "hid_sig w2 = hid_sig (sys_world s)" and inp: "inputs_typed w2"
    using typed by (simp_all add: keeps_world_def system_typed_def)
  note same = others_sig [OF sig]
  have mem: "outputs_typed w2" "latch_ok w2" "mw_initialized w2"
    using sig up typed by (simp_all add: hid_sig_def outputs_typed_def latch_ok_def system_typed_def)
  have off: "\<not> is_connected k (dev_of i w2)" for k i
    unfolding same using typed fresh by (simp add: system_typed_def threads_ok_def)
  have all: "threads_ok i (((sys_threads s)(0 := Some p1, 1 := Some p2)) i) w2" for i
    using start_player_effect(2) [OF off, of 0 os "sys_world s"] start_player_effect(2) [OF off, of 1 os w1] off
    by (simp only: p1 p2 fst_conv fun_upd_apply fresh) (simp add: threads_ok_def)
  have bal: "hid_balance (mw_hist w2) = 0"
    unfolding same using typed fresh by (simp add: system_typed_def open_loops_def)
  have loops: "open_loops (Some p1) = 0" "open_loops (Some p2) = 0"
    using start_player_effect(3) [of os 0 "sys_world s"] start_player_effect(3) [of os 1 w1]
    by (simp_all only: p1 p2 fst_conv)
  have "start_threads os s = s\<lparr>sys_world := w2, sys_threads := (sys_threads s)(0 := Some p1, 1 := Some p2)\<rparr>"
    using p1 p2 by (simp add: start_threads_def)
  then show ?thesis
    using inp mem bal loops all fresh by (auto simp: system_typed_def)
qed

lemma call_step_typed:
  assumes typed: "system_typed s" and call: "mai2_call os c (sys_world s) = Some w" "request_typed c" "latch_ok w"
  shows "system_typed (s\<lparr>sys_world := w\<rparr>)"
proof -
  have lat: "latch_ok (sys_world s)" "outputs_typed (sys_world s)" using typed by (simp_all add: system_typed_def)
  note sig = game_sig_flags [OF mai2_call_game [OF call(1) lat(1)]]
  have "threads_ok i t w = threads_ok i t (sys_world s)" for i t by (rule threads_ok_flags) (rule sig(1))
  then show ?thesis
    using typed sig(2, 3) call(3) mai2_call_outputs [OF call(1) lat call(2)] call_initialized(1) [OF call(1)]
    by (auto simp: system_typed_def)
qed

section \<open>Steps\<close>

lemma thread_step_typed:
  assumes typed: "system_typed s" and Some: "sys_threads s i = Some pt"
    and it: "iteration_ok i (pt, sys_world s) (pt', w')"
  shows "system_typed (s\<lparr>sys_world := w', sys_threads := (sys_threads s)(i := Some pt')\<rparr>)"
proof -
  have ok: "threads_ok i (Some pt) (sys_world s)" using typed Some unfolding system_typed_def by metis
  have i: "i = 0 \<or> i = 1" using typed Some by (auto simp: system_typed_def less_2_cases_iff)
  have flags: "is_connected k (dev_of j w') = is_connected k (dev_of j (sys_world s))" if "j \<noteq> i" for j k
    using it that by (simp add: iteration_ok_def)
  have own: "threads_ok i (Some pt') w'" using it ok by (simp add: iteration_ok_def)
  have all: "threads_ok j (if j = i then Some pt' else sys_threads s j) w'" for j
  proof (cases "j = i")
    case False
    have "threads_ok j (sys_threads s j) w' = threads_ok j (sys_threads s j) (sys_world s)"
      by (rule threads_ok_flags) (rule flags [OF False])
    then show ?thesis using typed False by (simp add: system_typed_def)
  qed (use own in simp)
  have bal: "hid_balance (mw_hist w') = open_loops (if 0 = i then Some pt' else sys_threads s 0) +
      open_loops (if 1 = i then Some pt' else sys_threads s 1)"
    using it typed i Some by (auto simp: iteration_ok_def system_typed_def)
  show "system_typed (s\<lparr>sys_world := w', sys_threads := (sys_threads s)(i := Some pt')\<rparr>)"
    using it typed all bal Some i
    by (auto simp: system_typed_def iteration_ok_def outputs_typed_def latch_ok_def)
qed

text \<open>Progress and preservation at once.\<close>

lemma system_step_typed:
  assumes typed: "system_typed s" and e: "event_typed e"
  shows "(\<exists>s'. system_step os e s = Some s' \<and> system_typed s') \<or>
    (system_step os e s = None \<and> endless_search os)"
proof (cases e)
  case (GameCalls c)
  have lat: "latch_ok (sys_world s)" using typed by (simp add: system_typed_def)
  obtain w where w: "mai2_call os c (sys_world s) = Some w" "latch_ok w"
    using mai2_call_latch [OF lat, of os c] by blast
  have t1: "system_typed (s\<lparr>sys_world := w\<rparr>)" using call_step_typed [OF typed w(1) _ w(2)] e GameCalls by simp
  show ?thesis
  proof (cases "call_spawns c (sys_world s)")
    case True
    then have "\<not> mw_initialized (sys_world s)" "mw_initialized w"
      using call_initialized(2) [OF w(1)] by simp_all
    then have "sys_threads s i = None" for i using typed by (auto simp: system_typed_def)
    with start_threads_typed [OF t1] \<open>mw_initialized w\<close> show ?thesis
      using GameCalls w(1) True by (auto simp: Let_def)
  qed (use GameCalls w(1) t1 in simp)
next
  case (ThreadRuns t i)
  show ?thesis
  proof (cases "sys_threads s i")
    case None
    then show ?thesis using ThreadRuns typed by simp
  next
    case (Some pt)
    have ok: "threads_ok i (Some pt) (sys_world s)" using typed Some unfolding system_typed_def by metis
    show ?thesis
    proof (cases "thread_iteration os t i (pt, sys_world s)")
      case None
      then show ?thesis using ThreadRuns Some thread_iteration_ok [OF ok, of os t] by simp
    next
      case it': (Some ptw)
      obtain pt' w' where "ptw = (pt', w')" by (cases ptw)
      with it' have it: "thread_iteration os t i (pt, sys_world s) = Some (pt', w')" by simp
      have step: "system_typed (s\<lparr>sys_world := w', sys_threads := (sys_threads s)(i := Some pt')\<rparr>)"
        by (rule thread_step_typed [OF typed Some]) (use thread_iteration_ok [OF ok, of os t] it in simp)
      then show ?thesis using ThreadRuns Some it by simp
    qed
  qed
qed

section \<open>The runtime as it is created\<close>

lemma page_create_effect:
  assumes "page_create os n m init (mem, h) = (r, mem', h')" "P init" "\<And>a. P (mem a)"
  shows "P (mem' a)" and "hid_balance h' = hid_balance h"
  using assms by (auto simp: page_create_def page_defs split: if_splits prod.splits)

text \<open>The memory of the mapped pages holds pages of the right shape, whoever created them.\<close>

definition memory_typed :: "mai2_input_page memory \<Rightarrow> mai2_output_page memory \<Rightarrow> bool" where
  "memory_typed im om \<longleftrightarrow> (\<forall>a. length (ip_touch (im a)) = 7) \<and> (\<forall>a. output_page_typed (om a))"

lemma device_handle_new_effect:
  assumes "device_handle_new os player pid enabled diag index (im, om, h) = Some (d, im', om', h')" "memory_typed im om"
  shows "memory_typed im' om'" "hid_balance h' = hid_balance h" "\<not> is_connected k d"
proof -
  obtain r1 im1 h1 where c1: "page_create os (lit (MAI2_INPUT_MAPPING_NAMES ! index)) (lit (MAI2_INPUT_MUTEX_NAMES ! index))
      mai2_input_default (im, h) = (r1, im1, h1)" using prod_cases3 by blast
  obtain r2 om1 h2 where c2: "page_create os (lit (MAI2_OUTPUT_MAPPING_NAMES ! index)) (lit (MAI2_OUTPUT_MUTEX_NAMES ! index))
      mai2_output_default (om, h1) = (r2, om1, h2)" using prod_cases3 by blast
  have defaults: "length (ip_touch mai2_input_default) = 7" "output_page_typed mai2_output_default"
    by (simp_all add: mai2_input_default_def mai2_output_default_def output_page_typed_def)
  note m1 = page_create_effect [OF c1, of "\<lambda>p. length (ip_touch p) = 7"]
    and m2 = page_create_effect [OF c2, of output_page_typed]
  have mem: "length (ip_touch (im1 a)) = 7" "output_page_typed (om1 a)" for a
    using m1(1) m2(1) defaults assms(2) by (simp_all add: memory_typed_def)
  have bal: "hid_balance h2 = hid_balance h"
    using m1(2) m2(2) defaults assms(2) by (simp add: memory_typed_def)
  have cases: "r1 \<noteq> None" "r2 \<noteq> None"
    using assms(1) c1 c2 by (auto simp: device_handle_new_def split: option.splits)
  have dev: "im' = im1 \<and> (\<forall>a. output_page_typed (om' a)) \<and> hid_balance h' = hid_balance h2 \<and> \<not> is_connected k d"
    using assms(1) c1 c2 cases mem(2)
    by (cases k) (auto simp: device_handle_new_def page_defs output_page_typed_def split: option.splits)
  then show "memory_typed im' om'" "hid_balance h' = hid_balance h" "\<not> is_connected k d"
    using mem(1) bal by (simp_all add: memory_typed_def)
qed

lemma runtime_new_typed:
  assumes new: "mai2_runtime_new os cfg im om pm h = Some w" and mem: "memory_typed im om" and h: "hid_balance h = 0"
  shows "system_typed (system_new w)"
proof -
  obtain e1 d1 e2 d2 h0 p1 im1 om1 h1 p2 im2 om2 h2 pg pm3 h3 k where
    d1: "device_handle_new os 1 MAI2_PID_1P e1 d1 0 (im, om, h0) = Some (p1, im1, om1, h1)" and
    d2: "device_handle_new os 2 MAI2_PID_2P e2 d2 1 (im1, om1, h1) = Some (p2, im2, om2, h2)" and
    pc: "page_create os (lit ''mai_io_poll'') (lit ''mai_io_poll_mutex'') mai2_poll_default (pm, h2) = (Some pg, pm3, h3)" and
    h0: "hid_balance h0 = hid_balance h" and
    w: "w = \<lparr>mw_devices = (\<lambda>i. if i = 0 then p1 else p2), mw_poll_page = pg,
       mw_input_mem = im2, mw_output_mem = om2, mw_poll_mem = pm3, mw_callback = None,
       mw_led_probe = (\<lambda>_. led_probe_board_default), mw_led_start_latch = (\<lambda>_. replicate 24 0),
       mw_keyboard = k, mw_initialized = False, mw_hist = h3\<rparr>"
    using new
    by (auto simp: mai2_runtime_new_def Let_def log_event_def AFFINE_LED_PROBE_ENABLED_def
        split: bind_splits option.splits prod.splits)
  note n1 = device_handle_new_effect [OF d1 mem]
  note n2 = device_handle_new_effect [OF d2 n1(1)]
  have "hid_balance h3 = 0"
    using page_create_effect(2) [OF pc, of "\<lambda>p. True"] n1(2) n2(2) h0 h by simp
  then show ?thesis
    using n1 n2 by (auto simp: w system_typed_def system_new_def inputs_typed_def outputs_typed_def latch_ok_def
        threads_ok_def open_loops_def dev_of_def memory_typed_def)
qed

inductive system_next :: "os \<Rightarrow> mai2_system \<Rightarrow> mai2_system \<Rightarrow> bool" for os :: os where
  system_next: "event_typed e \<Longrightarrow> system_step os e s = Some s' \<Longrightarrow> system_next os s s'"

inductive_cases system_nextE [elim]: "system_next os s s'"

definition system_initial :: "os \<Rightarrow> mai2_system \<Rightarrow> bool" where
  "system_initial os s \<longleftrightarrow> (\<exists>cfg im om pm w. mai2_runtime_new os cfg im om pm [] = Some w \<and> memory_typed im om \<and> s = system_new w)"

interpretation runtime: invariant_system "system_initial os" "system_next os" system_typed for os
proof
  fix s assume "system_initial os s"
  then show "system_typed s" by (auto simp: system_initial_def intro: runtime_new_typed)
next
  fix s s' assume typed: "system_typed s" and "system_next os s s'"
  then obtain e where "event_typed e" "system_step os e s = Some s'" by auto
  with system_step_typed [OF typed, of e os] show "system_typed s'" by simp
qed

lemma system_run_typed:
  "system_typed s \<Longrightarrow> \<forall>e \<in> set es. event_typed e \<Longrightarrow> \<not> endless_search os \<Longrightarrow>
     \<exists>s'. system_run os es s = Some s' \<and> (system_next os)\<^sup>*\<^sup>* s s'"
proof (induction es arbitrary: s)
  case (Cons e es)
  then obtain s1 where s1: "system_step os e s = Some s1" "system_typed s1"
    using system_step_typed [of s e os] by auto
  have next1: "system_next os s s1" by (rule system_next [OF _ s1(1)]) (use Cons.prems(2) in simp)
  obtain s' where "system_run os es s1 = Some s'" "(system_next os)\<^sup>*\<^sup>* s1 s'"
    using Cons.IH [OF s1(2)] Cons.prems by auto
  with s1(1) converse_rtranclp_into_rtranclp [of "system_next os", OF next1] show ?case by simp
qed simp

section \<open>Properties\<close>

text \<open>
  C3. The type of the mai2 runtime's states is preserved: whatever sequence of thread iterations of the two
  players and of calls of the game the runtime has gone through since it was created, the touch arrays
  of the input pages have 7 bytes and the LED arrays of the output pages 56, 24 and 3, the receive
  buffers, ports and fade latches are well formed, each connected flag is set exactly while its thread
  has a device open, threads run only after \<open>init\<close>, and every HID device that is open belongs to
  one of them.
\<close>

theorem mai2_system_typed:
  assumes "mai2_runtime_new os cfg im om pm [] = Some w" and "memory_typed im om"
    and "(system_next os)\<^sup>*\<^sup>* (system_new w) s"
  shows "system_typed s"
proof -
  have "system_initial os (system_new w)" unfolding system_initial_def using assms(1, 2) by blast
  then show ?thesis by (rule runtime.reachable_good [OF _ assms(3)])
qed

lemma willing_runtime:
  "\<exists>w. mai2_runtime_new willing_os None (\<lambda>a. mai2_input_default) (\<lambda>a. mai2_output_default) (\<lambda>a. mai2_poll_default) [] = Some w"
  by (auto simp: mai2_runtime_new_def device_handle_new_def page_create_def page_defs willing_os_def
      NULL_HANDLE_def ERROR_ALREADY_EXISTS_def)

lemma willing_memory: "memory_typed (\<lambda>a. mai2_input_default) (\<lambda>a. mai2_output_default)"
  by (simp add: memory_typed_def mai2_input_default_def mai2_output_default_def output_page_typed_def)

lemma willing_search: "\<not> endless_search willing_os"
  by (simp add: endless_search_def find_com_port_def willing_os_def find_com_loop.simps [of _ _ _ 0])

definition demo_events :: "system_event list" where
  "demo_events = [GameCalls (Mai2Init [] None), ThreadRuns VendorThread 0, ThreadRuns DeviceThread 1,
     GameCalls (Mai2LedSetFet 0 [1, 2, 3]), ThreadRuns CallbackThread 0, GameCalls Mai2Poll, ThreadRuns ReaderThread 1]"

theorem mai2_system_typed_witness:
  "\<exists>w s. mai2_runtime_new willing_os None (\<lambda>a. mai2_input_default) (\<lambda>a. mai2_output_default)
       (\<lambda>a. mai2_poll_default) [] = Some w \<and>
     system_run willing_os demo_events (system_new w) = Some s \<and> system_typed s"
proof -
  obtain w where w: "mai2_runtime_new willing_os None (\<lambda>a. mai2_input_default) (\<lambda>a. mai2_output_default)
      (\<lambda>a. mai2_poll_default) [] = Some w" using willing_runtime by blast
  have "\<forall>e \<in> set demo_events. event_typed e" by (simp add: demo_events_def)
  from system_run_typed [OF runtime_new_typed [OF w willing_memory] this willing_search] obtain s where
    "system_run willing_os demo_events (system_new w) = Some s" "(system_next willing_os)\<^sup>*\<^sup>* (system_new w) s"
    by auto
  with mai2_system_typed [OF w willing_memory] w show ?thesis by blast
qed

text \<open>
  C13. The runtime never gets stuck: if the enumeration of the COM ports ends whenever it is asked for, every
  sequence of thread iterations and of calls of the game, from the creation of the runtime on, runs to
  its end; no thread and no call panics.
\<close>

theorem mai2_system_never_stuck:
  assumes "mai2_runtime_new os cfg im om pm [] = Some w" and "memory_typed im om"
    and "\<forall>e \<in> set es. event_typed e" and "\<not> endless_search os"
  shows "\<exists>s. system_run os es (system_new w) = Some s"
  using system_run_typed [OF runtime_new_typed [OF assms(1, 2)] assms(3, 4)] by auto

theorem mai2_system_never_stuck_witness:
  "\<exists>w s. mai2_runtime_new willing_os None (\<lambda>a. mai2_input_default) (\<lambda>a. mai2_output_default)
       (\<lambda>a. mai2_poll_default) [] = Some w \<and> system_run willing_os (demo_events @ demo_events) (system_new w) = Some s"
proof -
  obtain w where w: "mai2_runtime_new willing_os None (\<lambda>a. mai2_input_default) (\<lambda>a. mai2_output_default)
      (\<lambda>a. mai2_poll_default) [] = Some w" using willing_runtime by blast
  have "\<forall>e \<in> set (demo_events @ demo_events). event_typed e" by (simp add: demo_events_def)
  from mai2_system_never_stuck [OF w willing_memory this willing_search] w show ?thesis by blast
qed

end
