(* ===== verification/Aime.thy ===== *)
theory Aime
  imports Types Serial
begin

text \<open>
  \<open>crates/affine-aime/src/lib.rs\<close>: the client of the Monica card reader.  The frame format with its
  escapes, the frame reader over a serial port, the request/response transaction and the operations
  the game calls.  All of them run under one mutex, so they are functions of the reader and the
  history.  An operation that never returns (a reader that stays silent) is the value \<open>None\<close>.
\<close>

section \<open>Commands and state\<close>

definition MONICA_PID :: u16 where "MONICA_PID = 0x5730"
definition SG_CMD_GET_FW_VERSION :: u8 where "SG_CMD_GET_FW_VERSION = 0x30"
definition SG_CMD_GET_HW_VERSION :: u8 where "SG_CMD_GET_HW_VERSION = 0x32"
definition SG_CMD_RADIO_ON :: u8 where "SG_CMD_RADIO_ON = 0x40"
definition SG_CMD_RADIO_OFF :: u8 where "SG_CMD_RADIO_OFF = 0x41"
definition SG_CMD_POLL :: u8 where "SG_CMD_POLL = 0x42"
definition SG_CMD_MIFARE_SELECT :: u8 where "SG_CMD_MIFARE_SELECT = 0x43"
definition SG_CMD_MIFARE_SET_KEY_AIME :: u8 where "SG_CMD_MIFARE_SET_KEY_AIME = 0x50"
definition SG_CMD_MIFARE_AUTH_AIME :: u8 where "SG_CMD_MIFARE_AUTH_AIME = 0x51"
definition SG_CMD_MIFARE_READ_BLOCK :: u8 where "SG_CMD_MIFARE_READ_BLOCK = 0x52"
definition SG_CMD_MIFARE_SET_KEY_BANA :: u8 where "SG_CMD_MIFARE_SET_KEY_BANA = 0x54"
definition SG_CMD_MIFARE_AUTH_BANA :: u8 where "SG_CMD_MIFARE_AUTH_BANA = 0x55"
definition SG_CMD_TO_UPDATE_MODE :: u8 where "SG_CMD_TO_UPDATE_MODE = 0x60"
definition SG_CMD_SEND_HEX_DATA :: u8 where "SG_CMD_SEND_HEX_DATA = 0x61"
definition SG_CMD_FELICA_ENCAP :: u8 where "SG_CMD_FELICA_ENCAP = 0x71"
definition SG_CMD_EXT_LED_RGB :: u8 where "SG_CMD_EXT_LED_RGB = 0x81"
definition SG_CMD_EXT_BOARD_INFO :: u8 where "SG_CMD_EXT_BOARD_INFO = 0xF0"

datatype cached_card =
    NoCard
  | Mifare "u8 list"
  | Felica "u8 list" "u8 list"

record reader =
  rd_port :: serial_port
  rd_seq :: u8
  rd_initialized :: bool
  rd_card :: cached_card

definition reader_default :: reader where
  "reader_default = \<lparr>rd_port = serial_port_default, rd_seq = 0, rd_initialized = False, rd_card = NoCard\<rparr>"

record reader_response =
  rr_status :: u8
  rr_payload :: "u8 list"

datatype 'a result = Ok 'a | Err hresult

section \<open>Frames\<close>

definition aime_body :: "u8 \<Rightarrow> u8 \<Rightarrow> u8 list \<Rightarrow> u8 list" where
  "aime_body seqno cmd payload =
     [of_nat (5 + length payload), 0, seqno, cmd, of_nat (length payload)] @ payload"

definition aime_escape :: "u8 \<Rightarrow> u8 list" where
  "aime_escape byte = (if byte = 0xD0 \<or> byte = 0xE0 then [0xD0, byte - 1] else [byte])"

definition encode_frame :: "u8 \<Rightarrow> u8 \<Rightarrow> u8 list \<Rightarrow> u8 list" where
  "encode_frame seqno cmd payload =
     (let body = aime_body seqno cmd payload; checksum = sum8 body
      in 0xE0 # concat (map aime_escape (body @ [checksum])))"

text \<open>
  The state of \<open>read_frame\<close> between bytes, and its loop over the bytes of one read: \<open>Inl\<close> the state to
  go on with, \<open>Inr\<close> the result that ends the function (\<open>None\<close>: wrong checksum).
\<close>

record frame_state =
  fs_started :: bool
  fs_escaped :: bool
  fs_decoded :: "u8 list"

definition frame_state_init :: frame_state where
  "frame_state_init = \<lparr>fs_started = False, fs_escaped = False, fs_decoded = []\<rparr>"

definition frame_byte :: "frame_state \<Rightarrow> u8 \<Rightarrow> frame_state + u8 list option" where
  "frame_byte st byte =
     (if \<not> fs_started st then
        Inl (if byte = 0xE0 then st\<lparr>fs_started := True, fs_decoded := []\<rparr> else st)
      else if byte = 0xE0 then Inl (st\<lparr>fs_decoded := [], fs_escaped := False\<rparr>)
      else if byte = 0xD0 then Inl (st\<lparr>fs_escaped := True\<rparr>)
      else
        let val = (if fs_escaped st then byte + 1 else byte);
            decoded = fs_decoded st @ [val];
            st = st\<lparr>fs_escaped := False, fs_decoded := decoded\<rparr>
        in if 2 \<le> length decoded \<and> length decoded = unat (decoded ! 0) + 1 then
             (if sum8 (butlast decoded) \<noteq> List.last decoded then Inr None else Inr (Some (butlast decoded)))
           else Inl st)"

fun frame_bytes :: "frame_state \<Rightarrow> u8 list \<Rightarrow> frame_state + u8 list option" where
  "frame_bytes st [] = Inl st"
| "frame_bytes st (b # bs) =
     (case frame_byte st b of Inl st \<Rightarrow> frame_bytes st bs | Inr r \<Rightarrow> Inr r)"

partial_function (option) read_frame_loop ::
  "os \<Rightarrow> frame_state \<Rightarrow> serial_port \<Rightarrow> history \<Rightarrow> (u8 list option \<times> serial_port \<times> history) option" where
  "read_frame_loop os st p h =
     (let (r, p, h) = sp_read os 64 p h
      in case r of
           None \<Rightarrow> Some (None, p, h)
         | Some bytes \<Rightarrow>
             if bytes = [] then read_frame_loop os st p h
             else (case frame_bytes st bytes of
                     Inl st \<Rightarrow> read_frame_loop os st p h
                   | Inr res \<Rightarrow> Some (res, p, h)))"

definition read_frame ::
  "os \<Rightarrow> serial_port \<Rightarrow> history \<Rightarrow> (u8 list option \<times> serial_port \<times> history) option" where
  "read_frame os p h = read_frame_loop os frame_state_init p h"

section \<open>Transactions\<close>

definition ensure_connected :: "os \<Rightarrow> reader \<times> history \<Rightarrow> (bool \<times> reader \<times> history) option" where
  "ensure_connected os s =
     (let (r, h) = s
      in if is_open (rd_port r) then Some (True, r, h)
      else do {
        (found, h) \<leftarrow> find_com_port os AFFINE_VID MONICA_PID h;
        (case found of
           None \<Rightarrow> Some (False, r, h)
         | Some path \<Rightarrow>
             (let (ok, p, h) = sp_open os path 115200 (rd_port r) h;
                  r = r\<lparr>rd_port := p\<rparr>
              in if \<not> ok then Some (False, r, h)
                 else Some (True, r, log_event LogOk
                   (lit ''Monica reader connected: '' @ trim_start_matches device_prefix path) h)))
      })"

text \<open>What a response frame means.\<close>

definition parse_response :: "u8 list \<Rightarrow> reader_response result" where
  "parse_response response =
     (if length response < 6 then Err E_FAIL
      else
        let status = response ! 4; payload_len = unat (response ! 5)
        in if length response < 6 + payload_len then Err E_FAIL
           else Ok \<lparr>rr_status = status, rr_payload = take payload_len (drop 6 response)\<rparr>)"

definition close_port :: "reader \<times> history \<Rightarrow> reader \<times> history" where
  "close_port s = (let (r, h) = s; (p, h) = sp_close (rd_port r) h in (r\<lparr>rd_port := p\<rparr>, h))"

definition transact ::
  "os \<Rightarrow> u8 \<Rightarrow> u8 list \<Rightarrow> reader \<times> history \<Rightarrow> (reader_response result \<times> reader \<times> history) option" where
  "transact os cmd payload s = do {
     (ok, r, h) \<leftarrow> ensure_connected os s;
     if \<not> ok then Some (Err E_FAIL, r, h)
     else
       let frame = encode_frame (rd_seq r) cmd payload;
           r = r\<lparr>rd_seq := rd_seq r + 1\<rparr>;
           (ok, p, h) = sp_write os frame (rd_port r) h;
           r = r\<lparr>rd_port := p\<rparr>
       in if \<not> ok then Some (Err E_FAIL, close_port (r, h))
       else do {
         (resp, p, h) \<leftarrow> read_frame os (rd_port r) h;
         (case resp of
            None \<Rightarrow> Some (Err E_FAIL, close_port (r\<lparr>rd_port := p\<rparr>, h))
          | Some response \<Rightarrow> Some (parse_response response, r\<lparr>rd_port := p\<rparr>, h))
       }
   }"

section \<open>The reader's operations\<close>

text \<open>Each returns its result code, the bytes it writes to the caller's buffer, and the new state.\<close>

definition log_version :: "string \<Rightarrow> reader_response result \<Rightarrow> history \<Rightarrow> history" where
  "log_version label res h =
     (case res of
        Err e \<Rightarrow> h
      | Ok resp \<Rightarrow> (case from_utf8 (rr_payload resp) of
            None \<Rightarrow> h | Some version \<Rightarrow> log_event LogNone (lit label @ version) h))"

definition reader_init :: "os \<Rightarrow> reader \<times> history \<Rightarrow> (hresult \<times> reader \<times> history) option" where
  "reader_init os s = do {
     (ok, r, h) \<leftarrow> ensure_connected os s;
     if \<not> ok then Some (E_FAIL, r, h)
     else if rd_initialized r then Some (S_OK, r, h)
     else do {
       (fw, r, h) \<leftarrow> transact os SG_CMD_GET_FW_VERSION [] (r, h);
       let h = log_version ''Monica firmware: '' fw h;
       (hw, r, h) \<leftarrow> transact os SG_CMD_GET_HW_VERSION [] (r, h);
       let h = log_version ''Monica hardware: '' hw h;
       (info, r, h) \<leftarrow> transact os SG_CMD_EXT_BOARD_INFO [] (r, h);
       Some (S_OK, r\<lparr>rd_initialized := True\<rparr>, h)
     }
   }"

text \<open>The result code and the cached card for the payload of a poll response.\<close>

definition poll_payload :: "u8 list \<Rightarrow> hresult \<times> cached_card" where
  "poll_payload payload =
     (if payload = [] then (S_FALSE, NoCard)
      else if payload ! 0 = 0 then (S_FALSE, NoCard)
      else if length payload < 3 then (E_FAIL, NoCard)
      else if payload ! 1 = 0x10 then
        (if length payload < 7 then (E_FAIL, NoCard)
         else (S_OK, Mifare (take 4 (drop 3 payload))))
      else if payload ! 1 = 0x20 then
        (if length payload < 19 then (E_FAIL, NoCard)
         else (S_OK, Felica (take 8 (drop 3 payload)) (take 8 (drop 11 payload))))
      else (S_FALSE, NoCard))"

definition reader_poll :: "os \<Rightarrow> reader \<times> history \<Rightarrow> (hresult \<times> reader \<times> history) option" where
  "reader_poll os s = do {
     (res, r, h) \<leftarrow> transact os SG_CMD_POLL [] s;
     (case res of
        Err e \<Rightarrow> Some (e, r, h)
      | Ok response \<Rightarrow>
          (let (code, cached) = poll_payload (rr_payload response) in Some (code, r\<lparr>rd_card := cached\<rparr>, h)))
   }"

definition reader_get_aime_id ::
  "os \<Rightarrow> u8 list \<Rightarrow> reader \<times> history \<Rightarrow> (hresult \<times> u8 list \<times> reader \<times> history) option" where
  "reader_get_aime_id os luid s =
     (if length luid \<noteq> 10 then Some (E_INVALIDARG, luid, s)
      else case rd_card (fst s) of
        Mifare uid \<Rightarrow> do {
          (res, r, h) \<leftarrow> transact os SG_CMD_MIFARE_READ_BLOCK (uid @ [2]) s;
          (case res of
             Err e \<Rightarrow> Some (e, luid, r, h)
           | Ok response \<Rightarrow>
               if rr_status response \<noteq> 0 \<or> length (rr_payload response) < 16 then Some (S_FALSE, luid, r, h)
               else Some (S_OK, take 10 (drop 6 (rr_payload response)), r, h))
        }
      | _ \<Rightarrow> Some (S_FALSE, luid, s))"

definition u64_from_be :: "u8 list \<Rightarrow> u64" where
  "u64_from_be bs = foldl (\<lambda>v b. 256 * v + ucast b) 0 bs"

definition reader_get_felica_id :: "u64 \<Rightarrow> reader \<Rightarrow> hresult \<times> u64" where
  "reader_get_felica_id idm_out r =
     (case rd_card r of Felica idm pmm \<Rightarrow> (S_OK, u64_from_be idm) | _ \<Rightarrow> (S_FALSE, idm_out))"

definition reader_get_mifare_uid :: "u8 list \<Rightarrow> reader \<Rightarrow> hresult \<times> u8 list" where
  "reader_get_mifare_uid uid_out r =
     (if length uid_out \<noteq> 4 then (E_INVALIDARG, uid_out)
      else case rd_card r of Mifare uid \<Rightarrow> (S_OK, uid) | _ \<Rightarrow> (S_FALSE, uid_out))"

section \<open>The crate's functions\<close>

definition status_code :: "reader_response result \<Rightarrow> hresult" where
  "status_code res =
     (case res of Ok response \<Rightarrow> if rr_status response = 0 then S_OK else S_FALSE | Err e \<Rightarrow> e)"

text \<open>A transaction of which only the status matters.\<close>

definition transact_status ::
  "os \<Rightarrow> u8 \<Rightarrow> u8 list \<Rightarrow> reader \<times> history \<Rightarrow> (hresult \<times> reader \<times> history) option" where
  "transact_status os cmd payload s = do {
     (res, s) \<leftarrow> transact os cmd payload s;
     Some (status_code res, s)
   }"

definition mifare_select :: "os \<Rightarrow> u8 \<Rightarrow> u8 list \<Rightarrow> reader \<times> history \<Rightarrow> (hresult \<times> reader \<times> history) option" where
  "mifare_select os unit_no uid s =
     (if unit_no \<noteq> 0 then Some (S_FALSE, s)
      else if length uid \<noteq> 4 then Some (E_INVALIDARG, s)
      else transact_status os SG_CMD_MIFARE_SELECT uid s)"

definition mifare_set_key ::
  "os \<Rightarrow> u8 \<Rightarrow> u8 \<Rightarrow> u8 list \<Rightarrow> reader \<times> history \<Rightarrow> (hresult \<times> reader \<times> history) option" where
  "mifare_set_key os unit_no key_type key s =
     (if unit_no \<noteq> 0 then Some (S_FALSE, s)
      else if length key \<noteq> 6 then Some (E_INVALIDARG, s)
      else
        let cmd = (if key_type = 0 then SG_CMD_MIFARE_SET_KEY_AIME else SG_CMD_MIFARE_SET_KEY_BANA)
        in transact_status os cmd key s)"

definition mifare_authenticate ::
  "os \<Rightarrow> u8 \<Rightarrow> u8 \<Rightarrow> u8 list \<Rightarrow> reader \<times> history \<Rightarrow> (hresult \<times> reader \<times> history) option" where
  "mifare_authenticate os unit_no key_type payload s =
     (if unit_no \<noteq> 0 then Some (S_FALSE, s)
      else
        let cmd = (if key_type = 0 then SG_CMD_MIFARE_AUTH_AIME else SG_CMD_MIFARE_AUTH_BANA)
        in transact_status os cmd payload s)"

definition mifare_read_block ::
  "os \<Rightarrow> u8 \<Rightarrow> u8 list \<Rightarrow> u8 \<Rightarrow> u8 list \<Rightarrow> reader \<times> history \<Rightarrow> (hresult \<times> u8 list \<times> reader \<times> history) option" where
  "mifare_read_block os unit_no uid block_no block s =
     (if unit_no \<noteq> 0 then Some (S_FALSE, block, s)
      else if length uid \<noteq> 4 \<or> length block \<noteq> 16 then Some (E_INVALIDARG, block, s)
      else do {
        (res, s) \<leftarrow> transact os SG_CMD_MIFARE_READ_BLOCK (uid @ [block_no]) s;
        (case res of
           Ok response \<Rightarrow>
             if rr_status response = 0 \<and> 16 \<le> length (rr_payload response)
             then Some (S_OK, take 16 (rr_payload response), s) else Some (S_FALSE, block, s)
         | Err e \<Rightarrow> Some (e, block, s))
      })"

text \<open>The buffer after the call and \<open>res_size_written\<close> when it was set.\<close>

definition felica_transact ::
  "os \<Rightarrow> u8 \<Rightarrow> u8 list \<Rightarrow> u8 list \<Rightarrow> reader \<times> history \<Rightarrow>
     (hresult \<times> (u8 list \<times> nat option) \<times> reader \<times> history) option" where
  "felica_transact os unit_no req buf s =
     (if unit_no \<noteq> 0 then Some (S_FALSE, (buf, None), s)
      else do {
        (res, s) \<leftarrow> transact os SG_CMD_FELICA_ENCAP req s;
        (case res of
           Ok response \<Rightarrow>
             if rr_status response = 0 then
               let copy_len = min (length (rr_payload response)) (length buf)
               in Some (S_OK, (take copy_len (rr_payload response) @ drop copy_len buf, Some copy_len), s)
             else Some (S_FALSE, (buf, None), s)
         | Err e \<Rightarrow> Some (e, (buf, None), s))
      })"

definition aime_simple :: "os \<Rightarrow> u8 \<Rightarrow> u8 \<Rightarrow> reader \<times> history \<Rightarrow> (hresult \<times> reader \<times> history) option" where
  "aime_simple os unit_no cmd s =
     (if unit_no \<noteq> 0 then Some (S_FALSE, s) else transact_status os cmd [] s)"

definition send_hex_data ::
  "os \<Rightarrow> u8 \<Rightarrow> u8 list \<Rightarrow> reader \<times> history \<Rightarrow> (hresult \<times> u8 option \<times> reader \<times> history) option" where
  "send_hex_data os unit_no payload s =
     (if unit_no \<noteq> 0 then Some (S_FALSE, None, s)
      else do {
        (res, s) \<leftarrow> transact os SG_CMD_SEND_HEX_DATA payload s;
        (case res of
           Ok response \<Rightarrow> Some (if rr_status response = 0 then S_OK else S_FALSE, Some (rr_status response), s)
         | Err e \<Rightarrow> Some (e, None, s))
      })"

definition aime_led_set_color :: "os \<Rightarrow> u8 \<Rightarrow> u8 list \<Rightarrow> reader \<times> history \<Rightarrow> (reader \<times> history) option" where
  "aime_led_set_color os unit_no rgb s =
     (if unit_no \<noteq> 0 then Some s
      else do { (res, s) \<leftarrow> transact os SG_CMD_EXT_LED_RGB rgb s; Some s })"

definition aime_init :: "os \<Rightarrow> reader \<times> history \<Rightarrow> (hresult \<times> reader \<times> history) option" where
  "aime_init os s = reader_init os s"

definition aime_poll :: "os \<Rightarrow> u8 \<Rightarrow> reader \<times> history \<Rightarrow> (hresult \<times> reader \<times> history) option" where
  "aime_poll os unit_no s = (if unit_no \<noteq> 0 then Some (S_FALSE, s) else reader_poll os s)"

definition aime_get_aime_id ::
  "os \<Rightarrow> u8 \<Rightarrow> u8 list \<Rightarrow> reader \<times> history \<Rightarrow> (hresult \<times> u8 list \<times> reader \<times> history) option" where
  "aime_get_aime_id os unit_no luid s =
     (if unit_no \<noteq> 0 then Some (S_FALSE, luid, s) else reader_get_aime_id os luid s)"

definition aime_get_felica_id :: "u8 \<Rightarrow> u64 \<Rightarrow> reader \<Rightarrow> hresult \<times> u64" where
  "aime_get_felica_id unit_no idm_out r =
     (if unit_no \<noteq> 0 then (S_FALSE, idm_out) else reader_get_felica_id idm_out r)"

definition aime_get_mifare_uid :: "u8 \<Rightarrow> u8 list \<Rightarrow> reader \<Rightarrow> hresult \<times> u8 list" where
  "aime_get_mifare_uid unit_no uid_out r =
     (if unit_no \<noteq> 0 then (S_FALSE, uid_out) else reader_get_mifare_uid uid_out r)"

section \<open>Decoding frames\<close>

definition frame_wf :: "frame_state \<Rightarrow> bool" where
  "frame_wf st \<longleftrightarrow> fs_started st \<or> \<not> fs_escaped st"

lemma frame_wf_init [wf_intros]: "frame_wf frame_state_init"
  by (simp add: frame_wf_def frame_state_init_def)

lemma frame_byte_wf: "frame_wf st \<Longrightarrow> frame_byte st b = Inl st' \<Longrightarrow> frame_wf st'"
  by (auto simp: frame_byte_def frame_wf_def Let_def split: if_splits)

lemma frame_bytes_wf: "frame_wf st \<Longrightarrow> frame_bytes st bs = Inl st' \<Longrightarrow> frame_wf st'"
  by (induction bs arbitrary: st) (auto dest: frame_byte_wf split: sum.splits)

lemma frame_bytes_append:
  "frame_bytes st (xs @ ys) =
     (case frame_bytes st xs of Inl st' \<Rightarrow> frame_bytes st' ys | Inr r \<Rightarrow> Inr r)"
  by (induction xs arbitrary: st) (auto split: sum.splits)

text \<open>What the checksum byte decides.\<close>

definition frame_verdict :: "u8 list \<Rightarrow> u8 list option" where
  "frame_verdict decoded = (if sum8 (butlast decoded) = List.last decoded then Some (butlast decoded) else None)"

definition frame_complete :: "u8 list \<Rightarrow> bool" where
  "frame_complete decoded \<longleftrightarrow> 2 \<le> length decoded \<and> length decoded = unat (decoded ! 0) + 1"

abbreviation receiving :: "u8 list \<Rightarrow> frame_state" where
  "receiving xs \<equiv> \<lparr>fs_started = True, fs_escaped = False, fs_decoded = xs\<rparr>"

lemma frame_escaped_byte:
  "frame_bytes (receiving xs) (aime_escape b @ bs) =
     (if frame_complete (xs @ [b]) then Inr (frame_verdict (xs @ [b]))
      else frame_bytes (receiving (xs @ [b])) bs)"
proof -
  have "b - 1 \<noteq> 0xE0 \<and> b - 1 \<noteq> 0xD0 \<and> b - 1 + 1 = b" if "b = 0xD0 \<or> b = 0xE0"
    using that by auto
  then show ?thesis
    by (cases "b = 0xD0 \<or> b = 0xE0")
      (auto simp: aime_escape_def frame_byte_def frame_complete_def frame_verdict_def Let_def)
qed

lemma frame_escaped_body:
  assumes "ys \<noteq> []" "frame_complete (xs @ ys)"
  shows "frame_bytes (receiving xs) (concat (map aime_escape ys) @ rest) = Inr (frame_verdict (xs @ ys))"
  using assms
proof (induction ys arbitrary: xs)
  case Nil
  then show ?case by simp
next
  case (Cons y ys)
  show ?case
  proof (cases ys)
    case Nil
    with Cons.prems show ?thesis by (simp add: frame_escaped_byte)
  next
    case (Cons z zs)
    have "(xs @ [y]) ! 0 = (xs @ y # ys) ! 0" by (cases xs) auto
    then have "\<not> frame_complete (xs @ [y])"
      using Cons.prems(2) Cons by (auto simp: frame_complete_def)
    then have "frame_bytes (receiving xs) (concat (map aime_escape (y # ys)) @ rest) =
        frame_bytes (receiving (xs @ [y])) (concat (map aime_escape ys) @ rest)"
      by (simp add: frame_escaped_byte)
    with Cons.IH [of "xs @ [y]"] Cons.prems Cons show ?thesis by simp
  qed
qed

lemma frame_sync: "frame_wf st \<Longrightarrow> frame_bytes st (0xE0 # bs) = frame_bytes (receiving []) bs"
  by (cases st) (auto simp: frame_byte_def frame_wf_def)

text \<open>Any frame, its checksum right or wrong, from any state the reader can be in.\<close>

lemma frame_bytes_frame:
  assumes "frame_wf st" "body \<noteq> []" "length body = unat (body ! 0)"
  shows "frame_bytes st (0xE0 # concat (map aime_escape (body @ [c])) @ rest) =
    Inr (if c = sum8 body then Some body else None)"
proof -
  have "frame_complete ([] @ body @ [c])"
    using assms by (cases body) (auto simp: frame_complete_def)
  then show ?thesis
    unfolding frame_sync [OF assms(1)]
    using frame_escaped_body [of "body @ [c]" "[]" rest] by (auto simp: frame_verdict_def)
qed

text \<open>No proper prefix of a frame ends the reader.\<close>

lemma frame_escaped_prefix:
  assumes "concat (map aime_escape ys) = pre @ suf" "suf \<noteq> []" "frame_complete (xs @ ys)"
  shows "\<exists>st. frame_bytes (receiving xs) pre = Inl st"
  using assms
proof (induction ys arbitrary: xs pre)
  case Nil
  then show ?case by simp
next
  case (Cons y ys)
  show ?case
  proof (cases "length pre < length (aime_escape y)")
    case True
    then have "pre = take (length pre) (aime_escape y)"
      using Cons.prems(1) by (metis append_eq_append_conv_if concat.simps(2) less_imp_le list.simps(9) not_le)
    then have "pre = [] \<or> pre = [0xD0]"
      using True by (auto simp: aime_escape_def take_Cons' split: if_splits)
    then show ?thesis by (auto simp: frame_byte_def)
  next
    case False
    then obtain pre' where pre: "pre = aime_escape y @ pre'" "concat (map aime_escape ys) = pre' @ suf"
      using Cons.prems(1) by (auto simp: append_eq_append_conv2)
    have "ys \<noteq> []" using pre Cons.prems(2) by auto
    then obtain z zs where ys: "ys = z # zs" by (cases ys) auto
    have "(xs @ [y]) ! 0 = (xs @ y # ys) ! 0" by (cases xs) auto
    then have "\<not> frame_complete (xs @ [y])"
      using Cons.prems(3) ys by (auto simp: frame_complete_def)
    then show ?thesis
      using Cons.IH [OF pre(2) Cons.prems(2), of "xs @ [y]"] Cons.prems(3)
      by (simp add: pre(1) frame_escaped_byte)
  qed
qed

lemma frame_bytes_prefix_open:
  assumes "frame_wf st" "body \<noteq> []" "length body = unat (body ! 0)"
    and "0xE0 # concat (map aime_escape (body @ [c])) = pre @ suf" "suf \<noteq> []"
  shows "\<exists>st1. frame_bytes st pre = Inl st1"
proof (cases pre)
  case Nil
  then show ?thesis by simp
next
  case (Cons b pre')
  have "frame_complete ([] @ body @ [c])"
    using assms by (cases body) (auto simp: frame_complete_def)
  moreover have "concat (map aime_escape (body @ [c])) = pre' @ suf" "b = 0xE0"
    using assms(4) Cons by auto
  ultimately show ?thesis
    using frame_escaped_prefix [of "body @ [c]" pre' suf "[]"] assms(5) frame_sync [OF assms(1), of pre']
    by (simp add: Cons del: frame_bytes.simps)
qed

lemma aime_body_length:
  assumes "length payload \<le> 250"
  shows "length (aime_body seqno cmd payload) = unat (aime_body seqno cmd payload ! 0)"
proof -
  have "unat (of_nat (5 + length payload) :: u8) = 5 + length payload"
    using assms by (simp only: unat_of_nat take_bit_eq_mod) simp
  then show ?thesis by (simp add: aime_body_def)
qed

lemma aime_body_overlong:
  "251 \<le> length payload \<Longrightarrow> length (aime_body seqno cmd payload) \<noteq> unat (aime_body seqno cmd payload ! 0)"
  using unat_u8_less [of "aime_body seqno cmd payload ! 0"] by (simp add: aime_body_def)

section \<open>Reading from the port\<close>

text \<open>The reads that deliver these chunks, one after the other.\<close>

inductive delivers ::
  "os \<Rightarrow> serial_port \<Rightarrow> history \<Rightarrow> u8 list list \<Rightarrow> serial_port \<Rightarrow> history \<Rightarrow> bool" for os where
  none: "delivers os p h [] p h"
| more: "sp_read os 64 p h = (Some bytes, p1, h1) \<Longrightarrow> delivers os p1 h1 chunks p2 h2 \<Longrightarrow>
     delivers os p h (bytes # chunks) p2 h2"

inductive_simps delivers_simps: "delivers os p h [] p' h'" "delivers os p h (c # cs) p' h'"

lemma read_frame_loop_delivers:
  "delivers os p h (cs @ [c]) p' h' \<Longrightarrow> frame_bytes st (concat cs) = Inl st1 \<Longrightarrow>
     frame_bytes st1 c = Inr res \<Longrightarrow> read_frame_loop os st p h = Some (res, p', h')"
proof (induction cs arbitrary: p h st)
  case Nil
  then have "c \<noteq> []" by auto
  with Nil show ?case
    by (subst read_frame_loop.simps) (auto simp: delivers_simps)
next
  case (Cons b cs)
  then obtain p1 h1 where rd: "sp_read os 64 p h = (Some b, p1, h1)"
    and rest: "delivers os p1 h1 (cs @ [c]) p' h'" by (auto simp: delivers_simps)
  obtain st2 where st2: "frame_bytes st b = Inl st2" "frame_bytes st2 (concat cs) = Inl st1"
    using Cons.prems(2) by (auto simp: frame_bytes_append split: sum.splits)
  have "read_frame_loop os st2 p1 h1 = Some (res, p', h')"
    using Cons.IH [OF rest st2(2) Cons.prems(3)] .
  with rd st2 show ?case
    by (subst read_frame_loop.simps) auto
qed

lemma read_frame_loop_sound:
  assumes "read_frame_loop os st p h = Some y"
  shows "\<exists>chunks p1 h1. delivers os p h chunks p1 h1 \<and>
    (if \<exists>st1. frame_bytes st (concat chunks) = Inl st1
     then fst y = None \<and> sp_read os 64 p1 h1 = (None, snd y)
     else frame_bytes st (concat chunks) = Inr (fst y) \<and> snd y = (p1, h1))"
proof (rule read_frame_loop.raw_induct [where P = "\<lambda>os st p h y. \<exists>chunks p1 h1. delivers os p h chunks p1 h1 \<and>
    (if \<exists>st1. frame_bytes st (concat chunks) = Inl st1
     then fst y = None \<and> sp_read os 64 p1 h1 = (None, snd y)
     else frame_bytes st (concat chunks) = Inr (fst y) \<and> snd y = (p1, h1))", OF _ assms])
  fix go :: "os \<Rightarrow> frame_state \<Rightarrow> serial_port \<Rightarrow> history \<Rightarrow> (u8 list option \<times> serial_port \<times> history) option"
    and os st p h y
  let ?P = "\<lambda>os st p h y. \<exists>chunks p1 h1. delivers os p h chunks p1 h1 \<and>
    (if \<exists>st1. frame_bytes st (concat chunks) = Inl st1
     then fst y = None \<and> sp_read os 64 p1 h1 = (None, snd y)
     else frame_bytes st (concat chunks) = Inr (fst y) \<and> snd y = (p1, h1))"
  assume IH: "\<And>os st p h y. go os st p h = Some y \<Longrightarrow> ?P os st p h y"
    and body: "(let (r, p, h) = sp_read os 64 p h
      in case r of
           None \<Rightarrow> Some (None, p, h)
         | Some bytes \<Rightarrow>
             if bytes = [] then go os st p h
             else (case frame_bytes st bytes of
                     Inl st \<Rightarrow> go os st p h
                   | Inr res \<Rightarrow> Some (res, p, h))) = Some y"
  obtain r p1 h1 where rd: "sp_read os 64 p h = (r, p1, h1)" by (cases "sp_read os 64 p h")
  have more: "?P os st p h y" if r: "r = Some bytes" and st2: "frame_bytes st bytes = Inl st2"
    and rec: "go os st2 p1 h1 = Some y" for bytes st2
  proof -
    from IH [OF rec] obtain chunks p2 h2 where d: "delivers os p1 h1 chunks p2 h2"
      and e: "if \<exists>st1. frame_bytes st2 (concat chunks) = Inl st1
     then fst y = None \<and> sp_read os 64 p2 h2 = (None, snd y)
     else frame_bytes st2 (concat chunks) = Inr (fst y) \<and> snd y = (p2, h2)" by blast
    have "delivers os p h (bytes # chunks) p2 h2" using rd r d by (auto intro: delivers.more)
    moreover have "frame_bytes st (concat (bytes # chunks)) = frame_bytes st2 (concat chunks)"
      by (simp add: frame_bytes_append st2)
    ultimately show ?thesis using e by metis
  qed
  show "?P os st p h y"
  proof (cases r)
    case None
    have "delivers os p h [] p h" by (rule delivers.none)
    with None body rd show ?thesis
      by (intro exI [of _ "[]"] exI [of _ p] exI [of _ h]) auto
  next
    case (Some bytes)
    show ?thesis
    proof (cases "bytes = []")
      case True
      then show ?thesis using more [of "[]" st] Some body rd by auto
    next
      case ne: False
      show ?thesis
      proof (cases "frame_bytes st bytes")
        case (Inl st2)
        then show ?thesis using more [OF Some Inl] Some body rd ne by auto
      next
        case (Inr res)
        have "delivers os p h [bytes] p1 h1"
          using rd Some by (auto intro: delivers.intros)
        then show ?thesis using Inr Some body rd ne
          by (intro exI [of _ "[bytes]"] exI [of _ p1] exI [of _ h1]) auto
      qed
    qed
  qed
qed

section \<open>Handles and the cached card\<close>

text \<open>What an operation may do to the reader besides the card: handles stay accounted for.\<close>

definition accounted :: "reader \<times> history \<Rightarrow> reader \<times> history \<Rightarrow> bool" where
  "accounted s s' \<longleftrightarrow> (\<forall>x. balance x (snd s') - balance x (snd s) =
     sp_owned (rd_port (fst s')) x - sp_owned (rd_port (fst s)) x)"

lemma accounted_refl: "accounted s s"
  by (simp add: accounted_def)

lemma accounted_trans:
  assumes "accounted s1 s2" "accounted s2 s3"
  shows "accounted s1 s3"
  unfolding accounted_def
proof
  fix x
  have "balance x (snd s2) - balance x (snd s1) = sp_owned (rd_port (fst s2)) x - sp_owned (rd_port (fst s1)) x"
    "balance x (snd s3) - balance x (snd s2) = sp_owned (rd_port (fst s3)) x - sp_owned (rd_port (fst s2)) x"
    using assms by (simp_all add: accounted_def)
  then show "balance x (snd s3) - balance x (snd s1) = sp_owned (rd_port (fst s3)) x - sp_owned (rd_port (fst s1)) x"
    by linarith
qed

lemma search_event_balance: "list_all is_search_event es \<Longrightarrow> balance x es = 0"
proof (induction es)
  case (Cons e es)
  then show ?case by (cases e) auto
qed simp

lemma search_more_balance: "search_more h h' \<Longrightarrow> balance x h' = balance x h"
  by (auto simp: search_more_def search_event_balance)

lemma ensure_connected_keeps:
  assumes "ensure_connected os s = Some (ok, r', h')"
  shows "accounted s (r', h') \<and> rd_card r' = rd_card (fst s) \<and> rd_seq r' = rd_seq (fst s)"
proof -
  obtain r h where s: "s = (r, h)" by (cases s)
  show ?thesis
  proof (cases "is_open (rd_port r)")
    case True
    then show ?thesis using assms by (simp add: s ensure_connected_def accounted_refl)
  next
    case False
    then obtain found h1 where f: "find_com_port os AFFINE_VID MONICA_PID h = Some (found, h1)"
      using assms by (auto simp: s ensure_connected_def split: bind_splits)
    have b: "balance x h1 = balance x h" for x
      using search_more_balance [OF find_com_port_history [OF f]] .
    show ?thesis
    proof (cases found)
      case None
      then show ?thesis using assms False f b by (auto simp: s ensure_connected_def accounted_def)
    next
      case (Some path)
      obtain o1 p h2 where op: "sp_open os path 115200 (rd_port r) h1 = (o1, p, h2)"
        by (cases "sp_open os path 115200 (rd_port r) h1")
      have "balance x h2 - balance x h1 = sp_owned p x - sp_owned (rd_port r) x" for x
        using sp_open_balance [OF op] by blast
      then show ?thesis using assms False f b Some op
        by (auto simp: s ensure_connected_def accounted_def log_event_def Let_def split: if_splits)
    qed
  qed
qed

text \<open>
  What the line does after a request, in terms of the reads alone: some reads deliver bytes in which a
  frame completes, with its body or with a wrong checksum, or no frame completes in what the
  reads deliver and then a read fails.
\<close>

definition reply_arrives :: "os \<Rightarrow> serial_port \<Rightarrow> history \<Rightarrow> u8 list option \<Rightarrow> bool" where
  "reply_arrives os p h res \<longleftrightarrow>
     (\<exists>chunks p1 h1. delivers os p h chunks p1 h1 \<and> frame_bytes frame_state_init (concat chunks) = Inr res)"

definition line_lost :: "os \<Rightarrow> serial_port \<Rightarrow> history \<Rightarrow> bool" where
  "line_lost os p h \<longleftrightarrow>
     (\<exists>chunks p1 h1 st. delivers os p h chunks p1 h1 \<and> frame_bytes frame_state_init (concat chunks) = Inl st \<and>
        fst (sp_read os 64 p1 h1) = None)"

lemma read_frame_loop_arrives:
  "delivers os p h chunks p1 h1 \<Longrightarrow> frame_bytes st (concat chunks) = Inr res \<Longrightarrow>
     \<exists>p2 h2. read_frame_loop os st p h = Some (res, p2, h2) \<and> is_open p2"
proof (induction arbitrary: st rule: delivers.induct)
  case (more p h bytes p1 h1 chunks p2 h2)
  note rd = more.hyps(1)
  have op: "is_open p1" using link.rd_Some_opened [OF rd] by blast
  show ?case
  proof (cases "frame_bytes st bytes")
    case (Inl st2)
    then have "frame_bytes st2 (concat chunks) = Inr res"
      using more.prems by (simp add: frame_bytes_append)
    from more.IH [OF this] rd Inl show ?thesis
      by (subst read_frame_loop.simps) (cases "bytes = []"; simp)
  next
    case (Inr res2)
    then have "res2 = res" "bytes \<noteq> []" using more.prems by (auto simp: frame_bytes_append)
    then show ?thesis using rd Inr op by (subst read_frame_loop.simps) simp
  qed
qed simp

lemma read_frame_loop_lost:
  "delivers os p h chunks p1 h1 \<Longrightarrow> frame_bytes st (concat chunks) = Inl st1 \<Longrightarrow> fst (sp_read os 64 p1 h1) = None \<Longrightarrow>
     \<exists>y. read_frame_loop os st p h = Some (None, y)"
proof (induction arbitrary: st rule: delivers.induct)
  case (none p h)
  then show ?case by (subst read_frame_loop.simps) (simp add: split_beta)
next
  case (more p h bytes p1 h1 chunks p2 h2)
  then obtain st2 where st2: "frame_bytes st bytes = Inl st2" "frame_bytes st2 (concat chunks) = Inl st1"
    by (auto simp: frame_bytes_append split: sum.splits)
  from more.IH [OF this(2) more.prems(2)] more.hyps(1) st2(1) show ?case
    by (subst read_frame_loop.simps) (cases "bytes = []"; simp)
qed

text \<open>So \<open>read_frame\<close> ends without a frame exactly if the line is lost or a checksum is wrong, and with a body exactly if it arrives.\<close>

lemma read_frame_outcome:
  "(\<exists>p2 h2. read_frame os p h = Some (None, p2, h2)) \<longleftrightarrow> line_lost os p h \<or> reply_arrives os p h None"
  "(\<exists>p2 h2. read_frame os p h = Some (Some body, p2, h2)) \<longleftrightarrow> reply_arrives os p h (Some body)"
  "read_frame os p h = Some (Some body, p2, h2) \<Longrightarrow> is_open p2"
proof -
  have sound: "if res = None then line_lost os p h \<or> reply_arrives os p h None else reply_arrives os p h res"
    if run: "read_frame os p h = Some (res, p2, h2)" for res p2 h2
  proof -
    obtain chunks p1 h1 where d: "delivers os p h chunks p1 h1"
      and e: "if \<exists>st1. frame_bytes frame_state_init (concat chunks) = Inl st1
       then res = None \<and> sp_read os 64 p1 h1 = (None, p2, h2)
       else frame_bytes frame_state_init (concat chunks) = Inr res \<and> (p2, h2) = (p1, h1)"
      using read_frame_loop_sound [OF run [unfolded read_frame_def]] unfolding fst_conv snd_conv by blast
    show ?thesis
    proof (cases "\<exists>st1. frame_bytes frame_state_init (concat chunks) = Inl st1")
      case True
      with e d show ?thesis unfolding line_lost_def by (metis fst_conv)
    next
      case False
      with e d have "reply_arrives os p h res" unfolding reply_arrives_def by metis
      then show ?thesis by auto
    qed
  qed
  have arrives: "\<exists>p2 h2. read_frame os p h = Some (res, p2, h2) \<and> is_open p2" if "reply_arrives os p h res" for res
    using that read_frame_loop_arrives unfolding reply_arrives_def read_frame_def by blast
  have lost: "\<exists>p2 h2. read_frame os p h = Some (None, p2, h2)" if "line_lost os p h"
    using that read_frame_loop_lost unfolding line_lost_def read_frame_def by (metis surj_pair)
  show "(\<exists>p2 h2. read_frame os p h = Some (None, p2, h2)) \<longleftrightarrow> line_lost os p h \<or> reply_arrives os p h None"
    using sound [of None] arrives [of None] lost by auto
  show "(\<exists>p2 h2. read_frame os p h = Some (Some body, p2, h2)) \<longleftrightarrow> reply_arrives os p h (Some body)"
    using sound [of "Some body"] arrives [of "Some body"] by auto
  show "is_open p2" if run: "read_frame os p h = Some (Some body, p2, h2)"
    using arrives [of "Some body"] sound [OF run] run by auto
qed

lemma delivers_balance:
  "delivers os p h chunks p' h' \<Longrightarrow>
     balance x h' - balance x h = sp_owned p' x - sp_owned p x \<and> sp_handle p' = sp_handle p"
proof (induction rule: delivers.induct)
  case (more p h bytes p1 h1 chunks p2 h2)
  then show ?case using sp_read_balance [OF more.hyps(1), of x] by simp
qed simp

lemma read_frame_keeps:
  assumes "read_frame os p h = Some (res, p', h')"
  shows "balance x h' - balance x h = sp_owned p' x - sp_owned p x \<and> sp_handle p' = sp_handle p"
proof -
  obtain chunks p1 h1 where d: "delivers os p h chunks p1 h1"
    and e: "if \<exists>st1. frame_bytes frame_state_init (concat chunks) = Inl st1
     then res = None \<and> sp_read os 64 p1 h1 = (None, p', h')
     else frame_bytes frame_state_init (concat chunks) = Inr res \<and> (p', h') = (p1, h1)"
    using read_frame_loop_sound [OF assms [unfolded read_frame_def]] unfolding fst_conv snd_conv by blast
  show ?thesis
  proof (cases "\<exists>st1. frame_bytes frame_state_init (concat chunks) = Inl st1")
    case True
    with e have "sp_read os 64 p1 h1 = (None, p', h')" by simp
    from sp_read_balance [OF this, of x] delivers_balance [OF d, of x] show ?thesis by simp
  next
    case False
    with e delivers_balance [OF d, of x] show ?thesis by simp
  qed
qed

lemma close_port_keeps:
  assumes "close_port s = (r', h')"
  shows "accounted s (r', h') \<and> rd_card r' = rd_card (fst s) \<and> rd_seq r' = rd_seq (fst s) \<and> \<not> is_open (rd_port r')"
proof -
  obtain p h1 where c: "sp_close (rd_port (fst s)) (snd s) = (p, h1)"
    by (cases "sp_close (rd_port (fst s)) (snd s)")
  then show ?thesis using assms sp_close_balance [OF c]
    by (auto simp: close_port_def split_beta accounted_def)
qed

text \<open>The branches of a transaction.\<close>

lemma transact_cases:
  assumes "transact os cmd payload s = Some (res, r', h')"
  obtains (unconnected) r h where "ensure_connected os s = Some (False, r, h)"
      "res = Err E_FAIL" "r' = r" "h' = h"
  | (write_failed) r h p h1 where "ensure_connected os s = Some (True, r, h)"
      "sp_write os (encode_frame (rd_seq r) cmd payload) (rd_port r) h = (False, p, h1)"
      "res = Err E_FAIL" "(r', h') = close_port (r\<lparr>rd_seq := rd_seq r + 1, rd_port := p\<rparr>, h1)"
  | (no_frame) r h p h1 p2 h2 where "ensure_connected os s = Some (True, r, h)"
      "sp_write os (encode_frame (rd_seq r) cmd payload) (rd_port r) h = (True, p, h1)"
      "read_frame os p h1 = Some (None, p2, h2)" "res = Err E_FAIL"
      "(r', h') = close_port (r\<lparr>rd_seq := rd_seq r + 1, rd_port := p2\<rparr>, h2)"
  | (frame) r h p h1 body p2 where "ensure_connected os s = Some (True, r, h)"
      "sp_write os (encode_frame (rd_seq r) cmd payload) (rd_port r) h = (True, p, h1)"
      "read_frame os p h1 = Some (Some body, p2, h')" "res = parse_response body"
      "r' = r\<lparr>rd_seq := rd_seq r + 1, rd_port := p2\<rparr>"
proof -
  obtain ok r h where e: "ensure_connected os s = Some (ok, r, h)"
    using assms by (auto simp: transact_def split: bind_splits)
  show ?thesis
  proof (cases ok)
    case False
    then show ?thesis using assms e unconnected by (simp add: transact_def)
  next
    case ok: True
    obtain w p h1 where wr: "sp_write os (encode_frame (rd_seq r) cmd payload) (rd_port r) h = (w, p, h1)"
      by (cases "sp_write os (encode_frame (rd_seq r) cmd payload) (rd_port r) h")
    show ?thesis
    proof (cases w)
      case False
      then show ?thesis using assms e ok wr write_failed by (simp add: transact_def Let_def)
    next
      case w: True
      obtain resp p2 h2 where rf: "read_frame os p h1 = Some (resp, p2, h2)"
        using assms e ok wr w by (auto simp: transact_def Let_def split: bind_splits)
      show ?thesis
      proof (cases resp)
        case None
        then show ?thesis using assms e ok wr w rf no_frame by (simp add: transact_def Let_def)
      next
        case (Some body)
        then show ?thesis using assms e ok wr w rf frame [of r h p h1 body p2]
          by (simp add: transact_def Let_def)
      qed
    qed
  qed
qed

lemma transact_connected:
  assumes "is_open (rd_port r)"
    and "sp_write os (encode_frame (rd_seq r) cmd payload) (rd_port r) h = (ok, p1, h1)"
  shows "transact os cmd payload (r, h) =
    (if \<not> ok then Some (Err E_FAIL, close_port (r\<lparr>rd_seq := rd_seq r + 1, rd_port := p1\<rparr>, h1))
     else case read_frame os p1 h1 of
         None \<Rightarrow> None
       | Some (None, p2, h2) \<Rightarrow> Some (Err E_FAIL, close_port (r\<lparr>rd_seq := rd_seq r + 1, rd_port := p2\<rparr>, h2))
       | Some (Some body, p2, h2) \<Rightarrow> Some (parse_response body, r\<lparr>rd_seq := rd_seq r + 1, rd_port := p2\<rparr>, h2))"
  using assms by (auto simp: transact_def ensure_connected_def Let_def split: option.splits)

lemma transact_keeps:
  assumes "transact os cmd payload s = Some (res, r', h')"
  shows "accounted s (r', h') \<and> rd_card r' = rd_card (fst s)"
  using assms
proof (cases rule: transact_cases)
  case unconnected
  then show ?thesis using ensure_connected_keeps by blast
next
  case (write_failed r h p h1)
  let ?r = "r\<lparr>rd_seq := rd_seq r + 1, rd_port := p\<rparr>"
  have "accounted (r, h) (?r, h1)"
    using sp_write_balance [OF write_failed(2)] by (simp add: accounted_def)
  moreover note e = ensure_connected_keeps [OF write_failed(1)]
    and c = close_port_keeps [OF write_failed(4) [symmetric]]
  ultimately have "accounted s (r', h')"
    using accounted_trans [OF accounted_trans [of s "(r, h)" "(?r, h1)"]] by blast
  then show ?thesis using e c by simp
next
  case (no_frame r h p h1 p2 h2)
  let ?r = "r\<lparr>rd_seq := rd_seq r + 1, rd_port := p2\<rparr>"
  have "accounted (r, h) (r\<lparr>rd_port := p\<rparr>, h1)"
    using sp_write_balance [OF no_frame(2)] by (simp add: accounted_def)
  moreover have "accounted (r\<lparr>rd_port := p\<rparr>, h1) (?r, h2)"
    using read_frame_keeps [OF no_frame(3)] by (simp add: accounted_def)
  ultimately have "accounted (r, h) (?r, h2)" by (rule accounted_trans)
  moreover note e = ensure_connected_keeps [OF no_frame(1)]
    and c = close_port_keeps [OF no_frame(5) [symmetric]]
  ultimately have "accounted s (r', h')"
    using accounted_trans [OF accounted_trans [of s "(r, h)" "(?r, h2)"]] by blast
  then show ?thesis using e c by simp
next
  case (frame r h p h1 body p2)
  have "accounted (r, h) (r\<lparr>rd_port := p\<rparr>, h1)"
    using sp_write_balance [OF frame(2)] by (simp add: accounted_def)
  moreover have "accounted (r\<lparr>rd_port := p\<rparr>, h1) (r', h')"
    using read_frame_keeps [OF frame(3)] by (simp add: accounted_def frame(5))
  ultimately have "accounted (r, h) (r', h')" by (rule accounted_trans)
  moreover note e = ensure_connected_keeps [OF frame(1)]
  ultimately have "accounted s (r', h')" using accounted_trans [of s "(r, h)"] by blast
  then show ?thesis using e by (simp add: frame(5))
qed

section \<open>Sequences of calls\<close>

datatype aime_request =
    AimeInit
  | AimePoll u8
  | AimeGetAimeId u8 "u8 list"
  | AimeGetFelicaId u8
  | AimeGetMifareUid u8 "u8 list"
  | AimeMifareSelect u8 "u8 list"
  | AimeSetKey u8 u8 "u8 list"
  | AimeAuthenticate u8 u8 "u8 list"
  | AimeReadBlock u8 "u8 list" u8 "u8 list"
  | AimeFelicaTransact u8 "u8 list" "u8 list"
  | AimeRadioOn u8
  | AimeRadioOff u8
  | AimeToUpdateMode u8
  | AimeSendHexData u8 "u8 list"
  | AimeLedSetColor u8 "u8 list"

text \<open>The result code and the state after a call; the LED call has no code and counts as \<open>S_OK\<close>.\<close>

fun aime_call :: "os \<Rightarrow> aime_request \<Rightarrow> reader \<times> history \<Rightarrow> (hresult \<times> reader \<times> history) option" where
  "aime_call os AimeInit s = aime_init os s"
| "aime_call os (AimePoll u) s = aime_poll os u s"
| "aime_call os (AimeGetAimeId u luid) s = do { (c, out, s) \<leftarrow> aime_get_aime_id os u luid s; Some (c, s) }"
| "aime_call os (AimeGetFelicaId u) s = Some (fst (aime_get_felica_id u 0 (fst s)), s)"
| "aime_call os (AimeGetMifareUid u out) s = Some (fst (aime_get_mifare_uid u out (fst s)), s)"
| "aime_call os (AimeMifareSelect u uid) s = mifare_select os u uid s"
| "aime_call os (AimeSetKey u k key) s = mifare_set_key os u k key s"
| "aime_call os (AimeAuthenticate u k pl) s = mifare_authenticate os u k pl s"
| "aime_call os (AimeReadBlock u uid n blk) s = do { (c, out, s) \<leftarrow> mifare_read_block os u uid n blk s; Some (c, s) }"
| "aime_call os (AimeFelicaTransact u req buf) s = do { (c, out, s) \<leftarrow> felica_transact os u req buf s; Some (c, s) }"
| "aime_call os (AimeRadioOn u) s = aime_simple os u SG_CMD_RADIO_ON s"
| "aime_call os (AimeRadioOff u) s = aime_simple os u SG_CMD_RADIO_OFF s"
| "aime_call os (AimeToUpdateMode u) s = aime_simple os u SG_CMD_TO_UPDATE_MODE s"
| "aime_call os (AimeSendHexData u pl) s = do { (c, out, s) \<leftarrow> send_hex_data os u pl s; Some (c, s) }"
| "aime_call os (AimeLedSetColor u rgb) s = do { s \<leftarrow> aime_led_set_color os u rgb s; Some (S_OK, s) }"

fun aime_run :: "os \<Rightarrow> aime_request list \<Rightarrow> reader \<times> history \<Rightarrow> (hresult list \<times> reader \<times> history) option" where
  "aime_run os [] s = Some ([], s)"
| "aime_run os (q # qs) s = do {
     (c, s) \<leftarrow> aime_call os q s;
     (cs, s) \<leftarrow> aime_run os qs s;
     Some (c # cs, s)
   }"

definition card_ok :: "cached_card \<Rightarrow> bool" where
  "card_ok cc \<longleftrightarrow> (case cc of NoCard \<Rightarrow> True | Mifare uid \<Rightarrow> length uid = 4
     | Felica idm pmm \<Rightarrow> length idm = 8 \<and> length pmm = 8)"

text \<open>An operation keeps the handles accounted for, and the card is of the right shape.\<close>

definition reader_keeps :: "reader \<times> history \<Rightarrow> reader \<times> history \<Rightarrow> bool" where
  "reader_keeps s s' \<longleftrightarrow> accounted s s' \<and> (card_ok (rd_card (fst s)) \<longrightarrow> card_ok (rd_card (fst s')))"

lemma reader_keeps_refl: "reader_keeps s s"
  by (simp add: reader_keeps_def accounted_refl)

lemma reader_keeps_trans: "reader_keeps s1 s2 \<Longrightarrow> reader_keeps s2 s3 \<Longrightarrow> reader_keeps s1 s3"
  unfolding reader_keeps_def using accounted_trans by blast

lemma reader_keeps_transact: "transact os cmd pl s = Some (res, s') \<Longrightarrow> reader_keeps s s'"
  using transact_keeps [of os cmd pl s res "fst s'" "snd s'"] by (simp add: reader_keeps_def)

lemma reader_keeps_status: "transact_status os cmd pl s = Some (c, s') \<Longrightarrow> reader_keeps s s'"
  by (auto simp: transact_status_def split: bind_splits intro: reader_keeps_transact)

lemma card_ok_poll_payload: "card_ok (snd (poll_payload payload))"
  by (simp add: poll_payload_def card_ok_def)

lemma reader_keeps_poll:
  assumes "reader_poll os s = Some (c, s')"
  shows "reader_keeps s s'"
proof -
  obtain res s1 where t: "transact os SG_CMD_POLL [] s = Some (res, s1)"
    using assms by (auto simp: reader_poll_def split: bind_splits)
  show ?thesis
  proof (cases res)
    case (Err e)
    then show ?thesis using assms t reader_keeps_transact [OF t] by (auto simp: reader_poll_def)
  next
    case (Ok response)
    then have s': "s' = (fst s1\<lparr>rd_card := snd (poll_payload (rr_payload response))\<rparr>, snd s1)"
      using assms t by (auto simp: reader_poll_def split_beta)
    from reader_keeps_transact [OF t] show ?thesis
      by (simp add: s' reader_keeps_def accounted_def card_ok_poll_payload)
  qed
qed

lemma log_version_balance: "balance x (log_version label res h) = balance x h"
  by (auto simp: log_version_def log_event_def split: result.splits option.splits)

lemma reader_keeps_init:
  assumes "reader_init os s = Some (c, s')"
  shows "reader_keeps s s'"
proof -
  obtain ok r h where e: "ensure_connected os s = Some (ok, r, h)"
    using assms by (auto simp: reader_init_def split: bind_splits)
  have k0: "reader_keeps s (r, h)"
    using ensure_connected_keeps [OF e] by (simp add: reader_keeps_def)
  show ?thesis
  proof (cases "ok \<and> \<not> rd_initialized r")
    case False
    then show ?thesis using assms e k0 by (auto simp: reader_init_def split: if_splits)
  next
    case True
    obtain fw r1 h1 hw r2 h2 info r3 h3 where
      t: "transact os SG_CMD_GET_FW_VERSION [] (r, h) = Some (fw, r1, h1)"
        "transact os SG_CMD_GET_HW_VERSION [] (r1, log_version ''Monica firmware: '' fw h1) = Some (hw, r2, h2)"
        "transact os SG_CMD_EXT_BOARD_INFO [] (r2, log_version ''Monica hardware: '' hw h2) = Some (info, r3, h3)"
      and s': "s' = (r3\<lparr>rd_initialized := True\<rparr>, h3)"
      using assms e True by (auto simp: reader_init_def Let_def split: bind_splits)
    have log: "reader_keeps (q, g) (q, log_version label res g)" for q g label res
      by (simp add: reader_keeps_def accounted_def log_version_balance)
    have "reader_keeps (r, h) (r3, h3)"
      using reader_keeps_trans [OF reader_keeps_transact [OF t(1)] reader_keeps_trans [OF log
        reader_keeps_trans [OF reader_keeps_transact [OF t(2)] reader_keeps_trans [OF log
          reader_keeps_transact [OF t(3)]]]]] .
    from reader_keeps_trans [OF k0 this] show ?thesis
      by (simp add: s' reader_keeps_def accounted_def)
  qed
qed

lemma aime_call_keeps:
  assumes "aime_call os q s = Some (c, s')"
  shows "reader_keeps s s'"
proof (cases q)
  case (AimeGetAimeId u luid)
  then show ?thesis using assms
    by (auto simp: aime_get_aime_id_def reader_get_aime_id_def reader_keeps_refl
        split: if_splits bind_splits cached_card.splits result.splits intro: reader_keeps_transact)
next
  case (AimeReadBlock u uid n blk)
  then show ?thesis using assms
    by (auto simp: mifare_read_block_def reader_keeps_refl
        split: if_splits bind_splits result.splits intro: reader_keeps_transact)
next
  case (AimeFelicaTransact u req buf)
  then show ?thesis using assms
    by (auto simp: felica_transact_def reader_keeps_refl Let_def
        split: if_splits bind_splits result.splits intro: reader_keeps_transact)
next
  case (AimeSendHexData u pl)
  then show ?thesis using assms
    by (auto simp: send_hex_data_def reader_keeps_refl
        split: if_splits bind_splits result.splits intro: reader_keeps_transact)
next
  case (AimeLedSetColor u rgb)
  then show ?thesis using assms
    by (auto simp: aime_led_set_color_def reader_keeps_refl
        split: if_splits bind_splits intro: reader_keeps_transact)
qed (use assms in \<open>auto simp: aime_init_def aime_poll_def mifare_select_def mifare_set_key_def
      mifare_authenticate_def aime_simple_def reader_keeps_refl Let_def split: if_splits
      intro: reader_keeps_init reader_keeps_poll reader_keeps_status\<close>)

lemma aime_run_keeps: "aime_run os qs s = Some (cs, s') \<Longrightarrow> reader_keeps s s'"
proof (induction qs arbitrary: s cs)
  case Nil
  then show ?case by (simp add: reader_keeps_refl)
next
  case (Cons q qs)
  then obtain c s1 cs1 where "aime_call os q s = Some (c, s1)" "aime_run os qs s1 = Some (cs1, s')"
    by (auto split: bind_splits)
  then show ?case using Cons.IH aime_call_keeps reader_keeps_trans by blast
qed

section \<open>A silent reader\<close>

text \<open>A port whose reads all time out with nothing read.\<close>

definition silent :: "os \<Rightarrow> bool" where
  "silent os \<longleftrightarrow> (\<forall>h x n. os_read_file os h x n = Done [])"

definition readable :: "serial_port \<Rightarrow> bool" where
  "readable p \<longleftrightarrow> is_open p \<and> ov_event (sp_read_state p) \<noteq> NULL_HANDLE"

lemma silent_read:
  assumes "silent os" "readable p"
  shows "\<exists>p' h'. sp_read os 64 p h = (Some [], p', h') \<and> readable p'"
  using assms
  by (auto simp: sp_read_def prepare_overlapped_def silent_def readable_def is_open_def Let_def)

lemma silent_read_frame_loop:
  assumes "silent os" "readable p"
  shows "read_frame_loop os st p h = None"
proof (rule ccontr)
  assume "read_frame_loop os st p h \<noteq> None"
  then obtain y where run: "read_frame_loop os st p h = Some y" by auto
  have "silent os \<longrightarrow> readable p \<longrightarrow> False"
  proof (rule read_frame_loop.raw_induct
      [where P = "\<lambda>os st p h y. silent os \<longrightarrow> readable p \<longrightarrow> False", OF _ run])
    fix go :: "os \<Rightarrow> frame_state \<Rightarrow> serial_port \<Rightarrow> history \<Rightarrow> (u8 list option \<times> serial_port \<times> history) option"
      and os st p h y
    assume IH: "\<And>os st p h y. go os st p h = Some y \<Longrightarrow> silent os \<longrightarrow> readable p \<longrightarrow> False"
      and body: "(let (r, p, h) = sp_read os 64 p h
      in case r of
           None \<Rightarrow> Some (None, p, h)
         | Some bytes \<Rightarrow>
             if bytes = [] then go os st p h
             else (case frame_bytes st bytes of
                     Inl st \<Rightarrow> go os st p h
                   | Inr res \<Rightarrow> Some (res, p, h))) = Some y"
    show "silent os \<longrightarrow> readable p \<longrightarrow> False"
    proof (intro impI)
      assume s: "silent os" and p: "readable p"
      obtain p' h' where "sp_read os 64 p h = (Some [], p', h')" "readable p'"
        using silent_read [OF s p] by blast
      with body IH [of os st p' h' y] s show False by simp
    qed
  qed
  with assms show False by blast
qed

section \<open>Properties\<close>

text \<open>
  C23. The frame reader accepts exactly the frames whose checksum is right: from any state it can be
  in, mid-frame included, a sync byte followed by any escaped body with a matching length byte and any
  checksum byte ends it with that body if the checksum is the sum of the body and with an
  error otherwise, whatever follows.
\<close>

theorem aime_frame_accepted_iff_checksum:
  assumes "frame_wf st" and "body \<noteq> []" and "length body = unat (body ! 0)"
  shows "frame_bytes st (0xE0 # concat (map aime_escape (body @ [c])) @ rest) =
    Inr (if c = sum8 body then Some body else None)"
  using frame_bytes_frame [OF assms] .

theorem aime_frame_accepted_iff_checksum_witness:
  "frame_bytes frame_state_init (0xE0 # [3, 0xD0, 0xDF, 7, 0xEA] @ [1]) = Inr (Some [3, 0xE0, 7])"
  using aime_frame_accepted_iff_checksum [OF frame_wf_init, of "[3, 0xE0, 7]" "0xEA" "[1]"]
  by (simp add: aime_escape_def sum_simps)

text \<open>The response a reader sends to a request.\<close>

definition response_body :: "u8 \<Rightarrow> u8 \<Rightarrow> u8 \<Rightarrow> u8 \<Rightarrow> u8 list \<Rightarrow> u8 list" where
  "response_body addr seqno cmd status payload =
     [of_nat (6 + length payload), addr, seqno, cmd, status, of_nat (length payload)] @ payload"

definition response_frame :: "u8 \<Rightarrow> u8 \<Rightarrow> u8 \<Rightarrow> u8 \<Rightarrow> u8 list \<Rightarrow> u8 list" where
  "response_frame addr seqno cmd status payload =
     (let body = response_body addr seqno cmd status payload
      in 0xE0 # concat (map aime_escape (body @ [sum8 body])))"

lemma response_body_parse:
  assumes "length payload \<le> 249"
  shows "length (response_body a sq cmd status payload) = unat (response_body a sq cmd status payload ! 0)"
    and "parse_response (response_body a sq cmd status payload) = Ok \<lparr>rr_status = status, rr_payload = payload\<rparr>"
proof -
  have "unat (of_nat (6 + length payload) :: u8) = 6 + length payload"
    "unat (of_nat (length payload) :: u8) = length payload"
    using assms by (simp_all only: unat_of_nat take_bit_eq_mod) simp_all
  then show "length (response_body a sq cmd status payload) = unat (response_body a sq cmd status payload ! 0)"
    "parse_response (response_body a sq cmd status payload) = Ok \<lparr>rr_status = status, rr_payload = payload\<rparr>"
    by (simp_all add: response_body_def parse_response_def Let_def)
qed

definition answering_os :: "u8 list \<Rightarrow> os" where
  "answering_os bytes = willing_os\<lparr>os_read_file := (\<lambda>h hd n. Done bytes)\<rparr>"

definition open_reader :: reader where
  "open_reader = reader_default\<lparr>rd_port := opened_port\<rparr>"

lemma opened_port_fields:
  "sp_handle opened_port = 10" "ov_event (sp_read_state opened_port) = 20"
  "ov_event (sp_write_state opened_port) = 20" "is_open opened_port"
  by (simp_all add: opened_port_def sp_open_def serial_defs willing_os_def open_timeouts_def is_open_def
      serial_port_default_def overlapped_default_def NULL_HANDLE_def INVALID_HANDLE_VALUE_def)

lemma open_reader_fields: "rd_port open_reader = opened_port" "rd_seq open_reader = 0" "rd_card open_reader = NoCard"
  by (simp_all add: open_reader_def reader_default_def)

lemma answering_delivers:
  assumes "length bytes \<le> 64"
  shows "\<exists>p1 h1 p2 h2. sp_write (answering_os bytes) buf opened_port [] = (True, p1, h1) \<and>
    delivers (answering_os bytes) p1 h1 ([] @ [bytes]) p2 h2"
proof -
  obtain p1 h1 where w: "sp_write (answering_os bytes) buf opened_port [] = (True, p1, h1)"
    and p1: "sp_handle p1 = 10" "ov_event (sp_read_state p1) = 20"
    by (simp add: sp_write_def opened_port_fields prepare_overlapped_def answering_os_def willing_os_def
        NULL_HANDLE_def INVALID_HANDLE_VALUE_def Let_def)
  have "\<exists>p2 h2. sp_read (answering_os bytes) 64 p1 h1 = (Some bytes, p2, h2)"
    using assms
    by (simp add: sp_read_def p1 prepare_overlapped_def answering_os_def NULL_HANDLE_def
        INVALID_HANDLE_VALUE_def Let_def)
  with w show ?thesis by (auto simp: delivers_simps)
qed

lemma transact_delivered:
  assumes "is_open (rd_port r)"
    and "sp_write os (encode_frame (rd_seq r) cmd req) (rd_port r) h = (True, p1, h1)"
    and "delivers os p1 h1 (cs @ [c]) p2 h2" and "c \<noteq> []"
    and "concat (cs @ [c]) = response_frame addr seqno cmd' status payload"
    and "length payload \<le> 249"
  shows "transact os cmd req (r, h) =
    Some (Ok \<lparr>rr_status = status, rr_payload = payload\<rparr>, r\<lparr>rd_seq := rd_seq r + 1, rd_port := p2\<rparr>, h2)"
proof -
  let ?body = "response_body addr seqno cmd' status payload"
  let ?frame = "response_frame addr seqno cmd' status payload"
  have ne: "?body \<noteq> []" by (simp add: response_body_def)
  have whole: "frame_bytes frame_state_init ?frame = Inr (Some ?body)"
    using frame_bytes_frame [OF frame_wf_init ne response_body_parse(1) [OF assms(6)], of "sum8 ?body" "[]"]
    by (simp add: response_frame_def Let_def)
  obtain st1 where st1: "frame_bytes frame_state_init (concat cs) = Inl st1"
    using frame_bytes_prefix_open [OF frame_wf_init ne response_body_parse(1) [OF assms(6)],
        of "sum8 ?body" "concat cs" c] assms(4,5)
    by (auto simp: response_frame_def Let_def)
  then have "frame_bytes st1 c = Inr (Some ?body)"
    using whole frame_bytes_append [of frame_state_init "concat cs" c] assms(5) by simp
  from read_frame_loop_delivers [OF assms(3) st1 this]
  have "read_frame os p1 h1 = Some (Some ?body, p2, h2)" by (simp add: read_frame_def)
  with assms(1,2) response_body_parse(2) [OF assms(6)] show ?thesis
    by (simp add: transact_def ensure_connected_def Let_def)
qed

text \<open>
  C8. A transaction returns what the reader answered: on an open port, when the request is written and
  the reads that follow deliver a well-formed response with a payload of at most 249 bytes, cut into
  reads anywhere and with empty reads between, the transaction returns its status and payload
  and the sequence number advances.  The response's address, sequence number and command play no part.
\<close>

theorem aime_transact_returns_response:
  assumes "is_open (rd_port r)"
    and "sp_write os (encode_frame (rd_seq r) cmd req) (rd_port r) h = (True, p1, h1)"
    and "delivers os p1 h1 (cs @ [c]) p2 h2" and "c \<noteq> []"
    and "concat (cs @ [c]) = response_frame addr seqno cmd' status payload"
    and "length payload \<le> 249"
  shows "transact os cmd req (r, h) =
    Some (Ok \<lparr>rr_status = status, rr_payload = payload\<rparr>, r\<lparr>rd_seq := rd_seq r + 1, rd_port := p2\<rparr>, h2)"
  by (rule transact_delivered [OF assms])

theorem aime_transact_returns_response_witness:
  "map_option fst (transact (answering_os (response_frame 0 0 0x42 0 [1, 2])) SG_CMD_POLL [] (open_reader, [])) =
     Some (Ok \<lparr>rr_status = 0, rr_payload = [1, 2]\<rparr>)"
proof -
  let ?f = "response_frame 0 0 0x42 0 [1, 2]"
  have f: "length ?f \<le> 64" "?f \<noteq> []"
    by (simp_all add: response_frame_def response_body_def aime_escape_def Let_def)
  obtain p1 h1 p2 h2 where w: "sp_write (answering_os ?f) (encode_frame (rd_seq open_reader) SG_CMD_POLL [])
      (rd_port open_reader) [] = (True, p1, h1)" and d: "delivers (answering_os ?f) p1 h1 ([] @ [?f]) p2 h2"
    using answering_delivers [OF f(1)] by (metis open_reader_fields(1))
  have o: "is_open (rd_port open_reader)" by (simp add: open_reader_fields opened_port_fields)
  have c: "concat ([] @ [?f]) = ?f" by simp
  show ?thesis
    using aime_transact_returns_response [OF o w d f(2) c] by simp
qed

text \<open>
  C26. How a transaction on a connected reader fails.  It returns \<open>E_FAIL\<close> with the port closed, the
  sequence number moved on and the card as it was exactly when the request could not be written, or
  it was and then a read failed before a frame was complete or the first complete frame had a
  wrong checksum.  It returns an error with the port still open exactly when the request was
  written and a frame with a right checksum arrived whose inner lengths do not fit, which is
  \<open>E_FAIL\<close> as well.
\<close>

theorem aime_transact_failure:
  assumes "is_open (rd_port r)"
    and "sp_write os (encode_frame (rd_seq r) cmd payload) (rd_port r) h = (ok, p1, h1)"
  shows "((\<exists>r' h'. transact os cmd payload (r, h) = Some (Err E_FAIL, r', h') \<and> \<not> is_open (rd_port r') \<and>
        rd_seq r' = rd_seq r + 1 \<and> rd_card r' = rd_card r) \<longleftrightarrow>
      (if ok then line_lost os p1 h1 \<or> reply_arrives os p1 h1 None else True)) \<and>
    ((\<exists>e r' h'. transact os cmd payload (r, h) = Some (Err e, r', h') \<and> is_open (rd_port r') \<and>
        e = E_FAIL \<and> rd_seq r' = rd_seq r + 1 \<and> rd_card r' = rd_card r) \<longleftrightarrow>
      ok \<and> (\<exists>body. reply_arrives os p1 h1 (Some body) \<and> (length body < 6 \<or> length body < 6 + unat (body ! 5))))"
proof (cases ok)
  case False
  have "transact os cmd payload (r, h) = Some (Err E_FAIL, close_port (r\<lparr>rd_seq := rd_seq r + 1, rd_port := p1\<rparr>, h1))"
    using assms False by (simp add: transact_connected)
  then show ?thesis
    using False close_port_keeps [of "(r\<lparr>rd_seq := rd_seq r + 1, rd_port := p1\<rparr>, h1)"]
    by (cases "close_port (r\<lparr>rd_seq := rd_seq r + 1, rd_port := p1\<rparr>, h1)") auto
next
  case True
  have bad: "parse_response body = Err e \<longleftrightarrow> e = E_FAIL \<and> (length body < 6 \<or> length body < 6 + unat (body ! 5))" for body e
    by (auto simp: parse_response_def Let_def)
  show ?thesis
  proof (cases "read_frame os p1 h1")
    case None
    then show ?thesis
      using True read_frame_outcome(1,2) [of os p1 h1] assms by (simp add: transact_connected)
  next
    case (Some y)
    obtain res p2 h2 where y: "y = (res, p2, h2)" by (cases y)
    show ?thesis
    proof (cases res)
      case none: None
      then have "transact os cmd payload (r, h) =
          Some (Err E_FAIL, close_port (r\<lparr>rd_seq := rd_seq r + 1, rd_port := p2\<rparr>, h2))"
        using assms True Some y by (simp add: transact_connected)
      moreover have "line_lost os p1 h1 \<or> reply_arrives os p1 h1 None"
        unfolding read_frame_outcome(1) [symmetric] using Some y none by simp
      moreover have "\<not> reply_arrives os p1 h1 (Some b)" for b
        unfolding read_frame_outcome(2) [symmetric] using Some y none by simp
      ultimately show ?thesis
        using True close_port_keeps [of "(r\<lparr>rd_seq := rd_seq r + 1, rd_port := p2\<rparr>, h2)"]
        by (cases "close_port (r\<lparr>rd_seq := rd_seq r + 1, rd_port := p2\<rparr>, h2)") auto
    next
      case body: (Some b)
      have "\<not> (line_lost os p1 h1 \<or> reply_arrives os p1 h1 None)"
        unfolding read_frame_outcome(1) [symmetric] using Some y body by simp
      moreover have "reply_arrives os p1 h1 (Some b') \<longleftrightarrow> b' = b" for b'
        unfolding read_frame_outcome(2) [symmetric] using Some y body by auto
      moreover have "is_open p2" using read_frame_outcome(3) Some y body by blast
      moreover have "transact os cmd payload (r, h) = Some (parse_response b, r\<lparr>rd_seq := rd_seq r + 1, rd_port := p2\<rparr>, h2)"
        using assms True Some y body by (simp add: transact_connected)
      ultimately show ?thesis using True bad [of b] by auto
    qed
  qed
qed

theorem aime_transact_failure_witness:
  "\<exists>r' h'. transact (willing_os\<lparr>os_read_file := (\<lambda>h x n. Failed ERROR_INVALID_HANDLE)\<rparr>) SG_CMD_POLL [] (open_reader, []) =
     Some (Err E_FAIL, r', h') \<and> \<not> is_open (rd_port r') \<and> rd_seq r' = 1"
proof -
  let ?os = "willing_os\<lparr>os_read_file := (\<lambda>h x n. Failed ERROR_INVALID_HANDLE)\<rparr>"
  obtain p1 h1 where w: "sp_write ?os (encode_frame (rd_seq open_reader) SG_CMD_POLL []) (rd_port open_reader) [] =
      (True, p1, h1)" and p1: "sp_handle p1 = 10" "ov_event (sp_read_state p1) = 20"
    by (simp add: sp_write_def open_reader_fields opened_port_fields prepare_overlapped_def willing_os_def
        NULL_HANDLE_def INVALID_HANDLE_VALUE_def Let_def)
  have "fst (sp_read ?os 64 p1 h1) = None"
    by (simp add: sp_read_def p1 prepare_overlapped_def NULL_HANDLE_def INVALID_HANDLE_VALUE_def
        fatal_io_error_def ERROR_INVALID_HANDLE_def ERROR_IO_PENDING_def Let_def)
  then have "line_lost ?os p1 h1"
    unfolding line_lost_def
    by (intro exI [of _ "[]"] exI [of _ p1] exI [of _ h1] exI [of _ frame_state_init] conjI delivers.none) simp_all
  moreover have "is_open (rd_port open_reader)" by (simp add: open_reader_fields opened_port_fields)
  ultimately show ?thesis
    using aime_transact_failure [OF _ w] by (auto simp: open_reader_fields)
qed

text \<open>
  C27. A reader that stays silent blocks the caller for good: if every read of the port times out with
  nothing read, a transaction whose request was written never returns.
\<close>

theorem aime_silent_reader_never_returns:
  assumes "silent os" and "readable (rd_port r)"
    and "sp_write os (encode_frame (rd_seq r) cmd payload) (rd_port r) h = (True, p1, h1)"
  shows "transact os cmd payload (r, h) = None"
proof -
  have "sp_read_state p1 = sp_read_state (rd_port r)"
    using assms(3)
    by (auto simp: sp_write_def Let_def split: if_splits prod.splits answer.splits overlapped_wait.splits)
  moreover have "is_open (rd_port r) \<and> is_open p1" using link.wr_True_opened [OF assms(3)] .
  ultimately have "readable p1" using assms(2) by (simp add: readable_def)
  then have "read_frame os p1 h1 = None"
    using silent_read_frame_loop [OF assms(1)] by (simp add: read_frame_def)
  with assms show ?thesis by (simp add: transact_def ensure_connected_def readable_def Let_def)
qed

theorem aime_silent_reader_never_returns_witness:
  "transact willing_os SG_CMD_POLL [] (open_reader, []) = None"
proof -
  have "silent willing_os" "readable (rd_port open_reader)"
    by (simp_all add: silent_def willing_os_def readable_def open_reader_def opened_port_fields NULL_HANDLE_def)
  moreover have "sp_write willing_os (encode_frame (rd_seq open_reader) SG_CMD_POLL []) (rd_port open_reader) [] =
      (True, snd (sp_write willing_os (encode_frame (rd_seq open_reader) SG_CMD_POLL []) (rd_port open_reader) []))"
    by (simp add: open_reader_def sp_write_def opened_port_fields prepare_overlapped_def willing_os_def
        NULL_HANDLE_def INVALID_HANDLE_VALUE_def Let_def)
  ultimately show ?thesis
    using aime_silent_reader_never_returns [of willing_os open_reader SG_CMD_POLL "[]" "[]"] by (metis prod.collapse)
qed

text \<open>
  Whatever the game calls, in any order, and whatever the reader and Windows answer: every handle is
  accounted for (opened as often as closed, but for those the port still holds), and the cached card
  always has an id of the right length, so that no copy into the caller's buffer can panic.
\<close>

theorem aime_calls_keep_reader:
  assumes "aime_run os qs (reader_default, h) = Some (codes, r', h')"
  shows "balance x h' - balance x h = sp_owned (rd_port r') x \<and> card_ok (rd_card r')"
proof -
  have "reader_keeps (reader_default, h) (r', h')" by (rule aime_run_keeps [OF assms])
  then show ?thesis
    by (simp add: reader_keeps_def accounted_def reader_default_def card_ok_def sp_owned_def
        serial_port_default_def overlapped_default_def)
qed

theorem aime_calls_keep_reader_witness:
  "card_ok (rd_card reader_default)"
proof -
  have "aime_run willing_os [AimeGetFelicaId 0, AimeMifareSelect 1 []] (reader_default, []) =
      Some ([S_FALSE, S_FALSE], reader_default, [])"
    by (simp add: aime_get_felica_id_def reader_get_felica_id_def reader_default_def mifare_select_def)
  from aime_calls_keep_reader [OF this] show ?thesis by blast
qed

text \<open>
  A poll's code and the cached card agree: after \<open>S_OK\<close> exactly one of the two id functions
  answers \<open>S_OK\<close>; after \<open>S_FALSE\<close> neither does; an error clears the card or, when the line
  itself failed, leaves the card of the poll before in place.
\<close>

theorem aime_poll_agrees_with_card:
  assumes "reader_poll os s = Some (code, r', h')" and "length uid_out = 4"
  shows "(if code = S_OK
      then (fst (reader_get_felica_id x r') = S_OK) \<noteq> (fst (reader_get_mifare_uid uid_out r') = S_OK)
      else if code = S_FALSE
      then fst (reader_get_felica_id x r') = S_FALSE \<and> fst (reader_get_mifare_uid uid_out r') = S_FALSE
      else code = E_FAIL \<and> rd_card r' \<in> {NoCard, rd_card (fst s)})"
proof -
  obtain res r1 h1 where t: "transact os SG_CMD_POLL [] s = Some (res, r1, h1)"
    using assms(1) by (auto simp: reader_poll_def split: bind_splits)
  show ?thesis
  proof (cases res)
    case (Err e)
    have "e = E_FAIL" using t [unfolded Err] by (cases rule: transact_cases)
        (auto simp: parse_response_def Let_def split: if_splits)
    then show ?thesis using assms(1) t Err transact_keeps [OF t] by (auto simp: reader_poll_def)
  next
    case (Ok response)
    then have "code = fst (poll_payload (rr_payload response))"
      "rd_card r' = snd (poll_payload (rr_payload response))"
      using assms(1) t by (auto simp: reader_poll_def split: prod.splits)
    then show ?thesis using assms(2)
      by (auto simp: poll_payload_def reader_get_felica_id_def reader_get_mifare_uid_def)
  qed
qed

theorem aime_poll_agrees_with_card_witness:
  "\<exists>r' h'. reader_poll (answering_os (response_frame 0 0 0x42 0 [1, 0x10, 4, 9, 8, 7, 6])) (open_reader, []) =
       Some (S_OK, r', h') \<and>
     (fst (reader_get_felica_id 0 r') = S_OK) \<noteq> (fst (reader_get_mifare_uid [0, 0, 0, 0] r') = S_OK)"
proof -
  let ?f = "response_frame 0 0 0x42 0 [1, 0x10, 4, 9, 8, 7, 6]"
  have f: "length ?f \<le> 64" "?f \<noteq> []"
    by (simp_all add: response_frame_def response_body_def aime_escape_def sum_simps Let_def)
  obtain p1 h1 p2 h2 where w: "sp_write (answering_os ?f) (encode_frame (rd_seq open_reader) SG_CMD_POLL [])
      (rd_port open_reader) [] = (True, p1, h1)" and d: "delivers (answering_os ?f) p1 h1 ([] @ [?f]) p2 h2"
    using answering_delivers [OF f(1)] by (metis open_reader_fields(1))
  have o: "is_open (rd_port open_reader)" by (simp add: open_reader_fields opened_port_fields)
  have c: "concat ([] @ [?f]) = ?f" by simp
  have poll: "\<exists>r'. reader_poll (answering_os ?f) (open_reader, []) = Some (S_OK, r', h2)"
    using transact_delivered [OF o w d f(2) c] by (simp add: reader_poll_def poll_payload_def)
  then obtain r' where "reader_poll (answering_os ?f) (open_reader, []) = Some (S_OK, r', h2)" ..
  from this aime_poll_agrees_with_card [OF this, of "[0, 0, 0, 0]" 0] show ?thesis by simp
qed

end
