(* ===== verification/Aime_Exports.thy ===== *)
theory Aime_Exports
  imports Aime
begin

text \<open>
  The exported functions of \<open>src/exports/aime.rs\<close> over the game's memory: the guards against null
  pointers and the slices the crate's functions work on.  A mutable slice is what the memory holds
  when the call starts and is written back when it ends.  The width of \<open>usize\<close> (8 bytes in the x64
  build, 4 in the x86 build) is the argument \<open>usz\<close>.  A function without a result returns 0.
\<close>

type_synonym aime_game = "bytes_memory \<times> reader \<times> history"
type_synonym aime_result = "(int \<times> bytes_memory \<times> reader \<times> history) option"

definition aime_io_get_api_version :: "u16" where
  "aime_io_get_api_version = 0x0101"

text \<open>A call that leaves the memory alone.\<close>

definition no_memory :: "(reader \<times> history \<Rightarrow> (hresult \<times> reader \<times> history) option) \<Rightarrow> aime_game \<Rightarrow> aime_result" where
  "no_memory f g = (let (m, s) = g in do { (c, s) \<leftarrow> f s; Some (c, m, s) })"

definition aime_io_init :: "os \<Rightarrow> aime_game \<Rightarrow> aime_result" where
  "aime_io_init os = no_memory (aime_init os)"

definition aime_io_nfc_poll :: "os \<Rightarrow> u8 \<Rightarrow> aime_game \<Rightarrow> aime_result" where
  "aime_io_nfc_poll os unit_no = no_memory (aime_poll os unit_no)"

definition aime_io_nfc_get_aime_id :: "os \<Rightarrow> u8 \<Rightarrow> nat \<Rightarrow> nat \<Rightarrow> aime_game \<Rightarrow> aime_result" where
  "aime_io_nfc_get_aime_id os unit_no luid luid_size g =
     (let (m, s) = g in
      case read_mut_bytes m luid luid_size of
        None \<Rightarrow> Some (S_FALSE, m, s)
      | Some buffer \<Rightarrow> do {
          (c, out, s) \<leftarrow> aime_get_aime_id os unit_no buffer s;
          Some (c, store luid out m, s)
        })"

definition aime_io_nfc_get_felica_id :: "u8 \<Rightarrow> nat \<Rightarrow> aime_game \<Rightarrow> aime_result" where
  "aime_io_nfc_get_felica_id unit_no IDm g =
     (let (m, s) = g in
      if IDm = 0 then Some (S_FALSE, m, s)
      else
        let (c, v) = aime_get_felica_id unit_no (of_nat (nat_of_le (load m IDm 8))) (fst s)
        in Some (c, store IDm (le_bytes 8 (unat v)) m, s))"

definition aime_io_nfc_get_mifare_uid :: "u8 \<Rightarrow> nat \<Rightarrow> nat \<Rightarrow> aime_game \<Rightarrow> aime_result" where
  "aime_io_nfc_get_mifare_uid unit_no uid uid_size g =
     (let (m, s) = g in
      case read_mut_bytes m uid uid_size of
        None \<Rightarrow> Some (S_FALSE, m, s)
      | Some buffer \<Rightarrow> (let (c, out) = aime_get_mifare_uid unit_no buffer (fst s) in Some (c, store uid out m, s)))"

text \<open>A call with one input slice.\<close>

definition with_bytes ::
  "nat \<Rightarrow> nat \<Rightarrow> (u8 list \<Rightarrow> reader \<times> history \<Rightarrow> (hresult \<times> reader \<times> history) option) \<Rightarrow> aime_game \<Rightarrow> aime_result" where
  "with_bytes src len f g =
     (let (m, s) = g in
      case read_bytes m src len of None \<Rightarrow> Some (S_FALSE, m, s) | Some buffer \<Rightarrow> no_memory (f buffer) (m, s))"

definition aime_io_nfc_mifare_select :: "os \<Rightarrow> u8 \<Rightarrow> nat \<Rightarrow> nat \<Rightarrow> aime_game \<Rightarrow> aime_result" where
  "aime_io_nfc_mifare_select os unit_no uid uid_size = with_bytes uid uid_size (mifare_select os unit_no)"

definition aime_io_nfc_mifare_set_key :: "os \<Rightarrow> u8 \<Rightarrow> u8 \<Rightarrow> nat \<Rightarrow> nat \<Rightarrow> aime_game \<Rightarrow> aime_result" where
  "aime_io_nfc_mifare_set_key os unit_no key_type key key_size =
     with_bytes key key_size (mifare_set_key os unit_no key_type)"

definition aime_io_nfc_mifare_authenticate :: "os \<Rightarrow> u8 \<Rightarrow> u8 \<Rightarrow> nat \<Rightarrow> nat \<Rightarrow> aime_game \<Rightarrow> aime_result" where
  "aime_io_nfc_mifare_authenticate os unit_no key_type payload payload_size =
     with_bytes payload payload_size (mifare_authenticate os unit_no key_type)"

definition aime_io_nfc_mifare_read_block ::
  "os \<Rightarrow> u8 \<Rightarrow> nat \<Rightarrow> nat \<Rightarrow> u8 \<Rightarrow> nat \<Rightarrow> nat \<Rightarrow> aime_game \<Rightarrow> aime_result" where
  "aime_io_nfc_mifare_read_block os unit_no uid uid_size block_no block block_size g =
     (let (m, s) = g in
      case read_bytes m uid uid_size of
        None \<Rightarrow> Some (S_FALSE, m, s)
      | Some uid_buffer \<Rightarrow>
          (case read_mut_bytes m block block_size of
             None \<Rightarrow> Some (S_FALSE, m, s)
           | Some block_buffer \<Rightarrow> do {
               (c, out, s) \<leftarrow> mifare_read_block os unit_no uid_buffer block_no block_buffer s;
               Some (c, store block out m, s)
             }))"

definition aime_io_nfc_felica_transact ::
  "os \<Rightarrow> nat \<Rightarrow> u8 \<Rightarrow> nat \<Rightarrow> nat \<Rightarrow> nat \<Rightarrow> nat \<Rightarrow> nat \<Rightarrow> aime_game \<Rightarrow> aime_result" where
  "aime_io_nfc_felica_transact os usz unit_no req req_size res res_size res_size_written g =
     (let (m, s) = g in
      case read_bytes m req req_size of
        None \<Rightarrow> Some (S_FALSE, m, s)
      | Some req_buffer \<Rightarrow>
          (case read_mut_bytes m res res_size of
             None \<Rightarrow> Some (S_FALSE, m, s)
           | Some res_buffer \<Rightarrow>
               if res_size_written = 0 then Some (S_FALSE, m, s)
               else do {
                 (c, (out, written), s) \<leftarrow> felica_transact os unit_no req_buffer res_buffer s;
                 let m = store res out m;
                 let m = (case written of None \<Rightarrow> m | Some n \<Rightarrow> store res_size_written (le_bytes usz n) m);
                 Some (c, m, s)
               }))"

definition aime_io_nfc_radio_on :: "os \<Rightarrow> u8 \<Rightarrow> aime_game \<Rightarrow> aime_result" where
  "aime_io_nfc_radio_on os unit_no = no_memory (aime_simple os unit_no SG_CMD_RADIO_ON)"

definition aime_io_nfc_radio_off :: "os \<Rightarrow> u8 \<Rightarrow> aime_game \<Rightarrow> aime_result" where
  "aime_io_nfc_radio_off os unit_no = no_memory (aime_simple os unit_no SG_CMD_RADIO_OFF)"

definition aime_io_nfc_to_update_mode :: "os \<Rightarrow> u8 \<Rightarrow> aime_game \<Rightarrow> aime_result" where
  "aime_io_nfc_to_update_mode os unit_no = no_memory (aime_simple os unit_no SG_CMD_TO_UPDATE_MODE)"

text \<open>The status goes out only when the pointer for it is not null.\<close>

definition aime_io_nfc_send_hex_data :: "os \<Rightarrow> u8 \<Rightarrow> nat \<Rightarrow> nat \<Rightarrow> nat \<Rightarrow> aime_game \<Rightarrow> aime_result" where
  "aime_io_nfc_send_hex_data os unit_no payload payload_size status_out g =
     (let (m, s) = g in
      case read_bytes m payload payload_size of
        None \<Rightarrow> Some (S_FALSE, m, s)
      | Some buffer \<Rightarrow> do {
          (c, status, s) \<leftarrow> send_hex_data os unit_no buffer s;
          let m = (case status of
                     Some v \<Rightarrow> if status_out = 0 then m else store status_out [v] m
                   | None \<Rightarrow> m);
          Some (c, m, s)
        })"

definition aime_io_led_set_color :: "os \<Rightarrow> u8 \<Rightarrow> u8 \<Rightarrow> u8 \<Rightarrow> u8 \<Rightarrow> aime_game \<Rightarrow> aime_result" where
  "aime_io_led_set_color os unit_no r g b game =
     (let (m, s) = game in do { s \<leftarrow> aime_led_set_color os unit_no [r, g, b] s; Some (0, m, s) })"

text \<open>The two functions of the text display do nothing.\<close>

definition aime_io_vfd :: "nat \<Rightarrow> aime_game \<Rightarrow> aime_result" where
  "aime_io_vfd text g = (let (m, s) = g in Some (0, m, s))"

section \<open>The interface\<close>

datatype aime_export =
    AioGetApiVersion
  | AioInit
  | AioNfcPoll u8
  | AioGetAimeId u8 nat nat
  | AioGetFelicaId u8 nat
  | AioGetMifareUid u8 nat nat
  | AioMifareSelect u8 nat nat
  | AioMifareSetKey u8 u8 nat nat
  | AioMifareAuthenticate u8 u8 nat nat
  | AioMifareReadBlock u8 nat nat u8 nat nat
  | AioFelicaTransact u8 nat nat nat nat nat
  | AioRadioOn u8
  | AioRadioOff u8
  | AioToUpdateMode u8
  | AioSendHexData u8 nat nat nat
  | AioLedSetColor u8 u8 u8 u8
  | AioVfd nat

fun aime_exported :: "os \<Rightarrow> nat \<Rightarrow> aime_export \<Rightarrow> aime_game \<Rightarrow> aime_result" where
  "aime_exported os usz AioGetApiVersion g = Some (uint aime_io_get_api_version, g)"
| "aime_exported os usz AioInit g = aime_io_init os g"
| "aime_exported os usz (AioNfcPoll u) g = aime_io_nfc_poll os u g"
| "aime_exported os usz (AioGetAimeId u luid n) g = aime_io_nfc_get_aime_id os u luid n g"
| "aime_exported os usz (AioGetFelicaId u idm) g = aime_io_nfc_get_felica_id u idm g"
| "aime_exported os usz (AioGetMifareUid u uid n) g = aime_io_nfc_get_mifare_uid u uid n g"
| "aime_exported os usz (AioMifareSelect u uid n) g = aime_io_nfc_mifare_select os u uid n g"
| "aime_exported os usz (AioMifareSetKey u k key n) g = aime_io_nfc_mifare_set_key os u k key n g"
| "aime_exported os usz (AioMifareAuthenticate u k p n) g = aime_io_nfc_mifare_authenticate os u k p n g"
| "aime_exported os usz (AioMifareReadBlock u uid n k block bn) g = aime_io_nfc_mifare_read_block os u uid n k block bn g"
| "aime_exported os usz (AioFelicaTransact u req n res rn written) g =
     aime_io_nfc_felica_transact os usz u req n res rn written g"
| "aime_exported os usz (AioRadioOn u) g = aime_io_nfc_radio_on os u g"
| "aime_exported os usz (AioRadioOff u) g = aime_io_nfc_radio_off os u g"
| "aime_exported os usz (AioToUpdateMode u) g = aime_io_nfc_to_update_mode os u g"
| "aime_exported os usz (AioSendHexData u p n status) g = aime_io_nfc_send_hex_data os u p n status g"
| "aime_exported os usz (AioLedSetColor u r gr b) g = aime_io_led_set_color os u r gr b g"
| "aime_exported os usz (AioVfd text) g = aime_io_vfd text g"

text \<open>The buffers a call was given for its results.\<close>

fun aime_owned :: "nat \<Rightarrow> aime_export \<Rightarrow> nat set" where
  "aime_owned usz (AioGetAimeId u luid n) = pointee luid n"
| "aime_owned usz (AioGetFelicaId u idm) = pointee idm 8"
| "aime_owned usz (AioGetMifareUid u uid n) = pointee uid n"
| "aime_owned usz (AioMifareReadBlock u uid n k block bn) = pointee block bn"
| "aime_owned usz (AioFelicaTransact u req n res rn written) = pointee res rn \<union> pointee written usz"
| "aime_owned usz (AioSendHexData u p n status) = pointee status 1"
| "aime_owned usz e = {}"

text \<open>
  The call of the crate behind an exported call, \<open>None\<close> when a null pointer or the kind of the call
  stops it before.
\<close>

fun aime_request_of :: "bytes_memory \<Rightarrow> aime_export \<Rightarrow> aime_request option" where
  "aime_request_of m AioGetApiVersion = None"
| "aime_request_of m AioInit = Some AimeInit"
| "aime_request_of m (AioNfcPoll u) = Some (AimePoll u)"
| "aime_request_of m (AioGetAimeId u luid n) = map_option (AimeGetAimeId u) (read_mut_bytes m luid n)"
| "aime_request_of m (AioGetFelicaId u idm) = (if idm = 0 then None else Some (AimeGetFelicaId u))"
| "aime_request_of m (AioGetMifareUid u uid n) = map_option (AimeGetMifareUid u) (read_mut_bytes m uid n)"
| "aime_request_of m (AioMifareSelect u uid n) = map_option (AimeMifareSelect u) (read_bytes m uid n)"
| "aime_request_of m (AioMifareSetKey u k key n) = map_option (AimeSetKey u k) (read_bytes m key n)"
| "aime_request_of m (AioMifareAuthenticate u k p n) = map_option (AimeAuthenticate u k) (read_bytes m p n)"
| "aime_request_of m (AioMifareReadBlock u uid n k block bn) =
     do { uid \<leftarrow> read_bytes m uid n; block \<leftarrow> read_mut_bytes m block bn; Some (AimeReadBlock u uid k block) }"
| "aime_request_of m (AioFelicaTransact u req n res rn written) =
     do { req \<leftarrow> read_bytes m req n; buf \<leftarrow> read_mut_bytes m res rn;
          if written = 0 then None else Some (AimeFelicaTransact u req buf) }"
| "aime_request_of m (AioRadioOn u) = Some (AimeRadioOn u)"
| "aime_request_of m (AioRadioOff u) = Some (AimeRadioOff u)"
| "aime_request_of m (AioToUpdateMode u) = Some (AimeToUpdateMode u)"
| "aime_request_of m (AioSendHexData u p n status) = map_option (AimeSendHexData u) (read_bytes m p n)"
| "aime_request_of m (AioLedSetColor u r g b) = Some (AimeLedSetColor u [r, g, b])"
| "aime_request_of m (AioVfd text) = None"

section \<open>What the crate's functions do to a buffer\<close>

text \<open>A result buffer keeps its length, and its contents unless the call succeeds.\<close>

lemma get_aime_id_buffer:
  "aime_get_aime_id os u buffer s = Some (c, out, s') \<Longrightarrow>
     length out = length buffer \<and> (c = S_OK \<or> out = buffer)"
  by (auto simp: aime_get_aime_id_def reader_get_aime_id_def
      split: if_splits bind_splits cached_card.splits result.splits)

lemma get_felica_id_code:
  "fst (aime_get_felica_id u v r) =
     (if u \<noteq> 0 then S_FALSE else case rd_card r of Felica idm pmm \<Rightarrow> S_OK | _ \<Rightarrow> S_FALSE)"
  by (auto simp: aime_get_felica_id_def reader_get_felica_id_def split: cached_card.split)

lemma get_felica_id_value:
  "aime_get_felica_id u v r = (c, v') \<Longrightarrow> c = S_OK \<or> v' = v"
  by (auto simp: aime_get_felica_id_def reader_get_felica_id_def split: if_splits cached_card.splits)

lemma get_mifare_uid_buffer:
  "card_ok (rd_card r) \<Longrightarrow> aime_get_mifare_uid u buffer r = (c, out) \<Longrightarrow>
     length out = length buffer \<and> (c = S_OK \<or> out = buffer)"
  by (auto simp: aime_get_mifare_uid_def reader_get_mifare_uid_def card_ok_def
      split: if_splits cached_card.splits)

lemma read_block_buffer:
  "mifare_read_block os u uid k buffer s = Some (c, out, s') \<Longrightarrow>
     length out = length buffer \<and> (c = S_OK \<or> out = buffer)"
  by (auto simp: mifare_read_block_def split: if_splits bind_splits result.splits)

lemma felica_transact_buffer:
  "felica_transact os u req buffer s = Some (c, (out, written), s') \<Longrightarrow>
     length out = length buffer \<and> (c = S_OK \<or> out = buffer \<and> written = None)"
  by (auto simp: felica_transact_def Let_def split: if_splits bind_splits result.splits)

text \<open>The bytes that a call with the result \<open>c\<close> may have mem_changes.\<close>

fun aime_written :: "nat \<Rightarrow> aime_export \<Rightarrow> hresult \<Rightarrow> nat set" where
  "aime_written usz (AioSendHexData u p n status) c = pointee status 1"
| "aime_written usz e c = (if c = S_OK then aime_owned usz e else {})"

lemma aime_written_owned: "aime_written usz e c \<subseteq> aime_owned usz e"
  by (cases e) auto

lemma in_mem_changes_store: "x \<in> mem_changes m (store a out m) \<Longrightarrow> a \<le> x \<and> x < a + length out"
  using mem_changes_store [OF refl, of m a out] by auto

lemma aime_exported_written:
  assumes "card_ok (rd_card (fst s))" "aime_exported os usz e (m, s) = Some (c, m', s')"
  shows "mem_changes m m' \<subseteq> aime_written usz e c"
proof (cases e)
  case (AioGetAimeId u luid n)
  then show ?thesis using assms(2)
    by (auto simp: aime_io_nfc_get_aime_id_def read_mut_bytes_def store_load pointee_def
        dest!: get_aime_id_buffer dest: in_mem_changes_store split: if_splits bind_splits)
next
  case (AioGetFelicaId u idm)
  then show ?thesis using assms(2)
    by (auto simp: aime_io_nfc_get_felica_id_def Let_def u64_in_memory store_load pointee_def
        dest!: get_felica_id_value dest: in_mem_changes_store split: if_splits prod.splits)
next
  case (AioGetMifareUid u uid n)
  obtain k out where g: "aime_get_mifare_uid u (load m uid n) (fst s) = (k, out)"
    by (cases "aime_get_mifare_uid u (load m uid n) (fst s)")
  note out = get_mifare_uid_buffer [OF assms(1) g]
  then have "k = S_OK \<or> store uid out m = m" by (metis store_load)
  with AioGetMifareUid assms(2) out show ?thesis
    by (auto simp: aime_io_nfc_get_mifare_uid_def read_mut_bytes_def g pointee_def
        dest: in_mem_changes_store split: if_splits)
next
  case (AioMifareReadBlock u uid n k block bn)
  then show ?thesis using assms(2)
    by (auto simp: aime_io_nfc_mifare_read_block_def read_bytes_def read_mut_bytes_def store_load pointee_def
        dest!: read_block_buffer dest: in_mem_changes_store split: if_splits bind_splits)
next
  case (AioFelicaTransact u req n res rn written)
  then show ?thesis using assms(2)
    by (auto simp: aime_io_nfc_felica_transact_def read_bytes_def read_mut_bytes_def Let_def
        mem_changes_def store_apply load_def pointee_def
        dest!: felica_transact_buffer split: if_splits bind_splits option.splits)
next
  case (AioSendHexData u p n status)
  then show ?thesis using assms(2)
    by (auto simp: aime_io_nfc_send_hex_data_def read_bytes_def pointee_def mem_changes_def split: if_splits bind_splits option.splits)
qed (use assms(2) in \<open>auto simp: no_memory_def with_bytes_def aime_io_init_def aime_io_nfc_poll_def
      aime_io_nfc_mifare_select_def aime_io_nfc_mifare_set_key_def aime_io_nfc_mifare_authenticate_def
      aime_io_nfc_radio_on_def aime_io_nfc_radio_off_def aime_io_nfc_to_update_mode_def
      aime_io_led_set_color_def aime_io_vfd_def split: bind_splits option.splits\<close>)

lemma map_option_bind: "map_option f (x \<bind> g) = x \<bind> (\<lambda>y. map_option f (g y))"
  by (cases x) simp_all

text \<open>What a call answers that does not reach the crate.\<close>

fun aime_refusal :: "aime_export \<Rightarrow> int" where
  "aime_refusal AioGetApiVersion = 0x0101"
| "aime_refusal (AioVfd text) = 0"
| "aime_refusal e = S_FALSE"

definition aime_inner :: "os \<Rightarrow> bytes_memory \<Rightarrow> aime_export \<Rightarrow> reader \<times> history \<Rightarrow> (int \<times> reader \<times> history) option" where
  "aime_inner os m e s =
     (case aime_request_of m e of Some q \<Rightarrow> aime_call os q s | None \<Rightarrow> Some (aime_refusal e, s))"

lemma aime_exported_inner:
  "map_option (\<lambda>(c, m', s'). (c, s')) (aime_exported os usz e (m, s)) = aime_inner os m e s"
  by (cases e; cases s)
    (auto simp: aime_inner_def get_felica_id_code aime_io_get_api_version_def aime_io_init_def aime_io_nfc_poll_def
      aime_io_nfc_get_aime_id_def aime_io_nfc_get_felica_id_def aime_io_nfc_get_mifare_uid_def
      aime_io_nfc_mifare_select_def aime_io_nfc_mifare_set_key_def aime_io_nfc_mifare_authenticate_def
      aime_io_nfc_mifare_read_block_def aime_io_nfc_felica_transact_def aime_io_nfc_radio_on_def
      aime_io_nfc_radio_off_def aime_io_nfc_to_update_mode_def aime_io_nfc_send_hex_data_def
      aime_io_led_set_color_def aime_io_vfd_def no_memory_def with_bytes_def S_OK_def
      map_option_bind split_beta Let_def split: option.splits bind_splits)

text \<open>The interface over the crate's calls, on readers whose cached card has the right shape.\<close>

interpretation aime_interface: exported_interface "aime_exported os usz" "aime_owned usz"
  "\<lambda>m e s. map_option snd (aime_inner os m e s)" "\<lambda>s. card_ok (rd_card (fst s))" for os usz
proof
  fix s :: "reader \<times> history" and e m c m' s'
  assume "card_ok (rd_card (fst s))" "aime_exported os usz e (m, s) = Some (c, m', s')"
  from aime_exported_written [OF this] aime_written_owned
  show "mem_changes m m' \<subseteq> aime_owned usz e" by blast
next
  fix s :: "reader \<times> history" and e m
  show "map_option (\<lambda>(r, m', s'). s') (aime_exported os usz e (m, s)) = map_option snd (aime_inner os m e s)"
    using aime_exported_inner [of os usz e m s, symmetric] by (auto simp: option.map_comp comp_def split_def)
next
  fix s s' :: "reader \<times> history" and e m
  assume "map_option snd (aime_inner os m e s) = Some s'" "card_ok (rd_card (fst s))"
  then show "card_ok (rd_card (fst s'))"
    by (auto simp: aime_inner_def reader_keeps_def split: option.splits dest!: aime_call_keeps)
qed

section \<open>Properties\<close>

text \<open>
  C15. An exported function of the card reader writes only to the result buffers it was given, and
  only when it returns \<open>S_OK\<close>: after any other code the game's memory is what it was, but for the
  status byte of \<open>aime_io_nfc_send_hex_data\<close>.
\<close>

theorem aime_export_writes:
  assumes "card_ok (rd_card (fst s))" "aime_exported os usz e (m, s) = Some (c, m', s')"
  shows "mem_changes m m' \<subseteq> aime_written usz e c"
  by (rule aime_exported_written [OF assms])

theorem aime_export_writes_witness:
  "mem_changes (\<lambda>_. 0) (store 100 [1, 2, 3, 4] (\<lambda>_. 0)) \<subseteq> {100..<104} \<and>
   aime_exported willing_os 8 (AioGetMifareUid 0 100 4)
     (\<lambda>_. 0, reader_default\<lparr>rd_card := Mifare [1, 2, 3, 4]\<rparr>, []) =
     Some (S_OK, store 100 [1, 2, 3, 4] (\<lambda>_. 0), reader_default\<lparr>rd_card := Mifare [1, 2, 3, 4]\<rparr>, [])"
proof -
  let ?r = "reader_default\<lparr>rd_card := Mifare [1, 2, 3, 4]\<rparr>"
  have run: "aime_exported willing_os 8 (AioGetMifareUid 0 100 4) (\<lambda>_. 0, ?r, []) =
      Some (S_OK, store 100 [1, 2, 3, 4] (\<lambda>_. 0), ?r, [])"
    by (simp add: aime_io_nfc_get_mifare_uid_def read_mut_bytes_def aime_get_mifare_uid_def
        reader_get_mifare_uid_def)
  from aime_export_writes [OF _ run] show ?thesis
    unfolding run by (simp add: card_ok_def pointee_def)
qed

text \<open>
  C20. Whatever the game calls through the exported functions, in any order and with whatever pointers,
  and whatever the reader and Windows answer: nothing but the result buffers of the calls made is
  written, every handle is accounted for (opened as often as closed, but for those the port still
  holds), and the cached card keeps an id of the right length, so no copy into a buffer can panic.
\<close>

theorem aime_exports_confined:
  assumes "exported_run (aime_exported os usz) es (m, reader_default, h) = Some (cs, m', r', h')"
  shows "mem_changes m m' \<subseteq> (\<Union>e \<in> set es. aime_owned usz e) \<and>
    balance x h' - balance x h = sp_owned (rd_port r') x \<and> card_ok (rd_card r')"
proof -
  have "card_ok (rd_card (fst (reader_default, h)))" by (simp add: reader_default_def card_ok_def)
  note conf = aime_interface.run_confined [OF assms this]
  have "reader_keeps (reader_default, h) (r', h')"
  proof (rule aime_interface.run_relates [OF _ _ _ assms])
    show "\<forall>m e s s'. map_option snd (aime_inner os m e s) = Some s' \<longrightarrow> reader_keeps s s'"
      by (auto simp: aime_inner_def reader_keeps_refl split: option.splits dest!: aime_call_keeps)
  qed (use reader_keeps_refl reader_keeps_trans in blast)+
  with conf show ?thesis
    by (simp add: reader_keeps_def accounted_def reader_default_def sp_owned_def
        serial_port_default_def overlapped_default_def)
qed

theorem aime_exports_confined_witness:
  "mem_changes (\<lambda>_. 0) (\<lambda>_. 0) \<subseteq> {100..<104 :: nat} \<and> card_ok (rd_card reader_default) \<and>
   exported_run (aime_exported willing_os 8) [AioGetMifareUid 0 100 4, AioMifareSelect 0 0 4, AioGetApiVersion]
     (\<lambda>_. 0, reader_default, []) = Some ([S_FALSE, S_FALSE, 0x101], (\<lambda>_. 0), reader_default, [])"
proof -
  have run: "exported_run (aime_exported willing_os 8)
      [AioGetMifareUid 0 100 4, AioMifareSelect 0 0 4, AioGetApiVersion] (\<lambda>_. 0, reader_default, []) =
      Some ([S_FALSE, S_FALSE, 0x101], (\<lambda>_. 0), reader_default, [])"
    by (simp add: aime_io_nfc_get_mifare_uid_def read_mut_bytes_def aime_get_mifare_uid_def store_load
        reader_get_mifare_uid_def reader_default_def aime_io_nfc_mifare_select_def with_bytes_def
        read_bytes_def aime_io_get_api_version_def)
  from aime_exports_confined [OF run] show ?thesis
    unfolding run by (simp add: pointee_def)
qed

end
