(* ===== verification/Slider.thy ===== *)
theory Slider
  imports Prelude
begin

text \<open>
  The slider protocol of \<open>crates/affine-core/src/slider.rs\<close>, used by the Chunithm and Mercury
  runtimes: the command bytes, the frame encoder \<open>send_slider_frame\<close> and the byte-wise parser
  \<open>SliderParser\<close>.

  \<open>slider_push\<close> is the code's parser over its fixed 128-byte buffer (\<open>None\<close> is a panic); the
  abstract parser \<open>apush\<close> keeps only the bytes accumulated since the last sync byte.  The
  refinement lemma \<open>slider_push_refines\<close> relates the two and carries every other result.
\<close>

section \<open>Commands, packets and the encoder\<close>

definition SLIDER_CMD_AUTO_SCAN :: u8 where "SLIDER_CMD_AUTO_SCAN = 0x01"
definition SLIDER_CMD_SET_LED :: u8 where "SLIDER_CMD_SET_LED = 0x02"
definition SLIDER_CMD_AUTO_SCAN_START :: u8 where "SLIDER_CMD_AUTO_SCAN_START = 0x03"
definition SLIDER_CMD_AUTO_SCAN_STOP :: u8 where "SLIDER_CMD_AUTO_SCAN_STOP = 0x04"
definition SLIDER_CMD_AUTO_AIR :: u8 where "SLIDER_CMD_AUTO_AIR = 0x05"
definition SLIDER_CMD_AUTO_AIR_START :: u8 where "SLIDER_CMD_AUTO_AIR_START = 0x06"
definition SLIDER_CMD_SET_AIR_LED :: u8 where "SLIDER_CMD_SET_AIR_LED = 0x07"

lemmas slider_cmd_defs = SLIDER_CMD_AUTO_SCAN_def SLIDER_CMD_SET_LED_def
  SLIDER_CMD_AUTO_SCAN_START_def SLIDER_CMD_AUTO_SCAN_STOP_def SLIDER_CMD_AUTO_AIR_def
  SLIDER_CMD_AUTO_AIR_START_def SLIDER_CMD_SET_AIR_LED_def

record slider_packet =
  pkt_cmd :: u8
  pkt_payload :: "u8 list"

text \<open>The bytes \<open>send_slider_frame\<close> hands to its writer; \<open>as u8\<close> truncates the length.\<close>

definition slider_frame :: "u8 \<Rightarrow> u8 list \<Rightarrow> u8 list" where
  "slider_frame cmd payload =
     (let frame = [0xFF, cmd, of_nat (length payload)] @ payload;
          checksum = neg_sum8 frame
      in frame @ [checksum])"

definition send_slider_frame :: "(u8 list \<Rightarrow> 's \<Rightarrow> bool \<times> 's) \<Rightarrow> u8 \<Rightarrow> u8 list \<Rightarrow> 's \<Rightarrow> bool \<times> 's" where
  "send_slider_frame writer cmd payload s = writer (slider_frame cmd payload) s"

section \<open>The parser\<close>

record slider_parser =
  sl_buf :: "u8 list"
  sl_len :: nat
  sl_escaped :: bool
  sl_active :: bool

definition slider_parser_default :: slider_parser where
  "slider_parser_default =
     \<lparr>sl_buf = replicate 128 0, sl_len = 0, sl_escaped = False, sl_active = False\<rparr>"

definition slider_push :: "slider_parser \<Rightarrow> u8 \<Rightarrow> (slider_parser \<times> slider_packet option) option" where
  "slider_push p byte =
     (if byte = 0xFF then do {
        b \<leftarrow> set_at (sl_buf p) 0 byte;
        Some (p\<lparr>sl_active := True, sl_escaped := False, sl_buf := b, sl_len := 1\<rparr>, None)
      }
      else if \<not> sl_active p then Some (p, None)
      else if byte = 0xFD then Some (p\<lparr>sl_escaped := True\<rparr>, None)
      else
        let decoded = (if sl_escaped p then byte + 1 else byte);
            p = p\<lparr>sl_escaped := False\<rparr>
        in if length (sl_buf p) \<le> sl_len p then Some (p\<lparr>sl_active := False, sl_len := 0\<rparr>, None)
        else do {
          b \<leftarrow> set_at (sl_buf p) (sl_len p) decoded;
          let p = p\<lparr>sl_buf := b, sl_len := sl_len p + 1\<rparr>;
          if sl_len p < 4 then Some (p, None)
          else do {
            sz \<leftarrow> get_at (sl_buf p) 2;
            let size = unat sz;
            let total = size + 4;
            if sl_len p < total then Some (p, None)
            else do {
              c \<leftarrow> get_at (sl_buf p) 1;
              pl \<leftarrow> slice (sl_buf p) 3 (3 + size);
              Some (p\<lparr>sl_active := False, sl_len := 0\<rparr>,
                    Some \<lparr>pkt_cmd = c, pkt_payload = pl\<rparr>)
            }
          }
        })"

section \<open>The abstract parser\<close>

text \<open>The bytes since the sync byte (none: waiting for one) and the pending escape.\<close>

type_synonym slider_abs = "u8 list option \<times> bool"

definition apush :: "slider_abs \<Rightarrow> u8 \<Rightarrow> slider_abs \<times> slider_packet option" where
  "apush a byte =
     (if byte = 0xFF then ((Some [0xFF], False), None)
      else case a of
        (None, e) \<Rightarrow> (a, None)
      | (Some xs, e) \<Rightarrow>
          if byte = 0xFD then ((Some xs, True), None)
          else if 128 \<le> length xs then ((None, False), None)
          else let ys = xs @ [if e then byte + 1 else byte]
            in if length ys < 4 \<or> length ys < unat (ys ! 2) + 4 then ((Some ys, False), None)
               else ((None, False),
                     Some \<lparr>pkt_cmd = ys ! 1, pkt_payload = take (unat (ys ! 2)) (drop 3 ys)\<rparr>))"

definition slider_abs :: "slider_parser \<Rightarrow> slider_abs" where
  "slider_abs p = (if sl_active p then Some (take (sl_len p) (sl_buf p)) else None, sl_escaped p)"

text \<open>The buffer keeps its size and the fill level never leaves it.\<close>

definition slider_wf :: "slider_parser \<Rightarrow> bool" where
  "slider_wf p \<longleftrightarrow> length (sl_buf p) = 128 \<and> sl_len p \<le> 128"

lemma slider_wf_default [wf_intros]: "slider_wf slider_parser_default"
  by (simp add: slider_wf_def slider_parser_default_def)

lemma slider_push_refines:
  assumes "slider_wf p"
  shows "\<exists>p' r. slider_push p byte = Some (p', r) \<and> slider_wf p' \<and>
           apush (slider_abs p) byte = (slider_abs p', r)"
proof -
  have buf: "length (sl_buf p) = 128" "sl_len p \<le> 128" "sl_buf p \<noteq> []"
    using assms by (auto simp: slider_wf_def)
  consider (sync) "byte = 0xFF" | (idle) "byte \<noteq> 0xFF" "\<not> sl_active p"
    | (esc) "byte = 0xFD" "sl_active p" 
    | (full) "byte \<noteq> 0xFF" "byte \<noteq> 0xFD" "sl_active p" "sl_len p = 128"
    | (data) "byte \<noteq> 0xFF" "byte \<noteq> 0xFD" "sl_active p" "sl_len p < 128"
    using buf by fastforce
  then show ?thesis
  proof cases
    case data
    define d where "d = (if sl_escaped p then byte + 1 else byte)"
    define b where "b = (sl_buf p)[sl_len p := d]"
    define ys where "ys = take (sl_len p) (sl_buf p) @ [d]"
    have ys: "ys = take (Suc (sl_len p)) b"
      using buf data by (simp add: ys_def b_def take_Suc_update)
    have b: "set_at (sl_buf p) (sl_len p) d = Some b" "length b = 128"
      using buf data by (auto simp: access_simps b_def)
    have push: "slider_push p byte =
        (let p = p\<lparr>sl_escaped := False, sl_buf := b, sl_len := Suc (sl_len p)\<rparr>
         in if sl_len p < 4 \<or> sl_len p < unat (b ! 2) + 4 then Some (p, None)
            else Some (p\<lparr>sl_active := False, sl_len := 0\<rparr>,
                 Some \<lparr>pkt_cmd = b ! 1, pkt_payload = take (unat (b ! 2)) (drop 3 b)\<rparr>))"
      using data buf b by (auto simp: slider_push_def access_simps d_def [symmetric] Let_def)
    have abs: "apush (slider_abs p) byte =
        (if length ys < 4 \<or> length ys < unat (ys ! 2) + 4 then ((Some ys, False), None)
         else ((None, False),
               Some \<lparr>pkt_cmd = ys ! 1, pkt_payload = take (unat (ys ! 2)) (drop 3 ys)\<rparr>))"
      using data buf by (simp add: apush_def slider_abs_def d_def [symmetric] ys_def Let_def)
    have len: "length ys = Suc (sl_len p)"
      using buf data by (simp add: ys_def)
    have nth: "ys ! 1 = b ! 1 \<and> ys ! 2 = b ! 2" if "3 \<le> sl_len p"
      using that by (simp add: ys)
    show ?thesis
    proof (cases "Suc (sl_len p) < 4 \<or> Suc (sl_len p) < unat (b ! 2) + 4")
      case True
      then have "length ys < 4 \<or> length ys < unat (ys ! 2) + 4"
        using len nth by (cases "sl_len p < 3") auto
      with True show ?thesis
        using push abs data b by (auto simp: slider_abs_def slider_wf_def ys [symmetric] Let_def)
    next
      case False
      then have "\<not> (length ys < 4 \<or> length ys < unat (ys ! 2) + 4)"
        and "ys ! 1 = b ! 1" "ys ! 2 = b ! 2"
        and "take (unat (b ! 2)) (drop 3 ys) = take (unat (b ! 2)) (drop 3 b)"
        using len nth by (auto simp: ys drop_take min_def)
      with False show ?thesis
        using push abs b by (auto simp: slider_abs_def slider_wf_def Let_def)
    qed
  qed (use buf in \<open>auto simp: slider_push_def apush_def slider_abs_def slider_wf_def access_simps
         Let_def take_Suc hd_conv_nth split: prod.splits\<close>)
qed

section \<open>Streams\<close>

text \<open>
  One step of the device threads' byte loop.  The panic branch is not taken in a well-formed
  parser (\<open>slider_push_refines\<close>), so it leaves the state alone.
\<close>

definition slider_step :: "slider_parser \<Rightarrow> u8 \<Rightarrow> slider_parser \<times> slider_packet list" where
  "slider_step p byte =
     (case slider_push p byte of None \<Rightarrow> (p, []) | Some (p', r) \<Rightarrow> (p', opt_list r))"

definition astep :: "slider_abs \<Rightarrow> u8 \<Rightarrow> slider_abs \<times> slider_packet list" where
  "astep a byte = (let (a', r) = apush a byte in (a', opt_list r))"

text \<open>The loop as the code runs it: stop at the first panic.\<close>

fun slider_run :: "slider_parser \<Rightarrow> u8 list \<Rightarrow> (slider_parser \<times> slider_packet list) option" where
  "slider_run p [] = Some (p, [])"
| "slider_run p (b # bs) = do {
     (p1, r) \<leftarrow> slider_push p b;
     (p2, rs) \<leftarrow> slider_run p1 bs;
     Some (p2, opt_list r @ rs)
   }"

lemma slider_step_refines:
  "slider_wf p \<Longrightarrow> slider_wf (fst (slider_step p b)) \<and>
     astep (slider_abs p) b = (slider_abs (fst (slider_step p b)), snd (slider_step p b))"
  using slider_push_refines [of p b] by (auto simp: slider_step_def astep_def)

lemma slider_feed_refines:
  assumes "slider_wf p"
  shows "slider_wf (fst (feed slider_step p bs)) \<and> feed astep (slider_abs p) bs =
    (slider_abs (fst (feed slider_step p bs)), snd (feed slider_step p bs))"
  by (rule feed_simulation [where good = slider_wf]) (rule slider_step_refines assms | assumption)+

lemma slider_run_total:
  "slider_wf p \<Longrightarrow> slider_run p bs = Some (feed slider_step p bs)"
proof (induction bs arbitrary: p)
  case Nil
  then show ?case by simp
next
  case (Cons b bs)
  obtain p' r where "slider_push p b = Some (p', r)" "slider_wf p'"
    using slider_push_refines [OF Cons.prems] by blast
  then show ?case using Cons.IH [of p'] by (simp add: slider_step_def split_beta Let_def)
qed

section \<open>Byte stuffing\<close>

text \<open>
  What the parser's escape undoes: a sync or escape byte in the body travels as \<open>0xFD\<close> and the
  byte minus one.  The code has no such encoder; \<open>stuffed_frame\<close> is the reference the parser is
  measured against.
\<close>

definition clean :: "u8 \<Rightarrow> bool" where
  "clean b \<longleftrightarrow> b \<noteq> 0xFF \<and> b \<noteq> 0xFD"

definition stuff :: "u8 \<Rightarrow> u8 list" where
  "stuff b = (if clean b then [b] else [0xFD, b - 1])"

definition stuffed_frame :: "u8 \<Rightarrow> u8 list \<Rightarrow> u8 list" where
  "stuffed_frame cmd payload = 0xFF # concat (map stuff (tl (slider_frame cmd payload)))"

lemma stuff_clean: "(\<And>b. b \<in> set bs \<Longrightarrow> clean b) \<Longrightarrow> concat (map stuff bs) = bs"
  by (induction bs) (auto simp: stuff_def)

lemma slider_frame_split: "slider_frame cmd payload = 0xFF # tl (slider_frame cmd payload)"
  by (simp add: slider_frame_def Let_def)

lemma length_slider_frame: "length (slider_frame cmd payload) = length payload + 4"
  by (simp add: slider_frame_def Let_def)

lemma sum8_slider_frame: "sum8 (slider_frame cmd payload) = 0"
  by (simp add: slider_frame_def Let_def sum_simps)

text \<open>One stuffed byte is one data byte.\<close>

lemma feed_stuff:
  assumes "length xs < 128"
  shows "feed astep (Some xs, False) (stuff b @ bs) =
    (let ys = xs @ [b] in
     if length ys < 4 \<or> length ys < unat (ys ! 2) + 4 then feed astep (Some ys, False) bs
     else (let (s, ms) = feed astep (None, False) bs in
       (s, \<lparr>pkt_cmd = ys ! 1, pkt_payload = take (unat (ys ! 2)) (drop 3 ys)\<rparr> # ms)))"
proof (cases "clean b")
  case True
  then show ?thesis using assms
    by (auto simp: stuff_def astep_def apush_def clean_def Let_def split: prod.splits)
next
  case False
  then have "b - 1 \<noteq> 0xFF" "b - 1 \<noteq> 0xFD" "b - 1 + 1 = b"
    by (auto simp: clean_def)
  then show ?thesis using assms False
    by (auto simp: stuff_def astep_def apush_def Let_def split: prod.splits)
qed

lemma feed_stuffed_body:
  assumes "ys \<noteq> []" "length (xs @ ys) = unat ((xs @ ys) ! 2) + 4" "length (xs @ ys) \<le> 128"
  shows "feed astep (Some xs, False) (concat (map stuff ys)) =
    ((None, False), [\<lparr>pkt_cmd = (xs @ ys) ! 1,
      pkt_payload = take (unat ((xs @ ys) ! 2)) (drop 3 (xs @ ys))\<rparr>])"
  using assms
proof (induction ys arbitrary: xs)
  case Nil
  then show ?case by simp
next
  case (Cons y ys)
  show ?case
  proof (cases "ys = []")
    case True
    with Cons.prems show ?thesis using feed_stuff [of xs y "[]"] by (simp add: Let_def)
  next
    case False
    let ?xs = "xs @ [y]"
    obtain z zs where ys: "ys = z # zs" using False by (cases ys) auto
    have "length ?xs < 4 \<or> ?xs ! 2 = (xs @ y # ys) ! 2"
      by (auto simp: nth_append)
    then have "length ?xs < 4 \<or> length ?xs < unat (?xs ! 2) + 4"
      using Cons.prems by (auto simp: ys)
    then have "feed astep (Some xs, False) (concat (map stuff (y # ys))) =
        feed astep (Some ?xs, False) (concat (map stuff ys))"
      using Cons.prems by (simp add: feed_stuff Let_def)
    with Cons.IH [of ?xs] False Cons.prems show ?thesis by simp
  qed
qed

lemma feed_stuffed_frame:
  assumes "length payload \<le> 124"
  shows "feed astep a (stuffed_frame cmd payload) =
    ((None, False), [\<lparr>pkt_cmd = cmd, pkt_payload = payload\<rparr>])"
proof -
  let ?body = "tl (slider_frame cmd payload)"
  have body: "?body = cmd # of_nat (length payload) # payload @ [neg_sum8 ([0xFF, cmd, of_nat (length payload)] @ payload)]"
    by (simp add: slider_frame_def Let_def)
  have n: "unat (of_nat (length payload) :: u8) = length payload"
    using assms by (simp add: unat_of_nat)
  have "feed astep (Some [0xFF], False) (concat (map stuff ?body)) =
    ((None, False), [\<lparr>pkt_cmd = cmd, pkt_payload = payload\<rparr>])"
    using feed_stuffed_body [of ?body "[0xFF]"] assms by (simp add: body n)
  then show ?thesis
    by (simp add: stuffed_frame_def astep_def apush_def)
qed

section \<open>The wire formats\<close>

definition slider_msg_ok :: "u8 \<times> u8 list \<Rightarrow> bool" where
  "slider_msg_ok m \<longleftrightarrow> length (snd m) \<le> 124"

definition slider_msg_view :: "u8 \<times> u8 list \<Rightarrow> slider_packet" where
  "slider_msg_view m = \<lparr>pkt_cmd = fst m, pkt_payload = snd m\<rparr>"

lemma feed_slider_stuffed:
  assumes "slider_wf p" "length payload \<le> 124"
  shows "\<exists>p'. feed slider_step p (stuffed_frame cmd payload) =
    (p', [\<lparr>pkt_cmd = cmd, pkt_payload = payload\<rparr>]) \<and> slider_wf p'"
  using slider_feed_refines [OF assms(1), of "stuffed_frame cmd payload"]
    feed_stuffed_frame [OF assms(2), of "slider_abs p" cmd]
  by (cases "feed slider_step p (stuffed_frame cmd payload)") auto

text \<open>Stuffed frames, and the code's own frames when no byte needs stuffing.\<close>

interpretation stuffed: wire_format "\<lambda>m. stuffed_frame (fst m) (snd m)" slider_step
  slider_msg_view slider_msg_ok slider_wf
  by unfold_locales (simp add: slider_msg_view_def slider_msg_ok_def feed_slider_stuffed)

lemma stuffed_frame_clean:
  "(\<And>b. b \<in> set (tl (slider_frame cmd payload)) \<Longrightarrow> clean b) \<Longrightarrow>
     stuffed_frame cmd payload = slider_frame cmd payload"
  using slider_frame_split [of cmd payload] by (simp add: stuffed_frame_def stuff_clean)

interpretation unstuffed: wire_format "\<lambda>m. slider_frame (fst m) (snd m)" slider_step
  slider_msg_view
  "\<lambda>m. slider_msg_ok m \<and> (\<forall>b \<in> set (tl (slider_frame (fst m) (snd m))). clean b)" slider_wf
  by unfold_locales (metis stuffed.decode_one stuffed_frame_clean)

section \<open>What the encoder's missing stuffing costs\<close>

text \<open>
  Bytes that need stuffing add nothing to what the parser has accumulated, so a packet is never
  longer than the bytes that did: the count behind the converse of the round trip.
\<close>

fun acc_len :: "slider_abs \<Rightarrow> nat" where
  "acc_len (None, e) = 1"
| "acc_len (Some xs, e) = length xs"

definition started :: "slider_abs \<Rightarrow> bool" where
  "started a \<longleftrightarrow> fst a \<noteq> Some []"

lemma astep_count:
  assumes "started a"
  shows "started (fst (astep a b)) \<and>
    acc_len (fst (astep a b)) \<le> acc_len a + (if clean b then 1 else 0) \<and>
    (\<forall>m \<in> set (snd (astep a b)).
       length (pkt_payload m) + 4 \<le> acc_len a + (if clean b then 1 else 0))"
proof -
  obtain o1 e where a: "a = (o1, e)" by (cases a)
  show ?thesis
  proof (cases o1)
    case None
    then show ?thesis by (auto simp: a astep_def apush_def started_def)
  next
    case (Some xs)
    then have "xs \<noteq> []" using assms by (auto simp: a started_def)
    then have "1 \<le> length xs" by (cases xs) auto
    then show ?thesis
      by (auto simp: Some a astep_def apush_def started_def clean_def Let_def)
  qed
qed

lemma feed_count:
  "started a \<Longrightarrow> m \<in> set (snd (feed astep a bs)) \<Longrightarrow>
     length (pkt_payload m) + 4 \<le> acc_len a + length (filter clean bs)"
proof (induction bs arbitrary: a)
  case Nil
  then show ?case by simp
next
  case (Cons b bs)
  let ?a = "fst (astep a b)"
  have step: "started ?a" "acc_len ?a \<le> acc_len a + (if clean b then 1 else 0)"
    "\<forall>m \<in> set (snd (astep a b)). length (pkt_payload m) + 4 \<le> acc_len a + (if clean b then 1 else 0)"
    using astep_count [OF Cons.prems(1), of b] by auto
  from Cons.prems(2) consider "m \<in> set (snd (astep a b))" | "m \<in> set (snd (feed astep ?a bs))"
    by (auto simp: split_beta Let_def)
  then show ?case
  proof cases
    case 1
    with step(3) show ?thesis by fastforce
  next
    case 2
    from Cons.IH [OF step(1) 2] step(2) show ?thesis by (cases "clean b") auto
  qed
qed

lemma feed_unclean_frame:
  assumes "m \<in> set (snd (feed astep a (slider_frame cmd payload)))"
    and "pkt_payload m = payload"
  shows "\<forall>b \<in> set (tl (slider_frame cmd payload)). clean b"
proof -
  let ?body = "tl (slider_frame cmd payload)"
  have "m \<in> set (snd (feed astep (Some [0xFF], False) ?body))"
    using assms(1) by (subst (asm) slider_frame_split) (simp add: astep_def apush_def split_beta Let_def)
  then have "length payload + 4 \<le> 1 + length (filter clean ?body)"
    using feed_count [of "(Some [0xFF], False)" m ?body] assms(2) by (simp add: started_def)
  moreover have "length ?body = length payload + 3"
    by (simp add: length_slider_frame)
  ultimately have "length ?body \<le> length (filter clean ?body)" by simp
  then have "length (filter clean ?body) = length ?body"
    using length_filter_le [of clean ?body] by simp
  then show ?thesis
    by (metis length_filter_less less_irrefl)
qed

section \<open>Properties\<close>

text \<open>
  C6. The parser never panics and never leaves its 128-byte buffer, whatever bytes arrive: run
  from the initial state it gives, byte for byte, the packets of the abstract parser that keeps
  an unbounded list of the bytes since the last sync byte.
\<close>

theorem slider_parser_refines_abstract:
  "\<exists>p. slider_run slider_parser_default bs = Some (p, snd (feed astep (None, False) bs)) \<and>
     slider_wf p \<and> slider_abs p = fst (feed astep (None, False) bs)"
proof -
  let ?r = "feed slider_step slider_parser_default bs"
  have "slider_abs slider_parser_default = (None, False)"
    by (simp add: slider_abs_def slider_parser_default_def)
  then have "slider_wf (fst ?r)" "feed astep (None, False) bs = (slider_abs (fst ?r), snd ?r)"
    using slider_feed_refines [OF slider_wf_default, of bs] by auto
  moreover have "slider_run slider_parser_default bs = Some ?r"
    by (rule slider_run_total) (rule wf_intros)
  ultimately show ?thesis by (cases ?r) auto
qed

text \<open>
  Round trip and resynchronisation: from any state a parser can be in, mid-frame included, a
  stream of byte-stuffed frames with payloads of at most 124 bytes, cut into reads anywhere,
  is decoded to exactly the packets that were encoded, in order.
\<close>

theorem slider_stuffed_roundtrip:
  assumes "slider_wf p" and "\<forall>m \<in> set ms. length (snd m) \<le> 124"
    and "concat chunks = concat (map (\<lambda>m. stuffed_frame (fst m) (snd m)) ms)"
  shows "\<exists>p'. slider_run p (concat chunks) =
    Some (p', map (\<lambda>m. \<lparr>pkt_cmd = fst m, pkt_payload = snd m\<rparr>) ms)"
  using stuffed.decode_chunked [of ms p chunks] assms slider_run_total [OF assms(1), of "concat chunks"]
  by (auto simp: slider_msg_ok_def slider_msg_view_def [abs_def])

theorem slider_stuffed_roundtrip_witness:
  "\<exists>p'. slider_run slider_parser_default (concat [[0xFF, 1, 2, 0xFD], [0xFE, 9, 0xF6]]) =
     Some (p', [\<lparr>pkt_cmd = 1, pkt_payload = [0xFF, 9]\<rparr>])"
  using slider_stuffed_roundtrip [of slider_parser_default "[(1, [0xFF, 9])]"
      "[[0xFF, 1, 2, 0xFD], [0xFE, 9, 0xF6]]"] slider_wf_default
  by (simp add: stuffed_frame_def slider_frame_def stuff_def clean_def neg_sum8_def Let_def)

text \<open>
  C33. \<open>send_slider_frame\<close> does not stuff: from any parser state, its output for a payload of at most 124
  bytes, which is what the parser's buffer holds, decodes to the packet that was sent if and only if
  no byte after the sync byte is \<open>0xFF\<close> or \<open>0xFD\<close>.
\<close>

theorem slider_frame_decodes_iff_clean:
  assumes "slider_wf p" and "length payload \<le> 124"
  shows "(\<exists>p' ms. slider_run p (slider_frame cmd payload) = Some (p', ms) \<and>
            \<lparr>pkt_cmd = cmd, pkt_payload = payload\<rparr> \<in> set ms) \<longleftrightarrow>
         (\<forall>b \<in> set (tl (slider_frame cmd payload)). b \<noteq> 0xFF \<and> b \<noteq> 0xFD)"
proof -
  let ?f = "slider_frame cmd payload" and ?m = "\<lparr>pkt_cmd = cmd, pkt_payload = payload\<rparr>"
  have run: "slider_run p ?f = Some (feed slider_step p ?f)"
    and out: "snd (feed slider_step p ?f) = snd (feed astep (slider_abs p) ?f)"
    using slider_run_total [OF assms(1)] slider_feed_refines [OF assms(1), of ?f] by auto
  have "?m \<in> set (snd (feed slider_step p ?f)) \<longleftrightarrow> (\<forall>b \<in> set (tl ?f). clean b)"
  proof
    assume "?m \<in> set (snd (feed slider_step p ?f))"
    then show "\<forall>b \<in> set (tl ?f). clean b"
      using feed_unclean_frame [of ?m "slider_abs p" cmd payload] by (simp add: out)
  next
    assume "\<forall>b \<in> set (tl ?f). clean b"
    then show "?m \<in> set (snd (feed slider_step p ?f))"
      using unstuffed.decode_one [of "(cmd, payload)" p] assms
      by (auto simp: slider_msg_ok_def slider_msg_view_def)
  qed
  then show ?thesis
    by (cases "feed slider_step p ?f") (simp add: run clean_def)
qed

theorem slider_frame_decodes_iff_clean_witness:
  "\<not> (\<exists>p' ms. slider_run slider_parser_default (slider_frame 2 [0xFF]) = Some (p', ms) \<and>
          \<lparr>pkt_cmd = 2, pkt_payload = [0xFF]\<rparr> \<in> set ms)"
  using slider_frame_decodes_iff_clean [OF slider_wf_default, of "[0xFF]" 2]
  by (simp add: slider_frame_def Let_def)

end
