(* ===== verification/Slider_Runtime.thy ===== *)
theory Slider_Runtime
  imports Types Shared_Memory Slider Port_Use
begin

text \<open>
  What the Chunithm and Mercury runtimes have in common (\<open>crates/affine-chuni/src/lib.rs\<close>,
  \<open>crates/affine-mercury/src/lib.rs\<close>): the runtime object with its callback, its two shared pages and
  its \<open>started\<close> flag, the connection phase of the device thread, and the thread's control points.

  The two device threads and the game's calls share the pages and the callback only.  A thread is a
  machine with the control points of \<open>thread_pc\<close>; between two of them the game may call in.
\<close>

section \<open>The runtime object\<close>

record ('s, 'c) world =
  w_callback :: "nat option"
  w_started :: bool
  w_state_page :: shared_page
  w_control_page :: shared_page
  w_state_mem :: "'s memory"
  w_control_mem :: "'c memory"
  w_hist :: history

definition state_of :: "('s, 'c) world \<Rightarrow> 's" where
  "state_of w = w_state_mem w (pg_view (w_state_page w))"

definition control_of :: "('s, 'c) world \<Rightarrow> 'c" where
  "control_of w = w_control_mem w (pg_view (w_control_page w))"

definition state_read :: "os \<Rightarrow> ('s, 'c) world \<Rightarrow> 's \<times> ('s, 'c) world" where
  "state_read os w =
     (let (v, m, h) = page_read os (w_state_page w) (w_state_mem w, w_hist w)
      in (v, w\<lparr>w_state_mem := m, w_hist := h\<rparr>))"

definition state_write :: "os \<Rightarrow> 's \<Rightarrow> ('s, 'c) world \<Rightarrow> ('s, 'c) world" where
  "state_write os v w =
     (let (m, h) = page_write os (w_state_page w) v (w_state_mem w, w_hist w)
      in w\<lparr>w_state_mem := m, w_hist := h\<rparr>)"

definition state_update :: "os \<Rightarrow> ('s \<Rightarrow> 's \<times> 'r) \<Rightarrow> ('s, 'c) world \<Rightarrow> 'r \<times> ('s, 'c) world" where
  "state_update os f w =
     (let (r, m, h) = page_update os (w_state_page w) f (w_state_mem w, w_hist w)
      in (r, w\<lparr>w_state_mem := m, w_hist := h\<rparr>))"

definition control_read :: "os \<Rightarrow> ('s, 'c) world \<Rightarrow> 'c \<times> ('s, 'c) world" where
  "control_read os w =
     (let (v, m, h) = page_read os (w_control_page w) (w_control_mem w, w_hist w)
      in (v, w\<lparr>w_control_mem := m, w_hist := h\<rparr>))"

definition control_update :: "os \<Rightarrow> ('c \<Rightarrow> 'c) \<Rightarrow> ('s, 'c) world \<Rightarrow> ('s, 'c) world" where
  "control_update os f w =
     (let (r, m, h) = page_update os (w_control_page w) (\<lambda>page. (f page, ())) (w_control_mem w, w_hist w)
      in w\<lparr>w_control_mem := m, w_hist := h\<rparr>)"

text \<open>\<open>runtime()\<close>: both pages are created, the state page first; a failure panics (\<open>None\<close>).\<close>

definition runtime_create ::
  "os \<Rightarrow> rstr \<Rightarrow> rstr \<Rightarrow> 's \<Rightarrow> rstr \<Rightarrow> rstr \<Rightarrow> 'c \<Rightarrow> 's memory \<Rightarrow> 'c memory \<Rightarrow> history \<Rightarrow>
     ('s, 'c) world option" where
  "runtime_create os sname smutex sinit cname cmutex cinit sm cm h =
     (case page_create os sname smutex sinit (sm, h) of
        (None, sm, h) \<Rightarrow> None
      | (Some spage, sm, h) \<Rightarrow>
          (case page_create os cname cmutex cinit (cm, h) of
             (None, cm, h) \<Rightarrow> None
           | (Some cpage, cm, h) \<Rightarrow>
               Some \<lparr>w_callback = None, w_started = False, w_state_page = spage,
                 w_control_page = cpage, w_state_mem = sm, w_control_mem = cm, w_hist = h\<rparr>))"

text \<open>\<open>init\<close>: the atomic swap of \<open>started\<close> spawns the device thread once.\<close>

definition runtime_init :: "rstr \<Rightarrow> ('s, 'c) world \<Rightarrow> hresult \<times> ('s, 'c) world" where
  "runtime_init thread_name w =
     (S_OK, if w_started w then w
            else w\<lparr>w_started := True, w_hist := w_hist w @ [EvSpawn thread_name]\<rparr>)"

definition store_callback :: "nat option \<Rightarrow> ('s, 'c) world \<Rightarrow> ('s, 'c) world" where
  "store_callback cb w =
     w\<lparr>w_callback := cb, w_hist := w_hist w @ [EvCallbackLock, EvCallbackUnlock]\<rparr>"

text \<open>
  \<open>invoke_callback\<close>: the guard of the \<open>if let\<close> lives through its body, so the game's function runs
  with the callback mutex held.
\<close>

definition invoke_with :: "(nat \<Rightarrow> event) \<Rightarrow> ('s, 'c) world \<Rightarrow> ('s, 'c) world" where
  "invoke_with call w =
     w\<lparr>w_hist := w_hist w @ [EvCallbackLock] @ map call (opt_list (w_callback w)) @ [EvCallbackUnlock]\<rparr>"

lemmas world_defs = state_read_def state_write_def state_update_def control_read_def
  control_update_def state_of_def control_of_def page_defs

named_theorems world_simps \<open>what the runtime's operations do to the pages and the callback\<close>

lemma state_update_pages [world_simps]:
  "state_of (snd (state_update os f w)) = fst (f (state_of w))"
  "fst (state_update os f w) = snd (f (state_of w))"
  "control_of (snd (state_update os f w)) = control_of w"
  "w_callback (snd (state_update os f w)) = w_callback w"
  by (auto simp: world_defs split: prod.splits)

lemma state_write_pages [world_simps]:
  "state_of (state_write os v w) = v"
  "control_of (state_write os v w) = control_of w"
  "w_callback (state_write os v w) = w_callback w"
  by (auto simp: world_defs)

lemma control_update_pages [world_simps]:
  "control_of (control_update os f w) = f (control_of w)"
  "state_of (control_update os f w) = state_of w"
  "w_callback (control_update os f w) = w_callback w"
  by (auto simp: world_defs)

lemma reads_pages [world_simps]:
  "fst (state_read os w) = state_of w" "state_of (snd (state_read os w)) = state_of w"
  "control_of (snd (state_read os w)) = control_of w"
  "w_callback (snd (state_read os w)) = w_callback w"
  "fst (control_read os w) = control_of w" "control_of (snd (control_read os w)) = control_of w"
  "state_of (snd (control_read os w)) = state_of w"
  "w_callback (snd (control_read os w)) = w_callback w"
  by (auto simp: world_defs)

lemma hist_only_pages [world_simps]:
  "state_of (w\<lparr>w_hist := h\<rparr>) = state_of w" "control_of (w\<lparr>w_hist := h\<rparr>) = control_of w"
  by (auto simp: state_of_def control_of_def)

lemma callback_pages [world_simps]:
  "state_of (invoke_with call w) = state_of w" "control_of (invoke_with call w) = control_of w"
  "w_callback (invoke_with call w) = w_callback w"
  "state_of (store_callback cb w) = state_of w" "control_of (store_callback cb w) = control_of w"
  "w_callback (store_callback cb w) = cb"
  by (auto simp: invoke_with_def store_callback_def state_of_def control_of_def)

lemma init_pages [world_simps]:
  "state_of (snd (runtime_init nm w)) = state_of w" "control_of (snd (runtime_init nm w)) = control_of w"
  "w_callback (snd (runtime_init nm w)) = w_callback w"
  by (auto simp: runtime_init_def state_of_def control_of_def)

lemma pages_called [world_simps]:
  "called (w_hist (snd (state_update os f w))) = called (w_hist w)"
  "called (w_hist (state_write os v w)) = called (w_hist w)"
  "called (w_hist (snd (control_read os w))) = called (w_hist w)"
  "called (w_hist (control_update os g w)) = called (w_hist w)"
  by (auto simp: world_defs split: prod.splits)

lemma pages_sent [world_simps]:
  "sent (w_hist (snd (state_update os f w))) = sent (w_hist w)"
  "sent (w_hist (state_write os v w)) = sent (w_hist w)"
  "sent (w_hist (snd (control_read os w))) = sent (w_hist w)"
  "sent (w_hist (control_update os g w)) = sent (w_hist w)"
  by (auto simp: world_defs split: prod.splits)

section \<open>Sending frames\<close>

text \<open>\<open>let _ = send_slider_frame(&mut |frame| port.write(frame), ...)\<close>: the result is dropped.\<close>

definition port_send ::
  "os \<Rightarrow> u8 \<Rightarrow> u8 list \<Rightarrow> serial_port \<times> history \<Rightarrow> serial_port \<times> history" where
  "port_send os cmd payload s =
     snd (send_slider_frame (\<lambda>frame (p, h). sp_write os frame p h) cmd payload s)"

definition ready :: "serial_port \<times> history \<Rightarrow> bool" where
  "ready s \<longleftrightarrow> port_wf (fst s) \<and> is_open (fst s)"

lemma port_send_ready:
  assumes "ready s"
  shows "ready (port_send os cmd payload s) \<and>
    sent (snd (port_send os cmd payload s)) = sent (snd s) @ [slider_frame cmd payload] \<and>
    called (snd (port_send os cmd payload s)) = called (snd s)"
  using sp_write_ready [of "fst s" os "slider_frame cmd payload" "snd s"] assms
  by (auto simp: ready_def port_send_def send_slider_frame_def split_beta)

text \<open>A port that is not open sends nothing at all.\<close>

lemma port_send_wf: "port_wf (fst s) \<Longrightarrow> port_wf (fst (port_send os cmd payload s))"
proof (cases "is_open (fst s)")
  case True
  then show "port_wf (fst s) \<Longrightarrow> ?thesis" using port_send_ready [of s os cmd payload] by (simp add: ready_def)
next
  case False
  then show "port_wf (fst s) \<Longrightarrow> ?thesis"
    by (simp add: port_send_def send_slider_frame_def split_beta link.wr_closed)
qed

lemma port_send_sent:
  assumes "port_wf (fst s)"
  shows "set (sent (snd (port_send os cmd payload s))) \<subseteq> set (sent (snd s)) \<union> {slider_frame cmd payload}"
proof (cases "is_open (fst s)")
  case True
  then show ?thesis using port_send_ready [of s os cmd payload] assms by (simp add: ready_def)
next
  case False
  then show ?thesis
    by (auto simp: port_send_def send_slider_frame_def split_beta link.wr_closed)
qed

lemma invoke_sent: "sent (w_hist (invoke_with call w)) = sent (w_hist w) @ sent (map call (opt_list (w_callback w)))"
  by (simp add: invoke_with_def)

lemma ready_if: "ready s \<Longrightarrow> (\<And>s. ready s \<Longrightarrow> ready (f s)) \<Longrightarrow> ready (if b then f s else s)"
  by simp

section \<open>The connection phase\<close>

datatype thread_pc = AtConnect | AtControl | AtRead | AtBytes "u8 list"

text \<open>\<open>should_log_scan\<close>, and the rate-limited warning of the scan.\<close>

definition should_log_scan :: "os \<Rightarrow> u64 \<Rightarrow> history \<Rightarrow> bool \<times> u64 \<times> history" where
  "should_log_scan os last_scan_log h =
     (let (now, h) = tick_ms os h; (yes, last_scan_log) = should_log now last_scan_log
      in (yes, last_scan_log, h))"

definition scan_warn :: "os \<Rightarrow> rstr \<Rightarrow> u64 \<Rightarrow> history \<Rightarrow> u64 \<times> history" where
  "scan_warn os msg last_scan_log h =
     (let (yes, last_scan_log, h) = should_log_scan os last_scan_log h
      in (last_scan_log, if yes then log_event LogWarn msg h else h))"

text \<open>
  The \<open>if !port.is_open()\<close> block at the head of both device threads: \<open>label\<close> and \<open>pids\<close> are the
  thread's, \<open>mark\<close> its state update on success.  The first component of the result says whether
  the iteration goes on (no \<open>continue\<close>), the second whether the port was opened just now; \<open>None\<close> is
  a device enumeration that does not end.
\<close>

definition slider_connect ::
  "os \<Rightarrow> string \<Rightarrow> u16 list \<Rightarrow> ('s \<Rightarrow> 's) \<Rightarrow> serial_port \<Rightarrow> u64 \<Rightarrow> ('s, 'c) world \<Rightarrow>
     (bool \<times> bool \<times> serial_port \<times> u64 \<times> ('s, 'c) world) option" where
  "slider_connect os label pids mark port last_scan_log w =
     (if is_open port then Some (True, False, port, last_scan_log, w)
      else do {
        (found, h) \<leftarrow> find_any os AFFINE_VID pids (w_hist w);
        (case found of
           None \<Rightarrow>
             (let (log, h) = scan_warn os (lit (label @ '': device not found'')) last_scan_log h
              in Some (False, False, port, log, w\<lparr>w_hist := sleep_ms 500 h\<rparr>))
         | Some (pid, path) \<Rightarrow>
             (let (ok, port, h) = sp_open os path 115200 port h
              in if \<not> ok then
                   let (log, h) = scan_warn os (lit (label @ '': failed to open '') @ path) last_scan_log h
                   in Some (False, False, port, log, w\<lparr>w_hist := sleep_ms 500 h\<rparr>)
                 else
                   let h = log_event LogOk
                         (lit (label @ '' connected: '') @ trim_start_matches device_prefix path) h;
                       w = snd (state_update os (\<lambda>page. (mark page, ())) (w\<lparr>w_hist := h\<rparr>))
                   in Some (True, True, port, last_scan_log, w)))
      })"

text \<open>The search and the log change neither what was sent nor what was called.\<close>

lemma search_event_quiet: "list_all is_search_event es \<Longrightarrow> sent es = [] \<and> called es = []"
proof (induction es)
  case (Cons e es)
  then show ?case by (cases e) auto
qed simp

lemma search_more_quiet: "search_more h h' \<Longrightarrow> sent h' = sent h \<and> called h' = called h"
  by (auto simp: search_more_def dest: search_event_quiet)

lemma scan_warn_quiet:
  "scan_warn os msg log h = (log', h') \<Longrightarrow> sent h' = sent h \<and> called h' = called h"
  by (auto simp: scan_warn_def should_log_scan_def tick_ms_def log_event_def Let_def split: prod.splits)

lemma sp_open_quiet:
  assumes "sp_open os path baud p h = (ok, p', h')"
  shows "sent h' = sent h \<and> called h' = called h"
proof -
  obtain p1 h1 where close: "sp_close p h = (p1, h1)" by (cases "sp_close p h")
  then have "sent h1 = sent h" "called h1 = called h" by (auto simp: sp_close_def Let_def split: if_splits)
  with close assms show ?thesis
    by (auto simp: sp_open_def ensure_events_def ensure_event_def apply_timeouts_def Let_def
        split: if_splits option.splits)
qed

text \<open>
  What the phase guarantees: the state page is marked exactly when the port was opened just now, an
  iteration that does not go on leaves the port closed, and nothing is sent and no callback called.
\<close>

lemma slider_connect_result:
  assumes c: "slider_connect os label pids mark port log w = Some (go, fresh, port', log', w')"
  shows "state_of w' = (if fresh then mark (state_of w) else state_of w) \<and>
    control_of w' = control_of w \<and> w_callback w' = w_callback w \<and>
    sent (w_hist w') = sent (w_hist w) \<and> called (w_hist w') = called (w_hist w) \<and>
    go = (fresh \<or> is_open port) \<and> (fresh \<longrightarrow> \<not> is_open port) \<and>
    (if is_open port then port' = port else fresh \<or> \<not> is_open port') \<and>
    (port_wf port \<longrightarrow> port_wf port')"
proof (cases "is_open port")
  case True
  then show ?thesis using c by (auto simp: slider_connect_def)
next
  case False
  then obtain found h1 where f: "find_any os AFFINE_VID pids (w_hist w) = Some (found, h1)"
    using c by (auto simp: slider_connect_def split: bind_splits)
  have q: "sent h1 = sent (w_hist w)" "called h1 = called (w_hist w)"
    using search_more_quiet [OF find_any_history [OF f]] by auto
  show ?thesis
  proof (cases found)
    case None
    then show ?thesis
      using c False f q
      by (auto simp: slider_connect_def sleep_ms_def world_simps split: prod.splits dest!: scan_warn_quiet)
  next
    case (Some pp)
    obtain pid path where pp: "pp = (pid, path)" by (cases pp)
    obtain ok p h2 where o1: "sp_open os path 115200 port h1 = (ok, p, h2)"
      by (cases "sp_open os path 115200 port h1")
    have wf: "port_wf p" using port_wf_open [of os path 115200 port h1] o1 by simp
    have q2: "sent h2 = sent h1" "called h2 = called h1" using sp_open_quiet [OF o1] by auto
    show ?thesis
    proof (cases ok)
      case True
      then show ?thesis
        using c False f Some pp o1 wf q q2
        by (auto simp: slider_connect_def log_event_def Let_def world_simps)
    next
      case failed: False
      then have "\<not> is_open p" using sp_open_balance [OF o1] by blast
      then show ?thesis
        using c False f Some pp o1 wf q q2 failed
        by (auto simp: slider_connect_def sleep_ms_def world_simps split: prod.splits dest!: scan_warn_quiet)
    qed
  qed
qed

lemma slider_connect_None:
  "slider_connect os label pids mark port log w = None \<longleftrightarrow>
     \<not> is_open port \<and> find_any os AFFINE_VID pids (w_hist w) = None"
proof (cases "find_any os AFFINE_VID pids (w_hist w)")
  case None
  then show ?thesis by (simp add: slider_connect_def)
next
  case (Some r)
  then show ?thesis
    by (cases r; cases "fst r") (auto simp: slider_connect_def Let_def split_beta)
qed

end
