(* ===== verification/Chuni.thy ===== *)
theory Chuni
  imports Slider_Runtime
begin

text \<open>
  \<open>crates/affine-chuni/src/lib.rs\<close>: the Chunithm slider runtime.  The state page carries the slider
  pressure and the air beams from the device thread to the game, the control page the activation
  and the LEDs from the game to the thread.  The reserved padding of the pages is not modelled.
\<close>

section \<open>Pages and the game's calls\<close>

definition CHUNI_PIDS :: "u16 list" where "CHUNI_PIDS = [0x52A4, 0x52A7]"

record chuni_state_page =
  cs_opbtn :: u8
  cs_beams :: u8
  cs_connected :: u8
  cs_coin_counter :: u16
  cs_pressure :: "u8 list"
  cs_sequence :: u64

record chuni_control_page =
  cc_active :: u8
  cc_slider_leds_sequence :: u64
  cc_slider_leds :: "u8 list"
  cc_air_leds_sequence :: u64
  cc_air_leds :: "u8 list"

definition chuni_state_default :: chuni_state_page where
  "chuni_state_default = \<lparr>cs_opbtn = 0, cs_beams = 0, cs_connected = 0, cs_coin_counter = 0,
     cs_pressure = replicate 32 0, cs_sequence = 0\<rparr>"

definition chuni_control_default :: chuni_control_page where
  "chuni_control_default = \<lparr>cc_active = 0, cc_slider_leds_sequence = 0,
     cc_slider_leds = replicate 96 0, cc_air_leds_sequence = 0, cc_air_leds = replicate 3 0\<rparr>"

type_synonym chuni_world = "(chuni_state_page, chuni_control_page) world"

definition chuni_runtime ::
  "os \<Rightarrow> chuni_state_page memory \<Rightarrow> chuni_control_page memory \<Rightarrow> history \<Rightarrow> chuni_world option" where
  "chuni_runtime os sm cm h =
     runtime_create os (lit ''chuni_io_shm'') (lit ''chuni_io_shm_mutex'') chuni_state_default
       (lit ''chuni_io_ctrl'') (lit ''chuni_io_ctrl_mutex'') chuni_control_default sm cm h"

definition chuni_init :: "chuni_world \<Rightarrow> int \<times> chuni_world" where
  "chuni_init w = runtime_init (lit ''chuni_thread'') w"

definition activate :: "chuni_control_page \<Rightarrow> chuni_control_page" where
  "activate page = page\<lparr>cc_active := 1\<rparr>"

definition deactivate :: "chuni_control_page \<Rightarrow> chuni_control_page" where
  "deactivate page = page\<lparr>cc_active := 0\<rparr>"

definition chuni_start :: "os \<Rightarrow> nat option \<Rightarrow> chuni_world \<Rightarrow> chuni_world" where
  "chuni_start os callback w = control_update os activate (store_callback callback w)"

definition chuni_stop :: "os \<Rightarrow> chuni_world \<Rightarrow> chuni_world" where
  "chuni_stop os w = control_update os deactivate w"

text \<open>The two LED updates of the control page, each with its guard.\<close>

definition publish_leds :: "u8 list \<Rightarrow> chuni_control_page \<Rightarrow> chuni_control_page" where
  "publish_leds leds page = page\<lparr>cc_slider_leds := leds,
     cc_slider_leds_sequence := cc_slider_leds_sequence page + 1\<rparr>"

definition chuni_set_leds :: "os \<Rightarrow> u8 list \<Rightarrow> chuni_world \<Rightarrow> chuni_world" where
  "chuni_set_leds os rgb w =
     (if length rgb < 96 then w else control_update os (publish_leds (take 96 rgb)) w)"

definition publish_air_leds :: "u8 list \<Rightarrow> chuni_control_page \<Rightarrow> chuni_control_page" where
  "publish_air_leds leds page = page\<lparr>cc_air_leds := leds,
     cc_air_leds_sequence := cc_air_leds_sequence page + 1\<rparr>"

definition chuni_set_air_leds_from_colors :: "os \<Rightarrow> u8 \<Rightarrow> u8 list \<Rightarrow> chuni_world \<Rightarrow> chuni_world" where
  "chuni_set_air_leds_from_colors os board rgb w =
     (if board \<noteq> 0 \<or> length rgb < 153 then w else control_update os (publish_air_leds [rgb ! 152, rgb ! 150, rgb ! 151]) w)"

definition chuni_jvs_poll :: "os \<Rightarrow> chuni_world \<Rightarrow> (u8 \<times> u8) \<times> chuni_world" where
  "chuni_jvs_poll os w = (let (page, w) = state_read os w in ((cs_opbtn page, cs_beams page), w))"

definition chuni_coin_counter :: "os \<Rightarrow> chuni_world \<Rightarrow> u16 \<times> chuni_world" where
  "chuni_coin_counter os w = (let (page, w) = state_read os w in (cs_coin_counter page, w))"

section \<open>Packets\<close>

definition chuni_invoke_callback :: "u8 list \<Rightarrow> chuni_world \<Rightarrow> chuni_world" where
  "chuni_invoke_callback pressure w = invoke_with (\<lambda>f. EvSliderCallback f pressure) w"

definition mark_connected :: "chuni_state_page \<Rightarrow> chuni_state_page" where
  "mark_connected page = page\<lparr>cs_connected := 1, cs_sequence := cs_sequence page + 1\<rparr>"

definition scan_update :: "u8 list \<Rightarrow> u8 option \<Rightarrow> chuni_state_page \<Rightarrow> chuni_state_page \<times> u8 list" where
  "scan_update pressure beams page =
     (let page = page\<lparr>cs_connected := 1, cs_pressure := pressure\<rparr>;
          page = (case beams of Some b \<Rightarrow> page\<lparr>cs_beams := b\<rparr> | None \<Rightarrow> page);
          page = page\<lparr>cs_sequence := cs_sequence page + 1\<rparr>
      in (page, cs_pressure page))"

definition apply_scan_frame :: "os \<Rightarrow> u8 list \<Rightarrow> u8 option \<Rightarrow> chuni_world \<Rightarrow> chuni_world" where
  "apply_scan_frame os pressure beams w =
     (let (pressure, w) = state_update os (scan_update pressure beams) w
      in chuni_invoke_callback pressure w)"

definition air_update :: "u8 \<Rightarrow> chuni_state_page \<Rightarrow> chuni_state_page" where
  "air_update beams page =
     page\<lparr>cs_beams := beams, cs_connected := 1, cs_sequence := cs_sequence page + 1\<rparr>"

definition chuni_packet :: "os \<Rightarrow> slider_packet \<Rightarrow> chuni_world \<Rightarrow> chuni_world" where
  "chuni_packet os packet w =
     (if pkt_cmd packet = SLIDER_CMD_AUTO_SCAN \<and> 32 \<le> length (pkt_payload packet)
      then apply_scan_frame os (take 32 (pkt_payload packet)) (get_at (pkt_payload packet) 32) w
      else if pkt_cmd packet = SLIDER_CMD_AUTO_AIR
      then (case pkt_payload packet of
              [] \<Rightarrow> w
            | beams # _ \<Rightarrow> snd (state_update os (\<lambda>page. (air_update beams page, ())) w))
      else w)"

section \<open>The device thread\<close>

record chuni_locals =
  cl_port :: serial_port
  cl_parser :: slider_parser
  cl_last_scan_log :: u64
  cl_last_active :: bool
  cl_last_slider_leds_sequence :: u64
  cl_last_air_leds_sequence :: u64

definition chuni_locals_init :: chuni_locals where
  "chuni_locals_init = \<lparr>cl_port = serial_port_default, cl_parser = slider_parser_default,
     cl_last_scan_log = 0, cl_last_active = False, cl_last_slider_leds_sequence = 0,
     cl_last_air_leds_sequence = 0\<rparr>"

definition chuni_connect ::
  "os \<Rightarrow> chuni_locals \<Rightarrow> chuni_world \<Rightarrow> (bool \<times> chuni_locals \<times> chuni_world) option" where
  "chuni_connect os l w = do {
     (go, fresh, port, log, w) \<leftarrow>
       slider_connect os ''Chunithm slider'' CHUNI_PIDS mark_connected (cl_port l) (cl_last_scan_log l) w;
     Some (go, l\<lparr>cl_port := port, cl_last_scan_log := log,
                 cl_last_active := (if fresh then False else cl_last_active l)\<rparr>, w)
   }"

text \<open>The frames of one iteration for the control page that was read.\<close>

definition chuni_frames ::
  "os \<Rightarrow> chuni_control_page \<Rightarrow> chuni_locals \<Rightarrow> serial_port \<times> history \<Rightarrow> serial_port \<times> history" where
  "chuni_frames os control l s =
     (let active = (cc_active control \<noteq> 0);
          s = (if active \<noteq> cl_last_active l
               then (if active
                     then port_send os SLIDER_CMD_AUTO_SCAN_START [] (port_send os SLIDER_CMD_AUTO_AIR_START [] s)
                     else port_send os SLIDER_CMD_AUTO_SCAN_STOP [] s)
               else s);
          s = (if cc_slider_leds_sequence control \<noteq> cl_last_slider_leds_sequence l
               then port_send os SLIDER_CMD_SET_LED (cc_slider_leds control) s else s)
      in if cc_air_leds_sequence control \<noteq> cl_last_air_leds_sequence l
         then port_send os SLIDER_CMD_SET_AIR_LED (cc_air_leds control) s else s)"

definition chuni_control :: "os \<Rightarrow> chuni_locals \<Rightarrow> chuni_world \<Rightarrow> chuni_locals \<times> chuni_world" where
  "chuni_control os l w =
     (let (control, w) = control_read os w;
          (port, h) = chuni_frames os control l (cl_port l, w_hist w)
      in (l\<lparr>cl_port := port, cl_last_active := (cc_active control \<noteq> 0),
            cl_last_slider_leds_sequence := cc_slider_leds_sequence control,
            cl_last_air_leds_sequence := cc_air_leds_sequence control\<rparr>,
          w\<lparr>w_hist := h\<rparr>))"

text \<open>The read; \<open>None\<close> is the lost port, which ends the iteration.\<close>

definition chuni_read :: "os \<Rightarrow> chuni_locals \<Rightarrow> chuni_world \<Rightarrow> u8 list option \<times> chuni_locals \<times> chuni_world" where
  "chuni_read os l w =
     (let (r, port, h) = sp_read os 64 (cl_port l) (w_hist w)
      in case r of
           Some bytes \<Rightarrow> (Some bytes, l\<lparr>cl_port := port\<rparr>, w\<lparr>w_hist := h\<rparr>)
         | None \<Rightarrow>
             let (port, h) = sp_close port h;
                 w = state_write os chuni_state_default (w\<lparr>w_hist := h\<rparr>);
                 w = chuni_invoke_callback (replicate 32 0) w
             in (None, l\<lparr>cl_port := port\<rparr>, w\<lparr>w_hist := sleep_ms 500 (w_hist w)\<rparr>))"

definition chuni_byte ::
  "os \<Rightarrow> u8 \<Rightarrow> chuni_locals \<Rightarrow> chuni_world \<Rightarrow> (chuni_locals \<times> chuni_world) option" where
  "chuni_byte os byte l w = do {
     (parser, r) \<leftarrow> slider_push (cl_parser l) byte;
     Some (l\<lparr>cl_parser := parser\<rparr>, case r of Some packet \<Rightarrow> chuni_packet os packet w | None \<Rightarrow> w)
   }"

fun chuni_bytes ::
  "os \<Rightarrow> u8 list \<Rightarrow> chuni_locals \<Rightarrow> chuni_world \<Rightarrow> (chuni_locals \<times> chuni_world) option" where
  "chuni_bytes os [] l w = Some (l, w)"
| "chuni_bytes os (b # bs) l w = do { (l, w) \<leftarrow> chuni_byte os b l w; chuni_bytes os bs l w }"

text \<open>
  One step of the thread from a control point to the next.  \<open>None\<close> is a panic, or an enumeration
  that does not end.
\<close>

type_synonym chuni_conf = "thread_pc \<times> chuni_locals \<times> chuni_world"

fun chuni_thread_step :: "os \<Rightarrow> chuni_conf \<Rightarrow> chuni_conf option" where
  "chuni_thread_step os (AtConnect, l, w) = do {
     (go, l, w) \<leftarrow> chuni_connect os l w;
     Some (if go then AtControl else AtConnect, l, w)
   }"
| "chuni_thread_step os (AtControl, l, w) =
     (let (l, w) = chuni_control os l w in Some (AtRead, l, w))"
| "chuni_thread_step os (AtRead, l, w) =
     (let (r, l, w) = chuni_read os l w in
      Some (case r of None \<Rightarrow> AtConnect | Some bytes \<Rightarrow> if bytes = [] then AtConnect else AtBytes bytes, l, w))"
| "chuni_thread_step os (AtBytes [], l, w) = Some (AtConnect, l, w)"
| "chuni_thread_step os (AtBytes (b # bs), l, w) = do {
     (l, w) \<leftarrow> chuni_byte os b l w;
     Some (AtBytes bs, l, w)
   }"

text \<open>
  The game's calls; \<open>start\<close> is two atomic accesses, and a device thread may run between them.
\<close>

datatype chuni_request =
    ChuniInit
  | ChuniStoreCallback "nat option"
  | ChuniActivate
  | ChuniStop
  | ChuniSetLeds "u8 list"
  | ChuniSetAirLeds u8 "u8 list"
  | ChuniJvsPoll
  | ChuniCoinCounter

fun chuni_call :: "os \<Rightarrow> chuni_request \<Rightarrow> chuni_world \<Rightarrow> chuni_world" where
  "chuni_call os ChuniInit w = snd (chuni_init w)"
| "chuni_call os (ChuniStoreCallback cb) w = store_callback cb w"
| "chuni_call os ChuniActivate w = control_update os activate w"
| "chuni_call os ChuniStop w = chuni_stop os w"
| "chuni_call os (ChuniSetLeds rgb) w = chuni_set_leds os rgb w"
| "chuni_call os (ChuniSetAirLeds board rgb) w = chuni_set_air_leds_from_colors os board rgb w"
| "chuni_call os ChuniJvsPoll w = snd (chuni_jvs_poll os w)"
| "chuni_call os ChuniCoinCounter w = snd (chuni_coin_counter os w)"

inductive chuni_step :: "os \<Rightarrow> chuni_conf \<Rightarrow> chuni_conf \<Rightarrow> bool" for os where
  device: "chuni_thread_step os c = Some c' \<Longrightarrow> chuni_step os c c'"
| game: "chuni_step os (pc, l, w) (pc, l, chuni_call os call w)"

inductive_cases chuni_stepE [elim!]: "chuni_step os c c'"

section \<open>LED publications\<close>

interpretation slider_leds: counting_publisher cc_slider_leds_sequence cc_slider_leds publish_leds
  by unfold_locales (auto simp: publish_leds_def)

interpretation air_leds: counting_publisher cc_air_leds_sequence cc_air_leds publish_air_leds
  by unfold_locales (auto simp: publish_air_leds_def)

text \<open>What a list of calls does to the control page, and the LED values among them.\<close>

fun on_control :: "chuni_request \<Rightarrow> chuni_control_page \<Rightarrow> chuni_control_page" where
  "on_control ChuniActivate = activate"
| "on_control ChuniStop = deactivate"
| "on_control (ChuniSetLeds rgb) = (if length rgb < 96 then id else publish_leds (take 96 rgb))"
| "on_control (ChuniSetAirLeds board rgb) =
     (if board \<noteq> 0 \<or> length rgb < 153 then id
      else publish_air_leds [rgb ! 152, rgb ! 150, rgb ! 151])"
| "on_control _ = id"

fun slider_led_values :: "chuni_request \<Rightarrow> u8 list list" where
  "slider_led_values (ChuniSetLeds rgb) = (if length rgb < 96 then [] else [take 96 rgb])"
| "slider_led_values _ = []"

fun air_led_values :: "chuni_request \<Rightarrow> u8 list list" where
  "air_led_values (ChuniSetAirLeds board rgb) =
     (if board \<noteq> 0 \<or> length rgb < 153 then [] else [[rgb ! 152, rgb ! 150, rgb ! 151]])"
| "air_led_values _ = []"

fun activation :: "chuni_request \<Rightarrow> bool \<Rightarrow> bool" where
  "activation ChuniActivate on = True"
| "activation ChuniStop on = False"
| "activation _ on = on"

lemmas chuni_control_defs = activate_def deactivate_def publish_leds_def publish_air_leds_def

lemma chuni_call_effect:
  "control_of (chuni_call os r w) = on_control r (control_of w)"
  "state_of (chuni_call os r w) = state_of w"
  "sent (w_hist (chuni_call os r w)) = sent (w_hist w)"
  by (cases r; auto simp: chuni_init_def chuni_stop_def chuni_set_leds_def
      chuni_set_air_leds_from_colors_def chuni_jvs_poll_def chuni_coin_counter_def world_simps
      split_beta Let_def; auto simp: runtime_init_def store_callback_def world_defs)+

lemma chuni_calls_effect:
  "control_of (fold (chuni_call os) rs w) = fold on_control rs (control_of w)"
  "sent (w_hist (fold (chuni_call os) rs w)) = sent (w_hist w)"
  by (induction rs arbitrary: w) (auto simp: chuni_call_effect)

lemma on_control_slider:
  assumes "cc_slider_leds_sequence p = cc_slider_leds_sequence q \<and> cc_slider_leds p = cc_slider_leds q"
  shows "cc_slider_leds_sequence (fold on_control rs p) =
      cc_slider_leds_sequence (fold publish_leds (concat (map slider_led_values rs)) q) \<and>
    cc_slider_leds (fold on_control rs p) =
      cc_slider_leds (fold publish_leds (concat (map slider_led_values rs)) q)"
  using assms
proof (induction rs arbitrary: p q)
  case (Cons r rs)
  have "cc_slider_leds_sequence (on_control r p) = cc_slider_leds_sequence (fold publish_leds (slider_led_values r) q) \<and>
    cc_slider_leds (on_control r p) = cc_slider_leds (fold publish_leds (slider_led_values r) q)"
    using Cons.prems by (cases r) (auto simp: chuni_control_defs)
  from Cons.IH [OF this] show ?case by simp
qed simp

lemma on_control_air:
  assumes "cc_air_leds_sequence p = cc_air_leds_sequence q \<and> cc_air_leds p = cc_air_leds q"
  shows "cc_air_leds_sequence (fold on_control rs p) =
      cc_air_leds_sequence (fold publish_air_leds (concat (map air_led_values rs)) q) \<and>
    cc_air_leds (fold on_control rs p) =
      cc_air_leds (fold publish_air_leds (concat (map air_led_values rs)) q)"
  using assms
proof (induction rs arbitrary: p q)
  case (Cons r rs)
  have "cc_air_leds_sequence (on_control r p) = cc_air_leds_sequence (fold publish_air_leds (air_led_values r) q) \<and>
    cc_air_leds (on_control r p) = cc_air_leds (fold publish_air_leds (air_led_values r) q)"
    using Cons.prems by (cases r) (auto simp: chuni_control_defs)
  from Cons.IH [OF this] show ?case by simp
qed simp

lemma on_control_active:
  "(cc_active (fold on_control rs p) \<noteq> 0) = fold activation rs (cc_active p \<noteq> 0)"
proof (induction rs arbitrary: p)
  case (Cons r rs)
  then show ?case by (cases r) (auto simp: chuni_control_defs)
qed simp

lemma length_concat_le:
  "(\<And>r. length (f r) \<le> 1) \<Longrightarrow> length (concat (map f rs)) \<le> length rs"
proof (induction rs)
  case (Cons r rs)
  then have "length (f r) \<le> 1" "length (concat (map f rs)) \<le> length rs" by blast+
  then show ?case by simp
qed simp

lemma led_values_bound:
  "length (concat (map slider_led_values rs)) \<le> length rs"
  "length (concat (map air_led_values rs)) \<le> length rs"
proof -
  have "length (slider_led_values r) \<le> 1" "length (air_led_values r) \<le> 1" for r
    by (cases r; simp)+
  then show "length (concat (map slider_led_values rs)) \<le> length rs"
    "length (concat (map air_led_values rs)) \<le> length rs"
    using length_concat_le by blast+
qed

text \<open>The frames of an iteration on a ready port.\<close>

lemma chuni_frames_sent:
  assumes "ready s"
  shows "ready (chuni_frames os control l s) \<and> called (snd (chuni_frames os control l s)) = called (snd s) \<and>
    sent (snd (chuni_frames os control l s)) = sent (snd s) @
     (if (cc_active control \<noteq> 0) = cl_last_active l then []
      else if cc_active control \<noteq> 0
      then [slider_frame SLIDER_CMD_AUTO_AIR_START [], slider_frame SLIDER_CMD_AUTO_SCAN_START []]
      else [slider_frame SLIDER_CMD_AUTO_SCAN_STOP []]) @
     (if cc_slider_leds_sequence control = cl_last_slider_leds_sequence l then []
      else [slider_frame SLIDER_CMD_SET_LED (cc_slider_leds control)]) @
     (if cc_air_leds_sequence control = cl_last_air_leds_sequence l then []
      else [slider_frame SLIDER_CMD_SET_AIR_LED (cc_air_leds control)])"
  using assms by (simp add: chuni_frames_def Let_def port_send_ready)

text \<open>
  The thread has sent everything the control page asks for; an iteration brings this about, and one
  more then sends nothing.
\<close>

definition chuni_settled :: "chuni_locals \<Rightarrow> chuni_world \<Rightarrow> bool" where
  "chuni_settled l w \<longleftrightarrow> cl_last_slider_leds_sequence l = cc_slider_leds_sequence (control_of w) \<and>
     cl_last_air_leds_sequence l = cc_air_leds_sequence (control_of w) \<and>
     cl_last_active l = (cc_active (control_of w) \<noteq> 0)"

lemma ready_control_read: "ready (p, w_hist w) \<Longrightarrow> ready (p, w_hist (snd (control_read os w)))"
  by (simp add: ready_def)

lemma chuni_control_settles:
  assumes "ready (cl_port l, w_hist w)" "chuni_control os l w = (l', w')"
  shows "ready (cl_port l', w_hist w') \<and> chuni_settled l' w'"
  using chuni_frames_sent [OF ready_control_read [OF assms(1), of os], of os "control_of w" l] assms(2)
  by (auto simp: chuni_control_def chuni_settled_def split_beta Let_def world_simps)

lemma chuni_settled_quiet:
  assumes "ready (cl_port l, w_hist w)" "chuni_settled l w"
  shows "sent (w_hist (snd (chuni_control os l w))) = sent (w_hist w)"
  using chuni_frames_sent [OF ready_control_read [OF assms(1), of os], of os "control_of w" l] assms(2)
  by (auto simp: chuni_control_def chuni_settled_def split_beta Let_def world_simps)

section \<open>The invariant of the running system\<close>

definition chuni_pages_ok :: "chuni_world \<Rightarrow> bool" where
  "chuni_pages_ok w \<longleftrightarrow> length (cs_pressure (state_of w)) = 32 \<and>
     length (cc_slider_leds (control_of w)) = 96 \<and> length (cc_air_leds (control_of w)) = 3 \<and>
     cs_opbtn (state_of w) = 0 \<and> cs_coin_counter (state_of w) = 0"

fun chuni_good :: "chuni_conf \<Rightarrow> bool" where
  "chuni_good (pc, l, w) =
     (slider_wf (cl_parser l) \<and> port_wf (cl_port l) \<and> chuni_pages_ok w \<and>
      (case pc of
         AtConnect \<Rightarrow>
           (if is_open (cl_port l) then cs_connected (state_of w) = 1 else state_of w = chuni_state_default)
       | AtBytes bs \<Rightarrow> is_open (cl_port l) \<and> cs_connected (state_of w) = 1
       | _ \<Rightarrow> cs_connected (state_of w) = 1))"

fun chuni_initial :: "chuni_conf \<Rightarrow> bool" where
  "chuni_initial (pc, l, w) \<longleftrightarrow> pc = AtConnect \<and> l = chuni_locals_init \<and>
     state_of w = chuni_state_default \<and> control_of w = chuni_control_default"

lemma chuni_packet_pages:
  assumes "chuni_pages_ok w" "cs_connected (state_of w) = 1"
  shows "chuni_pages_ok (chuni_packet os packet w) \<and> cs_connected (state_of (chuni_packet os packet w)) = 1"
  using assms
  by (auto simp: chuni_packet_def apply_scan_frame_def chuni_invoke_callback_def scan_update_def
      air_update_def chuni_pages_ok_def world_simps split_beta Let_def split: list.splits option.splits)

lemma chuni_byte_good:
  assumes "chuni_good (AtBytes (b # bs), l, w)"
  shows "\<exists>l' w'. chuni_byte os b l w = Some (l', w') \<and> chuni_good (AtBytes bs, l', w')"
proof -
  obtain p r where "slider_push (cl_parser l) b = Some (p, r)" "slider_wf p"
    using slider_push_refines [of "cl_parser l" b] assms by auto
  then show ?thesis
    using assms chuni_packet_pages by (cases r) (auto simp: chuni_byte_def)
qed

lemma chuni_connect_good:
  assumes "chuni_good (AtConnect, l, w)" "chuni_connect os l w = Some (go, l', w')"
  shows "chuni_good (if go then AtControl else AtConnect, l', w')"
proof -
  obtain fresh port log where
    c: "slider_connect os ''Chunithm slider'' CHUNI_PIDS mark_connected (cl_port l) (cl_last_scan_log l) w =
          Some (go, fresh, port, log, w')"
    and l': "l' = l\<lparr>cl_port := port, cl_last_scan_log := log,
                 cl_last_active := (if fresh then False else cl_last_active l)\<rparr>"
    using assms(2) by (auto simp: chuni_connect_def split: bind_splits)
  show ?thesis
    using slider_connect_result [OF c] assms(1)
    by (auto simp: l' chuni_pages_ok_def mark_connected_def split: if_splits)
qed

lemma chuni_control_good:
  assumes "chuni_good (AtControl, l, w)"
  shows "chuni_good (AtRead, chuni_control os l w)"
proof -
  let ?s = "(cl_port l, w_hist (snd (control_read os w)))"
  let ?control = "fst (control_read os w)"
  have wf: "port_wf (fst (chuni_frames os c l s))" if "port_wf (fst s)" for c s
    using that by (simp add: chuni_frames_def Let_def port_send_wf)
  have "port_wf (fst (chuni_frames os ?control l ?s))" using wf [of ?s] assms by simp
  then show ?thesis using assms
    by (simp add: chuni_control_def split_beta Let_def chuni_pages_ok_def world_simps)
qed

lemma chuni_read_good:
  assumes "chuni_good (AtRead, l, w)" "chuni_read os l w = (r, l', w')"
  shows "chuni_good (case r of None \<Rightarrow> AtConnect | Some bytes \<Rightarrow> if bytes = [] then AtConnect else AtBytes bytes, l', w')"
proof -
  obtain r1 p h where rd: "sp_read os 64 (cl_port l) (w_hist w) = (r1, p, h)"
    by (cases "sp_read os 64 (cl_port l) (w_hist w)")
  have wf: "port_wf p" using port_wf_read [of "cl_port l" os 64 "w_hist w"] assms(1) rd by simp
  show ?thesis
  proof (cases r1)
    case None
    obtain p2 h2 where cl: "sp_close p h = (p2, h2)" by (cases "sp_close p h")
    have "\<not> is_open p2" using link.close_closes [of p h] cl by simp
    then show ?thesis
      using assms rd None cl
      by (auto simp: chuni_read_def chuni_pages_ok_def chuni_invoke_callback_def world_simps
          port_wf_def chuni_state_default_def Let_def)
  next
    case (Some bytes)
    then have "is_open p" using link.rd_Some_opened rd by blast
    then show ?thesis
      using assms rd Some wf
      by (auto simp: chuni_read_def chuni_pages_ok_def world_simps)
  qed
qed

lemma on_control_pages:
  "length (cc_slider_leds c) = 96 \<and> length (cc_air_leds c) = 3 \<Longrightarrow>
     length (cc_slider_leds (on_control r c)) = 96 \<and> length (cc_air_leds (on_control r c)) = 3"
  by (cases r) (auto simp: chuni_control_defs)

lemma chuni_call_good:
  assumes "chuni_good (pc, l, w)"
  shows "chuni_good (pc, l, chuni_call os r w)"
  using assms on_control_pages [of "control_of w" r]
  by (simp add: chuni_pages_ok_def chuni_call_effect split: thread_pc.splits)

lemma chuni_thread_good:
  assumes "chuni_good c" "chuni_thread_step os c = Some c'"
  shows "chuni_good c'"
proof -
  obtain pc l w where c: "c = (pc, l, w)" by (cases c)
  show ?thesis
  proof (cases pc)
    case AtConnect
    then show ?thesis using assms chuni_connect_good [of l w os]
      by (auto simp: c simp del: chuni_good.simps split: bind_splits)
  next
    case AtControl
    then show ?thesis using assms chuni_control_good [of l w os]
      by (auto simp: c split_beta simp del: chuni_good.simps)
  next
    case AtRead
    then show ?thesis using assms chuni_read_good [of l w os]
      by (cases "chuni_read os l w") (auto simp: c simp del: chuni_good.simps)
  next
    case (AtBytes bs)
    show ?thesis
    proof (cases bs)
      case Nil
      then show ?thesis using assms AtBytes by (auto simp: c)
    next
      case (Cons b bs')
      then show ?thesis using assms AtBytes chuni_byte_good [of b bs' l w os]
        by (auto simp: c simp del: chuni_good.simps)
    qed
  qed
qed

interpretation chuni: invariant_system chuni_initial "chuni_step os" chuni_good for os
proof unfold_locales
  fix s assume "chuni_initial s"
  then show "chuni_good s"
    using port_wf_default slider_wf_default
    by (cases s) (simp add: chuni_locals_init_def chuni_pages_ok_def chuni_state_default_def
        chuni_control_default_def is_open_def serial_port_default_def)
next
  fix s s' assume "chuni_good s" "chuni_step os s s'"
  then show "chuni_good s'"
    by (auto simp del: chuni_good.simps intro: chuni_thread_good chuni_call_good)
qed

section \<open>Streams of packets\<close>

lemma chuni_bytes_run:
  "slider_wf (cl_parser l) \<Longrightarrow> chuni_bytes os bs l w =
     (let (p, pkts) = feed slider_step (cl_parser l) bs
      in Some (l\<lparr>cl_parser := p\<rparr>, fold (chuni_packet os) pkts w))"
proof (induction bs arbitrary: l w)
  case Nil
  then show ?case by simp
next
  case (Cons b bs)
  obtain p r where "slider_push (cl_parser l) b = Some (p, r)" "slider_wf p"
    using slider_push_refines [of "cl_parser l" b] Cons.prems by auto
  then show ?case using Cons.IH [of "l\<lparr>cl_parser := p\<rparr>"]
    by (cases r) (auto simp: chuni_byte_def slider_step_def split_beta Let_def)
qed

lemma apply_scan_frame_effect:
  "called (w_hist (apply_scan_frame os ps bo w)) =
     called (w_hist w) @ map (\<lambda>f. EvSliderCallback f ps) (opt_list (w_callback w))"
  "w_callback (apply_scan_frame os ps bo w) = w_callback w"
  "state_of (apply_scan_frame os ps bo w) = fst (scan_update ps bo (state_of w))"
proof -
  have "called (map (\<lambda>f. EvSliderCallback f ps) v) = map (\<lambda>f. EvSliderCallback f ps) v" for v
    by (induction v) auto
  then show "called (w_hist (apply_scan_frame os ps bo w)) =
     called (w_hist w) @ map (\<lambda>f. EvSliderCallback f ps) (opt_list (w_callback w))"
    by (simp add: apply_scan_frame_def chuni_invoke_callback_def invoke_with_def world_simps
        split_beta scan_update_def Let_def split: option.splits)
qed (auto simp: apply_scan_frame_def chuni_invoke_callback_def world_simps split_beta)

text \<open>
  The messages that have an effect: scan frames with at least 32 pressure values and air frames with
  at least one byte.  \<open>beam_of\<close> is the beam byte of the page after a message, from the one before.
\<close>

definition scan_message :: "u8 \<times> u8 list \<Rightarrow> bool" where
  "scan_message m \<longleftrightarrow> fst m = SLIDER_CMD_AUTO_SCAN \<and> 32 \<le> length (snd m)"

definition air_message :: "u8 \<times> u8 list \<Rightarrow> bool" where
  "air_message m \<longleftrightarrow> fst m = SLIDER_CMD_AUTO_AIR \<and> snd m \<noteq> []"

definition beam_of :: "u8 \<Rightarrow> u8 \<times> u8 list \<Rightarrow> u8" where
  "beam_of b m = (if scan_message m \<and> 32 < length (snd m) then snd m ! 32
     else if air_message m then hd (snd m) else b)"

lemma scan_not_air: "scan_message m \<Longrightarrow> \<not> air_message m"
  by (auto simp: scan_message_def air_message_def slider_cmd_defs)

lemma chuni_packet_message:
  "chuni_packet os (slider_msg_view m) w =
     (if scan_message m then apply_scan_frame os (take 32 (snd m)) (get_at (snd m) 32) w
      else if air_message m then snd (state_update os (\<lambda>page. (air_update (hd (snd m)) page, ())) w)
      else w)"
  by (cases "snd m") (auto simp: chuni_packet_def slider_msg_view_def scan_message_def air_message_def slider_cmd_defs)

lemma chuni_message_effect:
  fixes os :: os and w :: chuni_world
  defines "w' m \<equiv> chuni_packet os (slider_msg_view m) w"
  shows "state_of (w' m) =
      (if scan_message m
       then (state_of w)\<lparr>cs_connected := 1, cs_pressure := take 32 (snd m), cs_beams := beam_of (cs_beams (state_of w)) m,
              cs_sequence := cs_sequence (state_of w) + 1\<rparr>
       else if air_message m
       then (state_of w)\<lparr>cs_connected := 1, cs_beams := beam_of (cs_beams (state_of w)) m,
              cs_sequence := cs_sequence (state_of w) + 1\<rparr>
       else state_of w)"
    and "w_callback (w' m) = w_callback w"
    and "called (w_hist (w' m)) = called (w_hist w) @
      (if scan_message m then map (\<lambda>f. EvSliderCallback f (take 32 (snd m))) (opt_list (w_callback w)) else [])"
proof -
  show "w_callback (w' m) = w_callback w"
    by (simp add: w'_def chuni_packet_message apply_scan_frame_effect world_simps)
  show "called (w_hist (w' m)) = called (w_hist w) @
      (if scan_message m then map (\<lambda>f. EvSliderCallback f (take 32 (snd m))) (opt_list (w_callback w)) else [])"
    by (simp add: w'_def chuni_packet_message apply_scan_frame_effect world_simps)
  have scan: "fst (scan_update ps (get_at (snd m) 32) p) =
      p\<lparr>cs_connected := 1, cs_pressure := ps, cs_beams := beam_of (cs_beams p) m, cs_sequence := cs_sequence p + 1\<rparr>"
    if "scan_message m" for ps p
    using that scan_not_air [OF that] by (simp add: scan_update_def Let_def beam_of_def get_at_def)
  show "state_of (w' m) = (if scan_message m
       then (state_of w)\<lparr>cs_connected := 1, cs_pressure := take 32 (snd m), cs_beams := beam_of (cs_beams (state_of w)) m,
              cs_sequence := cs_sequence (state_of w) + 1\<rparr>
       else if air_message m
       then (state_of w)\<lparr>cs_connected := 1, cs_beams := beam_of (cs_beams (state_of w)) m,
              cs_sequence := cs_sequence (state_of w) + 1\<rparr>
       else state_of w)"
    by (simp add: w'_def chuni_packet_message apply_scan_frame_effect scan world_simps air_update_def beam_of_def)
qed

lemma fold_messages:
  fixes os :: os and w :: chuni_world
  defines "w' ms \<equiv> fold (chuni_packet os) (map slider_msg_view ms) w"
  shows "called (w_hist (w' ms)) = called (w_hist w) @
      concat (map (\<lambda>m. map (\<lambda>f. EvSliderCallback f (take 32 (snd m))) (opt_list (w_callback w))) (filter scan_message ms)) \<and>
    state_of (w' ms) = (state_of w)\<lparr>
      cs_connected := (if \<exists>m \<in> set ms. scan_message m \<or> air_message m then 1 else cs_connected (state_of w)),
      cs_pressure := (if filter scan_message ms = [] then cs_pressure (state_of w)
        else take 32 (snd (List.last (filter scan_message ms)))),
      cs_beams := foldl beam_of (cs_beams (state_of w)) ms,
      cs_sequence := cs_sequence (state_of w) +
        of_nat (length (filter (\<lambda>m. scan_message m \<or> air_message m) ms))\<rparr>"
  unfolding w'_def
proof (induction ms arbitrary: w)
  case Nil
  then show ?case by simp
next
  case (Cons m ms)
  have "beam_of b m = b" if "\<not> scan_message m" "\<not> air_message m" for b
    using that by (simp add: beam_of_def)
  then show ?case
    by (simp add: Cons.IH chuni_message_effect scan_not_air)
qed

section \<open>Properties\<close>

definition chuni_demo_world :: chuni_world where
  "chuni_demo_world = \<lparr>w_callback = Some 7, w_started = True,
     w_state_page = \<lparr>pg_mapping = 30, pg_mutex = 31, pg_view = 1\<rparr>,
     w_control_page = \<lparr>pg_mapping = 32, pg_mutex = 33, pg_view = 2\<rparr>,
     w_state_mem = (\<lambda>_. chuni_state_default), w_control_mem = (\<lambda>_. chuni_control_default), w_hist = []\<rparr>"

lemma chuni_demo_initial:
  "state_of chuni_demo_world = chuni_state_default" "control_of chuni_demo_world = chuni_control_default"
  by (simp_all add: chuni_demo_world_def state_of_def control_of_def)

text \<open>
  C1. No stuck input: in every state that the device thread and the game's calls can reach, in any
  interleaving and whatever Windows and the device do, the state page shows a connected device as long
  as the thread works on a port, and is back at its all-zero default (no pressure, no beam, not
  connected) whenever the thread waits for a device.  The operator buttons and the coin counter
  of the page are never set.
\<close>

theorem chuni_no_stuck_input:
  assumes "(chuni_step os)\<^sup>*\<^sup>* (AtConnect, chuni_locals_init, w0) (pc, l, w)"
    and "state_of w0 = chuni_state_default" "control_of w0 = chuni_control_default"
  shows "(if pc = AtConnect \<and> \<not> is_open (cl_port l) then state_of w = chuni_state_default
      else cs_connected (state_of w) = 1) \<and>
    length (cs_pressure (state_of w)) = 32 \<and>
    cs_opbtn (state_of w) = 0 \<and> cs_coin_counter (state_of w) = 0"
proof -
  have "chuni_initial (AtConnect, chuni_locals_init, w0)" using assms by simp
  from chuni.reachable_good [OF this assms(1)] show ?thesis
    by (auto simp: chuni_pages_ok_def split: thread_pc.splits)
qed

theorem chuni_no_stuck_input_witness:
  "cs_connected (state_of (store_callback None chuni_demo_world)) = 0"
proof -
  have "(chuni_step willing_os)\<^sup>*\<^sup>* (AtConnect, chuni_locals_init, chuni_demo_world)
      (AtConnect, chuni_locals_init, store_callback None chuni_demo_world)"
    using chuni_step.game [of willing_os AtConnect chuni_locals_init chuni_demo_world "ChuniStoreCallback None"]
    by (simp add: r_into_rtranclp)
  from chuni_no_stuck_input [OF this chuni_demo_initial]
  have "state_of (store_callback None chuni_demo_world) = chuni_state_default"
    by (simp add: chuni_locals_init_def is_open_def serial_port_default_def)
  then show ?thesis by (simp add: chuni_state_default_def)
qed

text \<open>
  The device thread never panics: from every reachable state it makes its next step, the only
  exception being a device enumeration that does not end, in the search for a device.
\<close>

theorem chuni_thread_never_panics:
  assumes "(chuni_step os)\<^sup>*\<^sup>* (AtConnect, chuni_locals_init, w0) (pc, l, w)"
    and "state_of w0 = chuni_state_default" "control_of w0 = chuni_control_default"
  shows "chuni_thread_step os (pc, l, w) = None \<longleftrightarrow>
    pc = AtConnect \<and> \<not> is_open (cl_port l) \<and> find_any os AFFINE_VID CHUNI_PIDS (w_hist w) = None"
proof -
  have "chuni_initial (AtConnect, chuni_locals_init, w0)" using assms by simp
  from chuni.reachable_good [OF this assms(1)] have good: "chuni_good (pc, l, w)" .
  show ?thesis
  proof (cases pc)
    case AtConnect
    then show ?thesis
      by (simp add: chuni_connect_def bind_eq_None_conv slider_connect_None split_beta)
  next
    case (AtBytes bs)
    then show ?thesis using good chuni_byte_good [of _ _ l w os]
      by (cases bs) (fastforce simp del: chuni_good.simps)+
  qed (auto simp: split_beta Let_def)
qed

theorem chuni_thread_never_panics_witness:
  "chuni_thread_step willing_os (AtConnect, chuni_locals_init, chuni_demo_world) \<noteq> None"
proof -
  have port: "find_com_port willing_os v p h = Some (None, h @ [EvGetClassDevs True, EvEnumDevice 0, EvDestroyDeviceInfoList])"
    for v p h
    by (simp add: find_com_port_def willing_os_def find_com_loop.simps [of _ _ _ 0])
  have "find_any willing_os AFFINE_VID CHUNI_PIDS h \<noteq> None" for h
    by (simp add: CHUNI_PIDS_def port)
  then show ?thesis
    using chuni_thread_never_panics [OF rtranclp.rtrancl_refl chuni_demo_initial] by blast
qed

text \<open>
  C17. Slider frames end to end: a stream of byte-stuffed frames with any commands and payloads of at
  most 124 bytes, fed to the thread in any parser state, is decoded without a panic.  The game's
  function, if there is one, is called once per scan frame of 32 bytes or more with that frame's 32
  pressure values, in order, and for no other frame.  The page keeps the pressures of the last such
  frame, the beams of the last air frame or longer scan frame, is connected once one of these frames
  was seen, counts them in its sequence number and is otherwise unchanged.
\<close>

theorem chuni_scan_stream:
  assumes "slider_wf (cl_parser l)" and "\<forall>m \<in> set ms. length (snd m) \<le> 124"
  shows "\<exists>l' w'. chuni_bytes os (concat (map (\<lambda>m. stuffed_frame (fst m) (snd m)) ms)) l w = Some (l', w') \<and>
    called (w_hist w') = called (w_hist w) @
      concat (map (\<lambda>m. map (\<lambda>f. EvSliderCallback f (take 32 (snd m))) (opt_list (w_callback w)))
        (filter scan_message ms)) \<and>
    state_of w' = (state_of w)\<lparr>
      cs_connected := (if \<exists>m \<in> set ms. scan_message m \<or> air_message m then 1 else cs_connected (state_of w)),
      cs_pressure := (if filter scan_message ms = [] then cs_pressure (state_of w)
        else take 32 (snd (List.last (filter scan_message ms)))),
      cs_beams := foldl beam_of (cs_beams (state_of w)) ms,
      cs_sequence := cs_sequence (state_of w) +
        of_nat (length (filter (\<lambda>m. scan_message m \<or> air_message m) ms))\<rparr>"
proof -
  have "slider_msg_ok m" if "m \<in> set ms" for m
    using assms(2) that by (auto simp: slider_msg_ok_def)
  then obtain p where run: "feed slider_step (cl_parser l) (concat (map (\<lambda>m. stuffed_frame (fst m) (snd m)) ms)) =
      (p, map slider_msg_view ms)"
    using stuffed.decode_stream [of ms "cl_parser l"] assms(1) by blast
  show ?thesis
    using chuni_bytes_run [OF assms(1)] run fold_messages [of os ms w] by simp
qed

theorem chuni_scan_stream_witness:
  "\<exists>l' w'. chuni_bytes willing_os (stuffed_frame SLIDER_CMD_AUTO_SCAN (replicate 32 9 @ [63]) @
        stuffed_frame SLIDER_CMD_AUTO_AIR [21] @ stuffed_frame SLIDER_CMD_AUTO_SCAN [1, 2])
       chuni_locals_init chuni_demo_world = Some (l', w') \<and>
     called (w_hist w') = [EvSliderCallback 7 (replicate 32 9)] \<and> cs_beams (state_of w') = 21 \<and>
     cs_sequence (state_of w') = 2"
proof -
  have "slider_wf (cl_parser chuni_locals_init)"
    by (simp add: chuni_locals_init_def slider_wf_default)
  from chuni_scan_stream [OF this, of "[(SLIDER_CMD_AUTO_SCAN, replicate 32 9 @ [63]),
      (SLIDER_CMD_AUTO_AIR, [21]), (SLIDER_CMD_AUTO_SCAN, [1, 2])]" willing_os chuni_demo_world]
  show ?thesis
    by (auto simp: chuni_demo_world_def state_of_def chuni_state_default_def scan_message_def air_message_def
        beam_of_def nth_append slider_cmd_defs)
qed

text \<open>
  C16. LEDs and activation reach the device: after any list of fewer than \<open>2 ^ 64\<close> calls of the game since
  the thread last looked at the control page, one iteration on a ready port sends the start or stop
  frames exactly when the activation changed, the last slider LEDs that were set if any were,
  and the last air LEDs if any were; LED buffers that are too short, or of another board, send nothing.
  After it the thread's record of what it has sent agrees with the control page and its port is
  ready, so that an iteration without new calls sends nothing, and the statement applies to the next
  list of calls.
\<close>

theorem chuni_leds_delivered:
  assumes "length rs < 2 ^ 64"
    and "ready (cl_port l, w_hist w)"
    and "cl_last_slider_leds_sequence l = cc_slider_leds_sequence (control_of w)"
    and "cl_last_air_leds_sequence l = cc_air_leds_sequence (control_of w)"
    and "cl_last_active l = (cc_active (control_of w) \<noteq> 0)"
  shows "(let leds = concat (map slider_led_values rs);
              air = concat (map air_led_values rs);
              active = fold activation rs (cl_last_active l);
              (l', w') = chuni_control os l (fold (chuni_call os) rs w)
          in sent (w_hist w') = sent (w_hist w) @
              (if active = cl_last_active l then []
               else if active then [slider_frame SLIDER_CMD_AUTO_AIR_START [], slider_frame SLIDER_CMD_AUTO_SCAN_START []]
               else [slider_frame SLIDER_CMD_AUTO_SCAN_STOP []]) @
              (if leds = [] then [] else [slider_frame SLIDER_CMD_SET_LED (List.last leds)]) @
              (if air = [] then [] else [slider_frame SLIDER_CMD_SET_AIR_LED (List.last air)]) \<and>
            ready (cl_port l', w_hist w') \<and>
            cl_last_slider_leds_sequence l' = cc_slider_leds_sequence (control_of w') \<and>
            cl_last_air_leds_sequence l' = cc_air_leds_sequence (control_of w') \<and>
            cl_last_active l' = (cc_active (control_of w') \<noteq> 0) \<and>
            sent (w_hist (snd (chuni_control os l' w'))) = sent (w_hist w'))"
proof -
  let ?leds = "concat (map slider_led_values rs)" and ?air = "concat (map air_led_values rs)"
  let ?w = "fold (chuni_call os) rs w"
  let ?c = "fold on_control rs (control_of w)"
  have n: "length ?leds < 2 ^ 64" "length ?air < 2 ^ 64"
    using led_values_bound [of rs] assms(1) by linarith+
  have leds: "cc_slider_leds_sequence ?c = cl_last_slider_leds_sequence l \<longleftrightarrow> ?leds = []"
    "?leds \<noteq> [] \<Longrightarrow> cc_slider_leds ?c = List.last ?leds"
    using on_control_slider [of "control_of w" "control_of w" rs] assms(3)
      slider_leds.noticed [OF n(1), of "control_of w"] slider_leds.published [of ?leds "control_of w"]
    by (simp_all del: concat_eq_Nil_conv)
  have air: "cc_air_leds_sequence ?c = cl_last_air_leds_sequence l \<longleftrightarrow> ?air = []"
    "?air \<noteq> [] \<Longrightarrow> cc_air_leds ?c = List.last ?air"
    using on_control_air [of "control_of w" "control_of w" rs] assms(4)
      air_leds.noticed [OF n(2), of "control_of w"] air_leds.published [of ?air "control_of w"]
    by (simp_all del: concat_eq_Nil_conv)
  have active: "(cc_active ?c \<noteq> 0) = fold activation rs (cl_last_active l)"
    using on_control_active [of rs "control_of w"] assms(5) by simp
  have c: "fst (control_read os ?w) = ?c" by (simp add: world_simps chuni_calls_effect)
  have h: "sent (w_hist (snd (control_read os ?w))) = sent (w_hist w)"
    by (simp add: world_simps chuni_calls_effect)
  have r: "ready (cl_port l, w_hist (snd (control_read os ?w)))" using assms(2) by (simp add: ready_def)
  obtain l' w' where pass: "chuni_control os l ?w = (l', w')" by (cases "chuni_control os l ?w")
  have settled: "ready (cl_port l', w_hist w') \<and> chuni_settled l' w'"
    using chuni_control_settles [OF _ pass] assms(2) by (simp add: ready_def)
  then have "sent (w_hist (snd (chuni_control os l' w'))) = sent (w_hist w')"
    using chuni_settled_quiet by blast
  moreover have "sent (w_hist (snd (chuni_control os l ?w))) = sent (w_hist w) @
      (if fold activation rs (cl_last_active l) = cl_last_active l then []
       else if fold activation rs (cl_last_active l)
       then [slider_frame SLIDER_CMD_AUTO_AIR_START [], slider_frame SLIDER_CMD_AUTO_SCAN_START []]
       else [slider_frame SLIDER_CMD_AUTO_SCAN_STOP []]) @
      (if ?leds = [] then [] else [slider_frame SLIDER_CMD_SET_LED (List.last ?leds)]) @
      (if ?air = [] then [] else [slider_frame SLIDER_CMD_SET_AIR_LED (List.last ?air)])"
    using chuni_frames_sent [OF r, of os ?c l]
    by (simp add: chuni_control_def c h split_beta leds air active [symmetric] Let_def del: concat_eq_Nil_conv)
  ultimately show ?thesis
    using settled unfolding pass Let_def chuni_settled_def by simp
qed

theorem chuni_leds_delivered_witness:
  "sent (w_hist (snd (chuni_control willing_os (chuni_locals_init\<lparr>cl_port := opened_port\<rparr>)
       (fold (chuni_call willing_os) [ChuniSetLeds [1], ChuniActivate, ChuniSetLeds (replicate 96 5)] chuni_demo_world)))) =
     [slider_frame 6 [], slider_frame 3 [], slider_frame 2 (replicate 96 5)]"
proof -
  let ?l = "chuni_locals_init\<lparr>cl_port := opened_port\<rparr>"
  have "ready (cl_port ?l, w_hist chuni_demo_world)"
    by (simp add: ready_def port_wf_def is_open_def opened_port_def sp_open_def serial_defs willing_os_def
        open_timeouts_def serial_port_default_def overlapped_default_def NULL_HANDLE_def INVALID_HANDLE_VALUE_def)
  moreover have "cl_last_slider_leds_sequence ?l = cc_slider_leds_sequence (control_of chuni_demo_world)"
    "cl_last_air_leds_sequence ?l = cc_air_leds_sequence (control_of chuni_demo_world)"
    "cl_last_active ?l = (cc_active (control_of chuni_demo_world) \<noteq> 0)"
    by (simp_all add: chuni_demo_initial chuni_locals_init_def chuni_control_default_def)
  ultimately show ?thesis
    using chuni_leds_delivered [of "[ChuniSetLeds [1], ChuniActivate, ChuniSetLeds (replicate 96 5)]"
        ?l chuni_demo_world willing_os]
    by (simp add: chuni_locals_init_def chuni_demo_world_def slider_cmd_defs split_beta)
qed

end
