(* ===== verification/Mercury.thy ===== *)
theory Mercury
  imports Slider_Runtime
begin

text \<open>
  \<open>crates/affine-mercury/src/lib.rs\<close>: the WACCA touch runtime.  The device sends 240 cells packed in 30
  bytes; the state page keeps one byte per cell and the game's function gets one boolean per cell.
  The reserved padding of the pages is not modelled.
\<close>

section \<open>Pages and the game's calls\<close>

definition MERCURY_PIDS :: "u16 list" where "MERCURY_PIDS = [0x52A5]"

record mercury_state_page =
  ms_opbtn :: u8
  ms_gamebtn :: u8
  ms_connected :: u8
  ms_cells :: "u8 list"
  ms_sequence :: u64

text \<open>\<open>MercuryLedData\<close> of \<open>types.rs\<close>.\<close>

record mercury_led_data =
  unitCount :: u32
  rgba :: "u8 list"

record mercury_control_page =
  mc_active :: u8
  mc_leds_sequence :: u64
  mc_leds :: mercury_led_data

definition mercury_state_default :: mercury_state_page where
  "mercury_state_default = \<lparr>ms_opbtn = 0, ms_gamebtn = 0, ms_connected = 0,
     ms_cells = replicate 240 0, ms_sequence = 0\<rparr>"

definition mercury_led_default :: mercury_led_data where
  "mercury_led_default = \<lparr>unitCount = 0, rgba = replicate (480 * 4) 0\<rparr>"

definition mercury_control_default :: mercury_control_page where
  "mercury_control_default = \<lparr>mc_active = 0, mc_leds_sequence = 0, mc_leds = mercury_led_default\<rparr>"

type_synonym mercury_world = "(mercury_state_page, mercury_control_page) world"

definition mercury_runtime ::
  "os \<Rightarrow> mercury_state_page memory \<Rightarrow> mercury_control_page memory \<Rightarrow> history \<Rightarrow> mercury_world option" where
  "mercury_runtime os sm cm h =
     runtime_create os (lit ''mercury_io_shm'') (lit ''mercury_io_shm_mutex'') mercury_state_default
       (lit ''mercury_io_ctrl'') (lit ''mercury_io_ctrl_mutex'') mercury_control_default sm cm h"

definition mercury_init :: "mercury_world \<Rightarrow> int \<times> mercury_world" where
  "mercury_init w = runtime_init (lit ''mercury_thread'') w"

definition mercury_activate :: "mercury_control_page \<Rightarrow> mercury_control_page" where
  "mercury_activate page = page\<lparr>mc_active := 1\<rparr>"

definition mercury_start :: "os \<Rightarrow> nat option \<Rightarrow> mercury_world \<Rightarrow> mercury_world" where
  "mercury_start os callback w = control_update os mercury_activate (store_callback callback w)"

definition mercury_opbtns :: "os \<Rightarrow> mercury_world \<Rightarrow> u8 \<times> mercury_world" where
  "mercury_opbtns os w = (let (page, w) = state_read os w in (ms_opbtn page, w))"

definition mercury_gamebtns :: "os \<Rightarrow> mercury_world \<Rightarrow> u8 \<times> mercury_world" where
  "mercury_gamebtns os w = (let (page, w) = state_read os w in (ms_gamebtn page, w))"

definition mercury_publish_leds :: "mercury_led_data \<Rightarrow> mercury_control_page \<Rightarrow> mercury_control_page" where
  "mercury_publish_leds data page =
     page\<lparr>mc_leds := data, mc_leds_sequence := mc_leds_sequence page + 1\<rparr>"

definition mercury_set_leds :: "os \<Rightarrow> mercury_led_data \<Rightarrow> mercury_world \<Rightarrow> mercury_world" where
  "mercury_set_leds os data w = control_update os (mercury_publish_leds data) w"

section \<open>Packets\<close>

definition mercury_invoke_callback :: "bool list \<Rightarrow> mercury_world \<Rightarrow> mercury_world" where
  "mercury_invoke_callback cells w = invoke_with (\<lambda>f. EvTouchCallback f cells) w"

text \<open>
  The nested loop over the 30 payload bytes and their bits into the array of cells; \<open>None\<close> would be
  an index out of range.
\<close>

fun unpack_bits :: "nat \<Rightarrow> u8 \<Rightarrow> nat list \<Rightarrow> bool list \<Rightarrow> bool list option" where
  "unpack_bits index byte [] cells = Some cells"
| "unpack_bits index byte (k # ks) cells = do {
     cells \<leftarrow> set_at cells (index * 8 + k) (and byte (push_bit k 1) \<noteq> 0);
     unpack_bits index byte ks cells
   }"

fun unpack_bytes :: "nat \<Rightarrow> u8 list \<Rightarrow> bool list \<Rightarrow> bool list option" where
  "unpack_bytes index [] cells = Some cells"
| "unpack_bytes index (b # bs) cells = do {
     cells \<leftarrow> unpack_bits index b [0..<8] cells;
     unpack_bytes (index + 1) bs cells
   }"

definition unpack_cells :: "u8 list \<Rightarrow> bool list option" where
  "unpack_cells payload = do {
     bytes \<leftarrow> slice payload 0 30;
     unpack_bytes 0 bytes (replicate 240 False)
   }"

definition mercury_mark_connected :: "mercury_state_page \<Rightarrow> mercury_state_page" where
  "mercury_mark_connected page = page\<lparr>ms_connected := 1, ms_sequence := ms_sequence page + 1\<rparr>"

text \<open>
  The update of \<open>apply_cells_frame\<close>: both arrays have 240 entries, so the two index loops are maps.
\<close>

definition cells_update :: "bool list \<Rightarrow> mercury_state_page \<Rightarrow> mercury_state_page \<times> bool list" where
  "cells_update cells page =
     (let page = page\<lparr>ms_connected := 1, ms_cells := map (\<lambda>value. if value then 1 else 0) cells\<rparr>;
          page = page\<lparr>ms_sequence := ms_sequence page + 1\<rparr>;
          snapshot = map (\<lambda>value. value \<noteq> 0) (ms_cells page)
      in (page, snapshot))"

definition apply_cells_frame :: "os \<Rightarrow> bool list \<Rightarrow> mercury_world \<Rightarrow> mercury_world" where
  "apply_cells_frame os cells w =
     (let (cells, w) = state_update os (cells_update cells) w in mercury_invoke_callback cells w)"

definition mercury_packet :: "os \<Rightarrow> slider_packet \<Rightarrow> mercury_world \<Rightarrow> mercury_world option" where
  "mercury_packet os packet w =
     (if pkt_cmd packet = SLIDER_CMD_AUTO_SCAN \<and> 30 \<le> length (pkt_payload packet)
      then do {
        cells \<leftarrow> unpack_cells (pkt_payload packet);
        Some (apply_cells_frame os cells w)
      }
      else Some w)"

section \<open>The device thread\<close>

record mercury_locals =
  ml_port :: serial_port
  ml_parser :: slider_parser
  ml_last_scan_log :: u64
  ml_last_active :: bool
  ml_last_leds_sequence :: u64

definition mercury_locals_init :: mercury_locals where
  "mercury_locals_init = \<lparr>ml_port = serial_port_default, ml_parser = slider_parser_default,
     ml_last_scan_log = 0, ml_last_active = False, ml_last_leds_sequence = 0\<rparr>"

definition mercury_connect ::
  "os \<Rightarrow> mercury_locals \<Rightarrow> mercury_world \<Rightarrow> (bool \<times> mercury_locals \<times> mercury_world) option" where
  "mercury_connect os l w = do {
     (go, fresh, port, log, w) \<leftarrow>
       slider_connect os ''Mercury touch'' MERCURY_PIDS mercury_mark_connected (ml_port l) (ml_last_scan_log l) w;
     Some (go, l\<lparr>ml_port := port, ml_last_scan_log := log,
                 ml_last_active := (if fresh then False else ml_last_active l)\<rparr>, w)
   }"

definition mercury_control :: "os \<Rightarrow> mercury_locals \<Rightarrow> mercury_world \<Rightarrow> mercury_locals \<times> mercury_world" where
  "mercury_control os l w =
     (let (control, w) = control_read os w;
          active = (mc_active control \<noteq> 0);
          (port, h) = (if active \<and> \<not> ml_last_active l
                       then port_send os SLIDER_CMD_AUTO_SCAN_START [] (ml_port l, w_hist w)
                       else (ml_port l, w_hist w));
          l = l\<lparr>ml_port := port, ml_last_active := active\<rparr>;
          l = (if mc_leds_sequence control \<noteq> ml_last_leds_sequence l
               then l\<lparr>ml_last_leds_sequence := mc_leds_sequence control\<rparr> else l)
      in (l, w\<lparr>w_hist := h\<rparr>))"

definition mercury_read ::
  "os \<Rightarrow> mercury_locals \<Rightarrow> mercury_world \<Rightarrow> u8 list option \<times> mercury_locals \<times> mercury_world" where
  "mercury_read os l w =
     (let (r, port, h) = sp_read os 64 (ml_port l) (w_hist w)
      in case r of
           Some bytes \<Rightarrow> (Some bytes, l\<lparr>ml_port := port\<rparr>, w\<lparr>w_hist := h\<rparr>)
         | None \<Rightarrow>
             let (port, h) = sp_close port h;
                 w = state_write os mercury_state_default (w\<lparr>w_hist := h\<rparr>);
                 w = mercury_invoke_callback (replicate 240 False) w
             in (None, l\<lparr>ml_port := port\<rparr>, w\<lparr>w_hist := sleep_ms 500 (w_hist w)\<rparr>))"

definition mercury_byte ::
  "os \<Rightarrow> u8 \<Rightarrow> mercury_locals \<Rightarrow> mercury_world \<Rightarrow> (mercury_locals \<times> mercury_world) option" where
  "mercury_byte os byte l w = do {
     (parser, r) \<leftarrow> slider_push (ml_parser l) byte;
     w \<leftarrow> (case r of Some packet \<Rightarrow> mercury_packet os packet w | None \<Rightarrow> Some w);
     Some (l\<lparr>ml_parser := parser\<rparr>, w)
   }"

fun mercury_bytes ::
  "os \<Rightarrow> u8 list \<Rightarrow> mercury_locals \<Rightarrow> mercury_world \<Rightarrow> (mercury_locals \<times> mercury_world) option" where
  "mercury_bytes os [] l w = Some (l, w)"
| "mercury_bytes os (b # bs) l w = do { (l, w) \<leftarrow> mercury_byte os b l w; mercury_bytes os bs l w }"

type_synonym mercury_conf = "thread_pc \<times> mercury_locals \<times> mercury_world"

fun mercury_thread_step :: "os \<Rightarrow> mercury_conf \<Rightarrow> mercury_conf option" where
  "mercury_thread_step os (AtConnect, l, w) = do {
     (go, l, w) \<leftarrow> mercury_connect os l w;
     Some (if go then AtControl else AtConnect, l, w)
   }"
| "mercury_thread_step os (AtControl, l, w) =
     (let (l, w) = mercury_control os l w in Some (AtRead, l, w))"
| "mercury_thread_step os (AtRead, l, w) =
     (let (r, l, w) = mercury_read os l w in
      Some (case r of None \<Rightarrow> AtConnect | Some bytes \<Rightarrow> if bytes = [] then AtConnect else AtBytes bytes, l, w))"
| "mercury_thread_step os (AtBytes [], l, w) = Some (AtConnect, l, w)"
| "mercury_thread_step os (AtBytes (b # bs), l, w) = do {
     (l, w) \<leftarrow> mercury_byte os b l w;
     Some (AtBytes bs, l, w)
   }"

datatype mercury_request =
    MercuryInit
  | MercuryStoreCallback "nat option"
  | MercuryActivate
  | MercuryGetOpbtns
  | MercuryGetGamebtns
  | MercurySetLeds mercury_led_data

fun mercury_call :: "os \<Rightarrow> mercury_request \<Rightarrow> mercury_world \<Rightarrow> mercury_world" where
  "mercury_call os MercuryInit w = snd (mercury_init w)"
| "mercury_call os (MercuryStoreCallback cb) w = store_callback cb w"
| "mercury_call os MercuryActivate w = control_update os mercury_activate w"
| "mercury_call os MercuryGetOpbtns w = snd (mercury_opbtns os w)"
| "mercury_call os MercuryGetGamebtns w = snd (mercury_gamebtns os w)"
| "mercury_call os (MercurySetLeds data) w = mercury_set_leds os data w"

inductive mercury_step :: "os \<Rightarrow> mercury_conf \<Rightarrow> mercury_conf \<Rightarrow> bool" for os where
  device: "mercury_thread_step os c = Some c' \<Longrightarrow> mercury_step os c c'"
| game: "mercury_step os (pc, l, w) (pc, l, mercury_call os call w)"

inductive_cases mercury_stepE [elim!]: "mercury_step os c c'"

section \<open>The cells\<close>

lemma unpack_bits_set:
  "set ks \<subseteq> {..<8} \<Longrightarrow> index * 8 + 8 \<le> length cells \<Longrightarrow>
     unpack_bits index byte ks cells =
       Some (map (\<lambda>i. if i div 8 = index \<and> i mod 8 \<in> set ks then bit byte (i mod 8) else cells ! i)
         [0..<length cells])"
proof (induction ks arbitrary: cells)
  case Nil
  then show ?case by (simp add: map_nth)
next
  case (Cons k ks)
  let ?c = "cells[index * 8 + k := bit byte k]"
  have "unpack_bits index byte (k # ks) cells = unpack_bits index byte ks ?c"
    using Cons.prems by (simp add: set_at_def bit_iff_and_push_bit_not_eq_0 push_bit_eq_mult)
  also have "\<dots> = Some (map (\<lambda>i. if i div 8 = index \<and> i mod 8 \<in> set ks then bit byte (i mod 8) else ?c ! i)
      [0..<length cells])"
    using Cons.IH [of ?c] Cons.prems by simp
  also have "\<dots> = Some (map (\<lambda>i. if i div 8 = index \<and> i mod 8 \<in> set (k # ks) then bit byte (i mod 8) else cells ! i)
      [0..<length cells])"
  proof -
    have eq: "(i div 8 = index \<and> i mod 8 = k) = (i = index * 8 + k)" for i :: nat
      using Cons.prems(1) by (metis div_mult_mod_eq div_mult_self3 div_less mod_less mod_mult_self3
          add_0 insert_subset lessThan_iff list.set(2) mult.commute zero_neq_numeral add.commute)
    have "(if i div 8 = index \<and> i mod 8 \<in> set ks then bit byte (i mod 8) else ?c ! i) =
        (if i div 8 = index \<and> i mod 8 \<in> set (k # ks) then bit byte (i mod 8) else cells ! i)"
      if "i < length cells" for i
    proof (cases "i = index * 8 + k")
      case True
      with eq [of i] that show ?thesis by simp
    next
      case False
      with eq [of i] show ?thesis by auto
    qed
    then show ?thesis by simp
  qed
  finally show ?case .
qed

lemma unpack_bytes_set:
  "(index + length bs) * 8 \<le> length cells \<Longrightarrow>
     unpack_bytes index bs cells =
       Some (map (\<lambda>i. if index \<le> i div 8 \<and> i div 8 < index + length bs
            then bit (bs ! (i div 8 - index)) (i mod 8) else cells ! i) [0..<length cells])"
proof (induction bs arbitrary: index cells)
  case Nil
  have "(\<lambda>i. if index \<le> i div 8 \<and> i div 8 < index + length ([] :: u8 list)
      then bit (([] :: u8 list) ! (i div 8 - index)) (i mod 8) else cells ! i) = (\<lambda>i. cells ! i)"
    by (rule ext) auto
  then show ?case by (simp only: map_nth unpack_bytes.simps)
next
  case (Cons b bs)
  let ?c = "map (\<lambda>i. if i div 8 = index then bit b (i mod 8) else cells ! i) [0..<length cells]"
  have "unpack_bits index b [0..<8] cells = Some ?c"
    using unpack_bits_set [of "[0..<8]" index cells b] Cons.prems by (auto simp: atLeast0LessThan)
  then have "unpack_bytes index (b # bs) cells = unpack_bytes (index + 1) bs ?c" by simp
  also have "\<dots> = Some (map (\<lambda>i. if index + 1 \<le> i div 8 \<and> i div 8 < index + 1 + length bs
      then bit (bs ! (i div 8 - (index + 1))) (i mod 8) else ?c ! i) [0..<length cells])"
    using Cons.IH [of "index + 1" ?c] Cons.prems by simp
  also have "\<dots> = Some (map (\<lambda>i. if index \<le> i div 8 \<and> i div 8 < index + length (b # bs)
            then bit ((b # bs) ! (i div 8 - index)) (i mod 8) else cells ! i) [0..<length cells])"
    by (auto simp: nth_Cons' not_le)
  finally show ?case .
qed

lemma unpack_cells_bits:
  assumes "30 \<le> length payload"
  shows "unpack_cells payload = Some (map (\<lambda>i. bit (payload ! (i div 8)) (i mod 8)) [0..<240])"
proof -
  have "unpack_cells payload = Some (map (\<lambda>i. if i div 8 < 30
      then bit (take 30 payload ! (i div 8)) (i mod 8) else False) [0..<240])"
    using assms unpack_bytes_set [of 0 "take 30 payload" "replicate 240 False"]
    by (auto simp: unpack_cells_def slice_def)
  then show ?thesis by (auto simp: less_mult_imp_div_less)
qed

section \<open>The invariant of the running system\<close>

definition mercury_pages_ok :: "mercury_world \<Rightarrow> bool" where
  "mercury_pages_ok w \<longleftrightarrow> length (ms_cells (state_of w)) = 240 \<and> set (ms_cells (state_of w)) \<subseteq> {0, 1} \<and>
     ms_opbtn (state_of w) = 0 \<and> ms_gamebtn (state_of w) = 0 \<and>
     set (sent (w_hist w)) \<subseteq> {slider_frame SLIDER_CMD_AUTO_SCAN_START []}"

fun mercury_good :: "mercury_conf \<Rightarrow> bool" where
  "mercury_good (pc, l, w) =
     (slider_wf (ml_parser l) \<and> port_wf (ml_port l) \<and> mercury_pages_ok w \<and>
      (case pc of
         AtConnect \<Rightarrow>
           (if is_open (ml_port l) then ms_connected (state_of w) = 1 else state_of w = mercury_state_default)
       | AtBytes bs \<Rightarrow> is_open (ml_port l) \<and> ms_connected (state_of w) = 1
       | _ \<Rightarrow> ms_connected (state_of w) = 1))"

fun mercury_initial :: "mercury_conf \<Rightarrow> bool" where
  "mercury_initial (pc, l, w) \<longleftrightarrow> pc = AtConnect \<and> l = mercury_locals_init \<and>
     state_of w = mercury_state_default \<and> sent (w_hist w) = []"

lemma touch_callback_sent: "sent (map (\<lambda>f. EvTouchCallback f cells) v) = []"
  by (induction v) auto

lemma touch_callback_called: "called (map (\<lambda>f. EvTouchCallback f cells) v) = map (\<lambda>f. EvTouchCallback f cells) v"
  by (induction v) auto

lemma apply_cells_frame_effect:
  "state_of (apply_cells_frame os cells w) = fst (cells_update cells (state_of w))"
  "w_callback (apply_cells_frame os cells w) = w_callback w"
  "sent (w_hist (apply_cells_frame os cells w)) = sent (w_hist w)"
  "called (w_hist (apply_cells_frame os cells w)) =
     called (w_hist w) @ map (\<lambda>f. EvTouchCallback f cells) (opt_list (w_callback w))"
proof -
  have "snd (cells_update cells page) = cells" for page
    by (auto simp: cells_update_def Let_def comp_def intro: map_idI)
  then show "called (w_hist (apply_cells_frame os cells w)) =
     called (w_hist w) @ map (\<lambda>f. EvTouchCallback f cells) (opt_list (w_callback w))"
    by (simp add: apply_cells_frame_def mercury_invoke_callback_def invoke_with_def world_simps
        split_beta touch_callback_called)
qed (auto simp: apply_cells_frame_def mercury_invoke_callback_def world_simps split_beta
    invoke_sent touch_callback_sent)

lemma mercury_packet_effect:
  "mercury_packet os packet w = Some
    (if pkt_cmd packet = SLIDER_CMD_AUTO_SCAN \<and> 30 \<le> length (pkt_payload packet)
     then apply_cells_frame os (map (\<lambda>i. bit (pkt_payload packet ! (i div 8)) (i mod 8)) [0..<240]) w
     else w)"
  by (simp add: mercury_packet_def unpack_cells_bits)

lemma mercury_byte_good:
  assumes "mercury_good (AtBytes (b # bs), l, w)"
  shows "\<exists>l' w'. mercury_byte os b l w = Some (l', w') \<and> mercury_good (AtBytes bs, l', w')"
proof -
  obtain p r where "slider_push (ml_parser l) b = Some (p, r)" "slider_wf p"
    using slider_push_refines [of "ml_parser l" b] assms by auto
  then show ?thesis
    using assms by (cases r) (auto simp: mercury_byte_def mercury_packet_effect mercury_pages_ok_def
      apply_cells_frame_effect cells_update_def Let_def)
qed

lemma mercury_connect_good:
  assumes "mercury_good (AtConnect, l, w)" "mercury_connect os l w = Some (go, l', w')"
  shows "mercury_good (if go then AtControl else AtConnect, l', w')"
proof -
  obtain fresh port log where
    c: "slider_connect os ''Mercury touch'' MERCURY_PIDS mercury_mark_connected (ml_port l) (ml_last_scan_log l) w =
          Some (go, fresh, port, log, w')"
    and l': "l' = l\<lparr>ml_port := port, ml_last_scan_log := log,
                 ml_last_active := (if fresh then False else ml_last_active l)\<rparr>"
    using assms(2) by (auto simp: mercury_connect_def split: bind_splits)
  show ?thesis
    using slider_connect_result [OF c] assms(1)
    by (auto simp: l' mercury_pages_ok_def mercury_mark_connected_def split: if_splits)
qed

lemma mercury_control_good:
  assumes "mercury_good (AtControl, l, w)"
  shows "mercury_good (AtRead, mercury_control os l w)"
proof -
  let ?s = "(ml_port l, w_hist (snd (control_read os w)))"
  have "port_wf (fst ?s)" using assms by simp
  from port_send_wf [OF this, of os SLIDER_CMD_AUTO_SCAN_START "[]"]
    port_send_sent [OF this, of os SLIDER_CMD_AUTO_SCAN_START "[]"]
  show ?thesis using assms
    by (auto simp: mercury_control_def split_beta Let_def mercury_pages_ok_def world_simps)
qed

lemma mercury_read_good:
  assumes "mercury_good (AtRead, l, w)" "mercury_read os l w = (r, l', w')"
  shows "mercury_good (case r of None \<Rightarrow> AtConnect | Some bytes \<Rightarrow> if bytes = [] then AtConnect else AtBytes bytes, l', w')"
proof -
  obtain r1 p h where rd: "sp_read os 64 (ml_port l) (w_hist w) = (r1, p, h)"
    by (cases "sp_read os 64 (ml_port l) (w_hist w)")
  have wf: "port_wf p" using port_wf_read [of "ml_port l" os 64 "w_hist w"] assms(1) rd by simp
  show ?thesis
  proof (cases r1)
    case None
    obtain p2 h2 where cl: "sp_close p h = (p2, h2)" by (cases "sp_close p h")
    have "\<not> is_open p2" using link.close_closes [of p h] cl by simp
    then show ?thesis
      using assms rd None cl sp_read_quiet [OF rd] sp_close_quiet [OF cl]
      by (auto simp: mercury_read_def mercury_pages_ok_def mercury_invoke_callback_def world_simps
          port_wf_def mercury_state_default_def Let_def invoke_sent touch_callback_sent sleep_ms_def)
  next
    case (Some bytes)
    then have "is_open p" using link.rd_Some_opened rd by blast
    then show ?thesis
      using assms rd Some wf sp_read_quiet [OF rd]
      by (auto simp: mercury_read_def mercury_pages_ok_def world_simps)
  qed
qed

lemma mercury_call_effect:
  "state_of (mercury_call os r w) = state_of w"
  "sent (w_hist (mercury_call os r w)) = sent (w_hist w)"
  by (cases r; auto simp: mercury_init_def mercury_set_leds_def mercury_opbtns_def
      mercury_gamebtns_def world_simps split_beta Let_def;
      auto simp: runtime_init_def store_callback_def world_defs)+

lemma mercury_call_good:
  assumes "mercury_good (pc, l, w)"
  shows "mercury_good (pc, l, mercury_call os r w)"
  using assms by (simp add: mercury_pages_ok_def mercury_call_effect split: thread_pc.splits)

lemma mercury_thread_good:
  assumes "mercury_good c" "mercury_thread_step os c = Some c'"
  shows "mercury_good c'"
proof -
  obtain pc l w where c: "c = (pc, l, w)" by (cases c)
  show ?thesis
  proof (cases pc)
    case AtConnect
    then show ?thesis using assms mercury_connect_good [of l w os]
      by (auto simp: c simp del: mercury_good.simps split: bind_splits)
  next
    case AtControl
    then show ?thesis using assms mercury_control_good [of l w os]
      by (auto simp: c split_beta simp del: mercury_good.simps)
  next
    case AtRead
    then show ?thesis using assms mercury_read_good [of l w os]
      by (cases "mercury_read os l w") (auto simp: c simp del: mercury_good.simps)
  next
    case (AtBytes bs)
    show ?thesis
    proof (cases bs)
      case Nil
      then show ?thesis using assms AtBytes by (auto simp: c)
    next
      case (Cons b bs')
      then show ?thesis using assms AtBytes mercury_byte_good [of b bs' l w os]
        by (auto simp: c simp del: mercury_good.simps)
    qed
  qed
qed

interpretation mercury: invariant_system mercury_initial "mercury_step os" mercury_good for os
proof unfold_locales
  fix s assume "mercury_initial s"
  then show "mercury_good s"
    using port_wf_default slider_wf_default
    by (cases s) (simp add: mercury_locals_init_def mercury_pages_ok_def mercury_state_default_def
        is_open_def serial_port_default_def)
next
  fix s s' assume "mercury_good s" "mercury_step os s s'"
  then show "mercury_good s'"
    by (auto simp del: mercury_good.simps intro: mercury_thread_good mercury_call_good)
qed

interpretation mercury_leds: counting_publisher mc_leds_sequence mc_leds mercury_publish_leds
  by unfold_locales (auto simp: mercury_publish_leds_def)

section \<open>Streams of packets\<close>

lemma mercury_bytes_run:
  "slider_wf (ml_parser l) \<Longrightarrow> mercury_bytes os bs l w =
     (let (p, pkts) = feed slider_step (ml_parser l) bs
      in Some (l\<lparr>ml_parser := p\<rparr>, fold (\<lambda>pkt w. the (mercury_packet os pkt w)) pkts w))"
proof (induction bs arbitrary: l w)
  case Nil
  then show ?case by simp
next
  case (Cons b bs)
  obtain p r where "slider_push (ml_parser l) b = Some (p, r)" "slider_wf p"
    using slider_push_refines [of "ml_parser l" b] Cons.prems by auto
  then show ?case using Cons.IH [of "l\<lparr>ml_parser := p\<rparr>"]
    by (cases r) (auto simp: mercury_byte_def mercury_packet_effect slider_step_def split_beta Let_def)
qed

definition cells_of :: "u8 list \<Rightarrow> bool list" where
  "cells_of payload = map (\<lambda>i. bit (payload ! (i div 8)) (i mod 8)) [0..<240]"

lemma fold_cells:
  fixes os :: os and w :: mercury_world
  assumes "\<forall>m \<in> set ms. 30 \<le> length m"
  defines "w' \<equiv> fold (\<lambda>pkt w. the (mercury_packet os pkt w))
    (map (\<lambda>m. \<lparr>pkt_cmd = SLIDER_CMD_AUTO_SCAN, pkt_payload = m\<rparr>) ms) w"
  shows "called (w_hist w') = called (w_hist w) @
      concat (map (\<lambda>m. map (\<lambda>f. EvTouchCallback f (cells_of m)) (opt_list (w_callback w))) ms) \<and>
    ms_sequence (state_of w') = ms_sequence (state_of w) + of_nat (length ms) \<and>
    ms_cells (state_of w') = (if ms = [] then ms_cells (state_of w)
      else map (\<lambda>v. if v then 1 else 0) (cells_of (List.last ms)))"
  using assms(1) unfolding w'_def
proof (induction ms arbitrary: w)
  case Nil
  then show ?case by simp
next
  case (Cons m ms)
  then show ?case
    by (auto simp: mercury_packet_effect apply_cells_frame_effect cells_update_def cells_of_def [symmetric] Let_def)
qed

section \<open>Properties\<close>

definition mercury_demo_world :: mercury_world where
  "mercury_demo_world = \<lparr>w_callback = Some 7, w_started = True,
     w_state_page = \<lparr>pg_mapping = 30, pg_mutex = 31, pg_view = 1\<rparr>,
     w_control_page = \<lparr>pg_mapping = 32, pg_mutex = 33, pg_view = 2\<rparr>,
     w_state_mem = (\<lambda>_. mercury_state_default), w_control_mem = (\<lambda>_. mercury_control_default), w_hist = []\<rparr>"

lemma mercury_demo_initial:
  "state_of mercury_demo_world = mercury_state_default" "sent (w_hist mercury_demo_world) = []"
  by (simp_all add: mercury_demo_world_def state_of_def)

text \<open>
  C10. No stuck touch: in every state the device thread and the game's calls can reach, in any
  interleaving, the state page shows a connected device while the thread works on a port and is back
  at its all-zero default whenever the thread waits for a device; it holds 240 cells, each zero or
  one, and both button fields are zero; the thread makes its next step without a panic, but for a
  device enumeration that does not end.
\<close>

theorem mercury_no_stuck_touch:
  assumes "(mercury_step os)\<^sup>*\<^sup>* (AtConnect, mercury_locals_init, w0) (pc, l, w)"
    and "state_of w0 = mercury_state_default" "sent (w_hist w0) = []"
  shows "(if pc = AtConnect \<and> \<not> is_open (ml_port l) then state_of w = mercury_state_default
      else ms_connected (state_of w) = 1) \<and>
    length (ms_cells (state_of w)) = 240 \<and> set (ms_cells (state_of w)) \<subseteq> {0, 1} \<and>
    ms_opbtn (state_of w) = 0 \<and> ms_gamebtn (state_of w) = 0 \<and>
    (mercury_thread_step os (pc, l, w) = None \<longleftrightarrow>
      pc = AtConnect \<and> \<not> is_open (ml_port l) \<and> find_any os AFFINE_VID MERCURY_PIDS (w_hist w) = None)"
proof -
  have "mercury_initial (AtConnect, mercury_locals_init, w0)" using assms by simp
  from mercury.reachable_good [OF this assms(1)] have good: "mercury_good (pc, l, w)" .
  have "mercury_thread_step os (pc, l, w) = None \<longleftrightarrow>
      pc = AtConnect \<and> \<not> is_open (ml_port l) \<and> find_any os AFFINE_VID MERCURY_PIDS (w_hist w) = None"
  proof (cases pc)
    case AtConnect
    then show ?thesis
      by (simp add: mercury_connect_def bind_eq_None_conv slider_connect_None split_beta)
  next
    case (AtBytes bs)
    then show ?thesis using good mercury_byte_good [of _ _ l w os]
      by (cases bs) (fastforce simp del: mercury_good.simps)+
  qed (auto simp: split_beta Let_def)
  with good show ?thesis by (auto simp: mercury_pages_ok_def split: thread_pc.splits)
qed

theorem mercury_no_stuck_touch_witness:
  "state_of (store_callback None mercury_demo_world) = mercury_state_default"
proof -
  have "(mercury_step willing_os)\<^sup>*\<^sup>* (AtConnect, mercury_locals_init, mercury_demo_world)
      (AtConnect, mercury_locals_init, store_callback None mercury_demo_world)"
    using mercury_step.game [of willing_os AtConnect mercury_locals_init mercury_demo_world "MercuryStoreCallback None"]
    by (simp add: r_into_rtranclp)
  from mercury_no_stuck_touch [OF this mercury_demo_initial] show ?thesis
    by (simp add: mercury_locals_init_def is_open_def serial_port_default_def)
qed

text \<open>
  C21. Touch frames end to end: a stream of byte-stuffed scan frames calls the game's function once
  per frame, in order, with cell \<open>i\<close> set exactly when bit \<open>i mod 8\<close> of payload byte \<open>i div 8\<close> is, and
  leaves the cells of the last frame in the page as zeros and ones.
\<close>

theorem mercury_touch_stream:
  assumes "slider_wf (ml_parser l)" and "\<forall>m \<in> set ms. 30 \<le> length m \<and> length m \<le> 124"
    and "w_callback w = Some f"
  shows "\<exists>l' w'. mercury_bytes os (concat (map (stuffed_frame SLIDER_CMD_AUTO_SCAN) ms)) l w = Some (l', w') \<and>
    called (w_hist w') = called (w_hist w) @
      map (\<lambda>m. EvTouchCallback f (map (\<lambda>i. bit (m ! (i div 8)) (i mod 8)) [0..<240])) ms \<and>
    ms_sequence (state_of w') = ms_sequence (state_of w) + of_nat (length ms) \<and>
    ms_cells (state_of w') = (if ms = [] then ms_cells (state_of w)
      else map (\<lambda>i. if bit (List.last ms ! (i div 8)) (i mod 8) then 1 else 0) [0..<240])"
proof -
  let ?ms = "map (Pair SLIDER_CMD_AUTO_SCAN) ms"
  have ok: "slider_msg_ok m" if "m \<in> set ?ms" for m
    using assms(2) that by (auto simp: slider_msg_ok_def)
  have enc: "concat (map (\<lambda>m. stuffed_frame (fst m) (snd m)) ?ms) =
      concat (map (stuffed_frame SLIDER_CMD_AUTO_SCAN) ms)"
    by (simp add: comp_def)
  obtain p where run: "feed slider_step (ml_parser l) (concat (map (stuffed_frame SLIDER_CMD_AUTO_SCAN) ms)) =
      (p, map slider_msg_view ?ms)"
    using stuffed.decode_stream [of ?ms "ml_parser l"] ok assms(1) unfolding enc by blast
  have view: "map slider_msg_view ?ms = map (\<lambda>m. \<lparr>pkt_cmd = SLIDER_CMD_AUTO_SCAN, pkt_payload = m\<rparr>) ms"
    by (simp add: slider_msg_view_def)
  have "concat (map (\<lambda>m. map (\<lambda>f. EvTouchCallback f (cells_of m)) (opt_list (w_callback w))) ms) =
      map (\<lambda>m. EvTouchCallback f (cells_of m)) ms"
    using assms(3) by (induction ms) auto
  moreover have "\<forall>m \<in> set ms. 30 \<le> length m" using assms(2) by blast
  moreover have "map (\<lambda>v. if v then 1 else 0) (cells_of m) =
      map (\<lambda>i. if bit (m ! (i div 8)) (i mod 8) then 1 else 0) [0..<240]" for m
    by (simp add: cells_of_def)
  moreover have "mercury_bytes os (concat (map (stuffed_frame SLIDER_CMD_AUTO_SCAN) ms)) l w =
      Some (l\<lparr>ml_parser := p\<rparr>, fold (\<lambda>pkt w. the (mercury_packet os pkt w))
        (map (\<lambda>m. \<lparr>pkt_cmd = SLIDER_CMD_AUTO_SCAN, pkt_payload = m\<rparr>) ms) w)"
    using mercury_bytes_run [OF assms(1)] run [unfolded view] by simp
  ultimately show ?thesis using fold_cells [of ms os w] by (auto simp: cells_of_def)
qed

theorem mercury_touch_stream_witness:
  "\<exists>l' w'. mercury_bytes willing_os (stuffed_frame SLIDER_CMD_AUTO_SCAN (3 # replicate 29 0))
       mercury_locals_init mercury_demo_world = Some (l', w') \<and>
     ms_cells (state_of w') = [1, 1] @ replicate 238 0"
proof -
  have "slider_wf (ml_parser mercury_locals_init)" "w_callback mercury_demo_world = Some 7"
    by (simp_all add: mercury_locals_init_def slider_wf_default mercury_demo_world_def)
  from mercury_touch_stream [OF this(1) _ this(2), of "[3 # replicate 29 0]" willing_os]
  have "\<exists>l' w'. mercury_bytes willing_os (stuffed_frame SLIDER_CMD_AUTO_SCAN (3 # replicate 29 0))
       mercury_locals_init mercury_demo_world = Some (l', w') \<and>
     ms_cells (state_of w') = map (\<lambda>i. if bit ((3 # replicate 29 (0 :: u8)) ! (i div 8)) (i mod 8) then 1 else 0) [0..<240]"
    by auto
  moreover have "map (\<lambda>i. if bit ((3 # replicate 29 (0 :: u8)) ! (i div 8)) (i mod 8) then 1 else 0) [0..<240] =
      [1, 1] @ replicate 238 (0 :: u8)"
    by code_simp
  ultimately show ?thesis by simp
qed

text \<open>
  C39. The LED data of the game never reaches the device: whatever the game sets and in whatever
  order, the only bytes the runtime ever hands to the serial driver are the scan-start frame.
\<close>

theorem mercury_sends_scan_start_only:
  assumes "(mercury_step os)\<^sup>*\<^sup>* (AtConnect, mercury_locals_init, w0) (pc, l, w)"
    and "state_of w0 = mercury_state_default" "sent (w_hist w0) = []"
  shows "set (sent (w_hist w)) \<subseteq> {slider_frame SLIDER_CMD_AUTO_SCAN_START []}"
proof -
  have "mercury_initial (AtConnect, mercury_locals_init, w0)" using assms by simp
  from mercury.reachable_good [OF this assms(1)] show ?thesis by (simp add: mercury_pages_ok_def)
qed

theorem mercury_sends_scan_start_only_witness:
  "set (sent (w_hist (mercury_set_leds willing_os mercury_led_default mercury_demo_world))) \<subseteq>
     {slider_frame SLIDER_CMD_AUTO_SCAN_START []}"
proof -
  have "(mercury_step willing_os)\<^sup>*\<^sup>* (AtConnect, mercury_locals_init, mercury_demo_world)
      (AtConnect, mercury_locals_init, mercury_set_leds willing_os mercury_led_default mercury_demo_world)"
    using mercury_step.game [of willing_os AtConnect mercury_locals_init mercury_demo_world "MercurySetLeds mercury_led_default"]
    by (simp add: r_into_rtranclp)
  from mercury_sends_scan_start_only [OF this mercury_demo_initial] show ?thesis .
qed

end
