(* ===== verification/Game_Exports.thy ===== *)
theory Game_Exports
  imports Chuni Mercury Mai2_Calls
begin

text \<open>
  The exported functions of \<open>src/exports/chuni.rs\<close>, \<open>src/exports/mercury.rs\<close> and \<open>src/exports/mai2.rs\<close>
  over the game's memory.  A function without a result returns 0.  A callback is the number of the
  game's function, \<open>None\<close> the null pointer; the LED data of mercury is passed by value.
  The runtime of a game is created by the first call that evaluates \<open>runtime()\<close>, and a page that
  cannot be created makes this call panic (\<open>None\<close>).
\<close>

section \<open>The runtime on first use\<close>

text \<open>The \<open>OnceLock\<close> of a crate: not created yet, in a process with this history, or the runtime.\<close>

datatype 'w once = Uninit history | Live 'w

definition get_or_init :: "(history \<Rightarrow> 'w option) \<Rightarrow> 'w once \<Rightarrow> 'w option" where
  "get_or_init new c = (case c of Uninit h \<Rightarrow> new h | Live w \<Rightarrow> Some w)"

lemma get_or_init_Live [simp]: "get_or_init new (Live w) = Some w"
  by (simp add: get_or_init_def)

text \<open>\<open>rt\<close> in the definitions below is \<open>runtime()\<close> of the crate; what a call does with it.\<close>

definition with_runtime ::
  "('w once \<Rightarrow> 'w option) \<Rightarrow> (bytes_memory \<Rightarrow> 'w \<Rightarrow> int \<times> bytes_memory \<times> 'w) \<Rightarrow> bytes_memory \<times> 'w once \<Rightarrow>
     (int \<times> bytes_memory \<times> 'w once) option" where
  "with_runtime rt body g = do {
     w \<leftarrow> rt (snd g);
     let (r, m, w) = body (fst g) w;
     Some (r, m, Live w)
   }"

section \<open>Chunithm\<close>

type_synonym chuni_game = "bytes_memory \<times> chuni_world once"
type_synonym chuni_rt = "chuni_world once \<Rightarrow> chuni_world option"
type_synonym chuni_result = "(int \<times> chuni_game) option"

text \<open>\<open>runtime()\<close> of \<open>crates/affine-chuni/src/lib.rs\<close>.\<close>

definition chuni_get_runtime :: "os \<Rightarrow> chuni_state_page memory \<Rightarrow> chuni_control_page memory \<Rightarrow> chuni_rt" where
  "chuni_get_runtime os sm cm = get_or_init (chuni_runtime os sm cm)"

definition chuni_io_get_api_version :: u16 where "chuni_io_get_api_version = 0x0102"

definition chuni_io_jvs_init :: "chuni_rt \<Rightarrow> chuni_game \<Rightarrow> chuni_result" where
  "chuni_io_jvs_init rt = with_runtime rt (\<lambda>m w. let (r, w) = chuni_init w in (r, m, w))"

definition chuni_io_jvs_poll :: "chuni_rt \<Rightarrow> os \<Rightarrow> nat \<Rightarrow> nat \<Rightarrow> chuni_game \<Rightarrow> chuni_result" where
  "chuni_io_jvs_poll rt os opbtn beams = with_runtime rt (\<lambda>m w.
     let ((next_opbtn, next_beams), w) = chuni_jvs_poll os w;
         m = write_value opbtn [next_opbtn] m;
         m = write_value beams [next_beams] m
     in (0, m, w))"

definition chuni_io_jvs_read_coin_counter :: "chuni_rt \<Rightarrow> os \<Rightarrow> nat \<Rightarrow> chuni_game \<Rightarrow> chuni_result" where
  "chuni_io_jvs_read_coin_counter rt os coins = with_runtime rt (\<lambda>m w.
     let (v, w) = chuni_coin_counter os w in (0, write_value coins (le_bytes 2 (unat v)) m, w))"

definition chuni_io_slider_init :: "chuni_rt \<Rightarrow> chuni_game \<Rightarrow> chuni_result" where
  "chuni_io_slider_init rt = with_runtime rt (\<lambda>m w. let (r, w) = chuni_init w in (r, m, w))"

definition chuni_io_slider_start :: "chuni_rt \<Rightarrow> os \<Rightarrow> nat option \<Rightarrow> chuni_game \<Rightarrow> chuni_result" where
  "chuni_io_slider_start rt os callback = with_runtime rt (\<lambda>m w. (0, m, chuni_start os callback w))"

definition chuni_io_slider_stop :: "chuni_rt \<Rightarrow> os \<Rightarrow> chuni_game \<Rightarrow> chuni_result" where
  "chuni_io_slider_stop rt os = with_runtime rt (\<lambda>m w. (0, m, chuni_stop os w))"

definition chuni_io_slider_set_leds :: "chuni_rt \<Rightarrow> os \<Rightarrow> nat \<Rightarrow> chuni_game \<Rightarrow> chuni_result" where
  "chuni_io_slider_set_leds rt os rgb g =
     (case read_bytes (fst g) rgb 96 of
        Some bytes \<Rightarrow> with_runtime rt (\<lambda>m w. (0, m, chuni_set_leds os bytes w)) g | None \<Rightarrow> Some (0, g))"

definition chuni_io_led_init :: hresult where "chuni_io_led_init = S_OK"

definition chuni_io_led_set_colors :: "chuni_rt \<Rightarrow> os \<Rightarrow> u8 \<Rightarrow> nat \<Rightarrow> chuni_game \<Rightarrow> chuni_result" where
  "chuni_io_led_set_colors rt os board rgb g =
     (case read_mut_bytes (fst g) rgb 189 of
        Some bytes \<Rightarrow> with_runtime rt (\<lambda>m w. (0, m, chuni_set_air_leds_from_colors os board bytes w)) g
      | None \<Rightarrow> Some (0, g))"

datatype chuni_export =
    ChioGetApiVersion
  | ChioJvsInit
  | ChioJvsPoll nat nat
  | ChioReadCoinCounter nat
  | ChioSliderInit
  | ChioSliderStart "nat option"
  | ChioSliderStop
  | ChioSliderSetLeds nat
  | ChioLedInit
  | ChioLedSetColors u8 nat

fun chuni_exported ::
  "os \<Rightarrow> chuni_state_page memory \<Rightarrow> chuni_control_page memory \<Rightarrow> chuni_export \<Rightarrow> chuni_game \<Rightarrow> chuni_result" where
  "chuni_exported os sm cm ChioGetApiVersion g = Some (uint chuni_io_get_api_version, g)"
| "chuni_exported os sm cm ChioJvsInit g = chuni_io_jvs_init (chuni_get_runtime os sm cm) g"
| "chuni_exported os sm cm (ChioJvsPoll opbtn beams) g = chuni_io_jvs_poll (chuni_get_runtime os sm cm) os opbtn beams g"
| "chuni_exported os sm cm (ChioReadCoinCounter coins) g =
     chuni_io_jvs_read_coin_counter (chuni_get_runtime os sm cm) os coins g"
| "chuni_exported os sm cm ChioSliderInit g = chuni_io_slider_init (chuni_get_runtime os sm cm) g"
| "chuni_exported os sm cm (ChioSliderStart callback) g = chuni_io_slider_start (chuni_get_runtime os sm cm) os callback g"
| "chuni_exported os sm cm ChioSliderStop g = chuni_io_slider_stop (chuni_get_runtime os sm cm) os g"
| "chuni_exported os sm cm (ChioSliderSetLeds rgb) g = chuni_io_slider_set_leds (chuni_get_runtime os sm cm) os rgb g"
| "chuni_exported os sm cm ChioLedInit g = Some (chuni_io_led_init, g)"
| "chuni_exported os sm cm (ChioLedSetColors board rgb) g =
     chuni_io_led_set_colors (chuni_get_runtime os sm cm) os board rgb g"

text \<open>
  The crate's calls behind an exported call, whether it evaluates \<open>runtime()\<close> at all, and the bytes it
  may write.
\<close>

fun chuni_requests :: "bytes_memory \<Rightarrow> chuni_export \<Rightarrow> chuni_request list" where
  "chuni_requests m ChioGetApiVersion = []"
| "chuni_requests m ChioJvsInit = [ChuniInit]"
| "chuni_requests m (ChioJvsPoll opbtn beams) = [ChuniJvsPoll]"
| "chuni_requests m (ChioReadCoinCounter coins) = [ChuniCoinCounter]"
| "chuni_requests m ChioSliderInit = [ChuniInit]"
| "chuni_requests m (ChioSliderStart callback) = [ChuniStoreCallback callback, ChuniActivate]"
| "chuni_requests m ChioSliderStop = [ChuniStop]"
| "chuni_requests m (ChioSliderSetLeds rgb) = (if rgb = 0 then [] else [ChuniSetLeds (load m rgb 96)])"
| "chuni_requests m ChioLedInit = []"
| "chuni_requests m (ChioLedSetColors board rgb) = (if rgb = 0 then [] else [ChuniSetAirLeds board (load m rgb 189)])"

fun chuni_uses :: "chuni_export \<Rightarrow> bool" where
  "chuni_uses ChioGetApiVersion = False"
| "chuni_uses ChioLedInit = False"
| "chuni_uses (ChioSliderSetLeds rgb) = (rgb \<noteq> 0)"
| "chuni_uses (ChioLedSetColors board rgb) = (rgb \<noteq> 0)"
| "chuni_uses e = True"

fun chuni_owned :: "chuni_export \<Rightarrow> nat set" where
  "chuni_owned (ChioJvsPoll opbtn beams) = pointee opbtn 1 \<union> pointee beams 1"
| "chuni_owned (ChioReadCoinCounter coins) = pointee coins 2"
| "chuni_owned e = {}"

text \<open>A call of the crate on the runtime: created if there are calls to make, and kept.\<close>

definition on_runtime :: "('w once \<Rightarrow> 'w option) \<Rightarrow> bool \<Rightarrow> ('w \<Rightarrow> 'w option) \<Rightarrow> 'w once \<Rightarrow> 'w once option" where
  "on_runtime rt uses f c =
     (if uses then (case rt c of None \<Rightarrow> None | Some w \<Rightarrow> map_option Live (f w)) else Some c)"

lemma on_runtime_refused:
  assumes "\<forall>w. rt c = Some w \<longrightarrow> f w \<noteq> None"
  shows "on_runtime rt uses f c = None \<longleftrightarrow> rt c = None \<and> uses"
  using assms by (auto simp: on_runtime_def split: option.split)

lemma on_runtime_stays:
  "on_runtime (get_or_init new) uses f c = Some c' \<Longrightarrow> get_or_init new c' = None \<longleftrightarrow> get_or_init new c = None"
  by (auto simp: on_runtime_def split: if_splits option.splits)

lemmas chuni_export_defs = chuni_io_get_api_version_def chuni_io_jvs_init_def chuni_io_jvs_poll_def
  chuni_io_jvs_read_coin_counter_def chuni_io_slider_init_def chuni_io_slider_start_def
  chuni_io_slider_stop_def chuni_io_slider_set_leds_def chuni_io_led_init_def chuni_io_led_set_colors_def
  read_bytes_def read_mut_bytes_def

interpretation chuni_interface: exported_interface "chuni_exported os sm cm" chuni_owned
  "\<lambda>m e. on_runtime (chuni_get_runtime os sm cm) (chuni_uses e) (\<lambda>w. Some (fold (chuni_call os) (chuni_requests m e) w))"
  "\<lambda>c. True" for os sm cm
proof
  fix e m w r m' w'
  assume "chuni_exported os sm cm e (m, w) = Some (r, m', w')"
  then show "mem_changes m m' \<subseteq> chuni_owned e"
    by (cases e) (auto simp: chuni_export_defs with_runtime_def split_beta Let_def in_mem_changes_iff write_value_apply
        split: if_splits bind_splits)
next
  fix e m w
  show "map_option (\<lambda>(r, m', w'). w') (chuni_exported os sm cm e (m, w)) =
      on_runtime (chuni_get_runtime os sm cm) (chuni_uses e) (\<lambda>w. Some (fold (chuni_call os) (chuni_requests m e) w)) w"
    by (cases e; cases "chuni_get_runtime os sm cm w")
      (simp_all add: chuni_export_defs with_runtime_def on_runtime_def split_beta Let_def chuni_start_def)
qed simp

section \<open>Mercury\<close>

type_synonym mercury_game = "bytes_memory \<times> mercury_world once"
type_synonym mercury_rt = "mercury_world once \<Rightarrow> mercury_world option"
type_synonym mercury_result = "(int \<times> mercury_game) option"

text \<open>\<open>runtime()\<close> of \<open>crates/affine-mercury/src/lib.rs\<close>.\<close>

definition mercury_get_runtime :: "os \<Rightarrow> mercury_state_page memory \<Rightarrow> mercury_control_page memory \<Rightarrow> mercury_rt" where
  "mercury_get_runtime os sm cm = get_or_init (mercury_runtime os sm cm)"

definition mercury_io_get_api_version :: u16 where "mercury_io_get_api_version = 0x0100"

definition mercury_io_init :: "mercury_rt \<Rightarrow> mercury_game \<Rightarrow> mercury_result" where
  "mercury_io_init rt = with_runtime rt (\<lambda>m w. let (r, w) = mercury_init w in (r, m, w))"

definition mercury_io_poll :: hresult where "mercury_io_poll = S_OK"

definition mercury_io_get_opbtns :: "mercury_rt \<Rightarrow> os \<Rightarrow> nat \<Rightarrow> mercury_game \<Rightarrow> mercury_result" where
  "mercury_io_get_opbtns rt os opbtn = with_runtime rt (\<lambda>m w.
     let (v, w) = mercury_opbtns os w in (0, write_value opbtn [v] m, w))"

definition mercury_io_get_gamebtns :: "mercury_rt \<Rightarrow> os \<Rightarrow> nat \<Rightarrow> mercury_game \<Rightarrow> mercury_result" where
  "mercury_io_get_gamebtns rt os gamebtn = with_runtime rt (\<lambda>m w.
     let (v, w) = mercury_gamebtns os w in (0, write_value gamebtn [v] m, w))"

definition mercury_io_touch_init :: "mercury_rt \<Rightarrow> mercury_game \<Rightarrow> mercury_result" where
  "mercury_io_touch_init rt = with_runtime rt (\<lambda>m w. let (r, w) = mercury_init w in (r, m, w))"

definition mercury_io_touch_start :: "mercury_rt \<Rightarrow> os \<Rightarrow> nat option \<Rightarrow> mercury_game \<Rightarrow> mercury_result" where
  "mercury_io_touch_start rt os callback = with_runtime rt (\<lambda>m w. (0, m, mercury_start os callback w))"

definition mercury_io_touch_set_leds :: "mercury_rt \<Rightarrow> os \<Rightarrow> mercury_led_data \<Rightarrow> mercury_game \<Rightarrow> mercury_result" where
  "mercury_io_touch_set_leds rt os data = with_runtime rt (\<lambda>m w. (0, m, mercury_set_leds os data w))"

datatype mercury_export =
    MeioGetApiVersion
  | MeioInit
  | MeioPoll
  | MeioGetOpbtns nat
  | MeioGetGamebtns nat
  | MeioTouchInit
  | MeioTouchStart "nat option"
  | MeioTouchSetLeds mercury_led_data

fun mercury_exported ::
  "os \<Rightarrow> mercury_state_page memory \<Rightarrow> mercury_control_page memory \<Rightarrow> mercury_export \<Rightarrow> mercury_game \<Rightarrow> mercury_result" where
  "mercury_exported os sm cm MeioGetApiVersion g = Some (uint mercury_io_get_api_version, g)"
| "mercury_exported os sm cm MeioInit g = mercury_io_init (mercury_get_runtime os sm cm) g"
| "mercury_exported os sm cm MeioPoll g = Some (mercury_io_poll, g)"
| "mercury_exported os sm cm (MeioGetOpbtns opbtn) g = mercury_io_get_opbtns (mercury_get_runtime os sm cm) os opbtn g"
| "mercury_exported os sm cm (MeioGetGamebtns gamebtn) g =
     mercury_io_get_gamebtns (mercury_get_runtime os sm cm) os gamebtn g"
| "mercury_exported os sm cm MeioTouchInit g = mercury_io_touch_init (mercury_get_runtime os sm cm) g"
| "mercury_exported os sm cm (MeioTouchStart callback) g =
     mercury_io_touch_start (mercury_get_runtime os sm cm) os callback g"
| "mercury_exported os sm cm (MeioTouchSetLeds data) g =
     mercury_io_touch_set_leds (mercury_get_runtime os sm cm) os data g"

fun mercury_requests :: "mercury_export \<Rightarrow> mercury_request list" where
  "mercury_requests MeioGetApiVersion = []"
| "mercury_requests MeioInit = [MercuryInit]"
| "mercury_requests MeioPoll = []"
| "mercury_requests (MeioGetOpbtns opbtn) = [MercuryGetOpbtns]"
| "mercury_requests (MeioGetGamebtns gamebtn) = [MercuryGetGamebtns]"
| "mercury_requests MeioTouchInit = [MercuryInit]"
| "mercury_requests (MeioTouchStart callback) = [MercuryStoreCallback callback, MercuryActivate]"
| "mercury_requests (MeioTouchSetLeds data) = [MercurySetLeds data]"

fun mercury_uses :: "mercury_export \<Rightarrow> bool" where
  "mercury_uses MeioGetApiVersion = False"
| "mercury_uses MeioPoll = False"
| "mercury_uses e = True"

fun mercury_owned :: "mercury_export \<Rightarrow> nat set" where
  "mercury_owned (MeioGetOpbtns opbtn) = pointee opbtn 1"
| "mercury_owned (MeioGetGamebtns gamebtn) = pointee gamebtn 1"
| "mercury_owned e = {}"

lemmas mercury_export_defs = mercury_io_get_api_version_def mercury_io_init_def mercury_io_poll_def
  mercury_io_get_opbtns_def mercury_io_get_gamebtns_def mercury_io_touch_init_def
  mercury_io_touch_start_def mercury_io_touch_set_leds_def

interpretation mercury_interface: exported_interface "mercury_exported os sm cm" mercury_owned
  "\<lambda>m e. on_runtime (mercury_get_runtime os sm cm) (mercury_uses e)
     (\<lambda>w. Some (fold (mercury_call os) (mercury_requests e) w))" "\<lambda>c. True" for os sm cm
proof
  fix e m w r m' w'
  assume "mercury_exported os sm cm e (m, w) = Some (r, m', w')"
  then show "mem_changes m m' \<subseteq> mercury_owned e"
    by (cases e) (auto simp: mercury_export_defs with_runtime_def split_beta Let_def in_mem_changes_iff write_value_apply
        split: if_splits bind_splits)
next
  fix e m w
  show "map_option (\<lambda>(r, m', w'). w') (mercury_exported os sm cm e (m, w)) =
      on_runtime (mercury_get_runtime os sm cm) (mercury_uses e)
        (\<lambda>w. Some (fold (mercury_call os) (mercury_requests e) w)) w"
    by (cases e; cases "mercury_get_runtime os sm cm w")
      (simp_all add: mercury_export_defs with_runtime_def on_runtime_def split_beta Let_def mercury_start_def)
qed simp

section \<open>Mai2\<close>

type_synonym mai2_game = "bytes_memory \<times> mai2_world once"
type_synonym mai2_rt = "mai2_world once \<Rightarrow> mai2_world option"
type_synonym mai2_result = "(int \<times> mai2_game) option"

text \<open>
  \<open>runtime()\<close> of \<open>crates/affine-mai2/src/lib.rs\<close>.  What the creation finds is one argument: the contents
  of \<open>segatools.ini\<close> and of the memory that the pages are mapped to.
\<close>

record mai2_boot =
  mb_config :: "rstr option"
  mb_input_mem :: "mai2_input_page memory"
  mb_output_mem :: "mai2_output_page memory"
  mb_poll_mem :: "mai2_poll_page memory"

definition mai2_get_runtime :: "os \<Rightarrow> mai2_boot \<Rightarrow> mai2_rt" where
  "mai2_get_runtime os boot =
     get_or_init (mai2_runtime_new os (mb_config boot) (mb_input_mem boot) (mb_output_mem boot) (mb_poll_mem boot))"

definition mai2_io_get_api_version :: u16 where "mai2_io_get_api_version = 0x0102"

definition mai2_io_init :: "mai2_rt \<Rightarrow> rstr \<Rightarrow> rstr option \<Rightarrow> mai2_game \<Rightarrow> mai2_result" where
  "mai2_io_init rt version exe = with_runtime rt (\<lambda>m w. let (r, w) = mai2_init version exe w in (r, m, w))"

definition mai2_io_poll :: "mai2_rt \<Rightarrow> os \<Rightarrow> mai2_game \<Rightarrow> mai2_result" where
  "mai2_io_poll rt os = with_runtime rt (\<lambda>m w. let (r, w) = mai2_poll os w in (r, m, w))"

definition mai2_io_get_opbtns :: "mai2_rt \<Rightarrow> os \<Rightarrow> nat \<Rightarrow> mai2_game \<Rightarrow> mai2_result" where
  "mai2_io_get_opbtns rt os opbtn = with_runtime rt (\<lambda>m w.
     let (v, w) = mai2_get_opbtns os w in (0, write_value opbtn [v] m, w))"

definition mai2_io_get_gamebtns :: "mai2_rt \<Rightarrow> os \<Rightarrow> nat \<Rightarrow> nat \<Rightarrow> mai2_game \<Rightarrow> mai2_result" where
  "mai2_io_get_gamebtns rt os player1 player2 = with_runtime rt (\<lambda>m w.
     let ((left, right), w) = mai2_get_gamebtns os w;
         m = write_value player1 (le_bytes 2 (unat left)) m;
         m = write_value player2 (le_bytes 2 (unat right)) m
     in (0, m, w))"

definition mai2_io_touch_init :: "mai2_rt \<Rightarrow> nat option \<Rightarrow> mai2_game \<Rightarrow> mai2_result" where
  "mai2_io_touch_init rt callback = with_runtime rt (\<lambda>m w. (S_OK, m, mai2_set_touch_callback callback w))"

definition mai2_io_touch_update :: "mai2_rt \<Rightarrow> os \<Rightarrow> bool \<Rightarrow> bool \<Rightarrow> mai2_game \<Rightarrow> mai2_result" where
  "mai2_io_touch_update rt os player1 player2 = with_runtime rt (\<lambda>m w.
     (0, m, mai2_set_touch_enabled os player1 player2 w))"

definition mai2_io_led_init :: "mai2_rt \<Rightarrow> rstr \<Rightarrow> rstr option \<Rightarrow> mai2_game \<Rightarrow> mai2_result" where
  "mai2_io_led_init rt version exe = with_runtime rt (\<lambda>m w. let (r, w) = mai2_led_init version exe w in (r, m, w))"

definition mai2_io_led_set_fet_output :: "mai2_rt \<Rightarrow> os \<Rightarrow> u8 \<Rightarrow> nat \<Rightarrow> mai2_game \<Rightarrow> mai2_result" where
  "mai2_io_led_set_fet_output rt os board rgb g =
     (if rgb = 0 then Some (0, g)
      else with_runtime rt (\<lambda>m w. (0, m, mai2_led_set_fet_output os board (load m rgb 3) w)) g)"

text \<open>The update itself can panic as well, so it is written out.\<close>

definition mai2_io_led_gs_update :: "mai2_rt \<Rightarrow> os \<Rightarrow> u8 \<Rightarrow> nat \<Rightarrow> mai2_game \<Rightarrow> mai2_result" where
  "mai2_io_led_gs_update rt os board rgb g =
     (if rgb = 0 then Some (0, g)
      else do {
        w \<leftarrow> rt (snd g);
        w \<leftarrow> mai2_led_gs_update os board (load (fst g) rgb 32) w;
        Some (0, fst g, Live w)
      })"

definition mai2_io_led_billboard_set :: "mai2_rt \<Rightarrow> os \<Rightarrow> u8 \<Rightarrow> nat \<Rightarrow> mai2_game \<Rightarrow> mai2_result" where
  "mai2_io_led_billboard_set rt os board rgb g =
     (if rgb = 0 then Some (0, g)
      else with_runtime rt (\<lambda>m w. (0, m, mai2_led_billboard_set os board (load m rgb 3) w)) g)"

text \<open>
  \<open>touch_set_sens\<close>, \<open>led_dc_update\<close> and \<open>led_cam_set\<close> have empty bodies (\<open>MaioNothing\<close>).
\<close>

datatype mai2_export =
    MaioGetApiVersion
  | MaioInit rstr "rstr option"
  | MaioPoll
  | MaioGetOpbtns nat
  | MaioGetGamebtns nat nat
  | MaioTouchInit "nat option"
  | MaioTouchUpdate bool bool
  | MaioLedInit rstr "rstr option"
  | MaioLedSetFet u8 nat
  | MaioLedGsUpdate u8 nat
  | MaioLedBillboard u8 nat
  | MaioNothing

fun mai2_exported :: "os \<Rightarrow> mai2_boot \<Rightarrow> mai2_export \<Rightarrow> mai2_game \<Rightarrow> mai2_result" where
  "mai2_exported os boot MaioGetApiVersion g = Some (uint mai2_io_get_api_version, g)"
| "mai2_exported os boot (MaioInit version exe) g = mai2_io_init (mai2_get_runtime os boot) version exe g"
| "mai2_exported os boot MaioPoll g = mai2_io_poll (mai2_get_runtime os boot) os g"
| "mai2_exported os boot (MaioGetOpbtns opbtn) g = mai2_io_get_opbtns (mai2_get_runtime os boot) os opbtn g"
| "mai2_exported os boot (MaioGetGamebtns player1 player2) g =
     mai2_io_get_gamebtns (mai2_get_runtime os boot) os player1 player2 g"
| "mai2_exported os boot (MaioTouchInit callback) g = mai2_io_touch_init (mai2_get_runtime os boot) callback g"
| "mai2_exported os boot (MaioTouchUpdate player1 player2) g =
     mai2_io_touch_update (mai2_get_runtime os boot) os player1 player2 g"
| "mai2_exported os boot (MaioLedInit version exe) g = mai2_io_led_init (mai2_get_runtime os boot) version exe g"
| "mai2_exported os boot (MaioLedSetFet board rgb) g =
     mai2_io_led_set_fet_output (mai2_get_runtime os boot) os board rgb g"
| "mai2_exported os boot (MaioLedGsUpdate board rgb) g = mai2_io_led_gs_update (mai2_get_runtime os boot) os board rgb g"
| "mai2_exported os boot (MaioLedBillboard board rgb) g =
     mai2_io_led_billboard_set (mai2_get_runtime os boot) os board rgb g"
| "mai2_exported os boot MaioNothing g = Some (0, g)"

fun mai2_requests :: "bytes_memory \<Rightarrow> mai2_export \<Rightarrow> mai2_request list" where
  "mai2_requests m MaioGetApiVersion = []"
| "mai2_requests m (MaioInit version exe) = [Mai2Init version exe]"
| "mai2_requests m MaioPoll = [Mai2Poll]"
| "mai2_requests m (MaioGetOpbtns opbtn) = [Mai2GetOpbtns]"
| "mai2_requests m (MaioGetGamebtns player1 player2) = [Mai2GetGamebtns]"
| "mai2_requests m (MaioTouchInit callback) = [Mai2SetTouchCallback callback]"
| "mai2_requests m (MaioTouchUpdate player1 player2) = [Mai2SetTouchEnabled player1 player2]"
| "mai2_requests m (MaioLedInit version exe) = [Mai2LedInit version exe]"
| "mai2_requests m (MaioLedSetFet board rgb) = (if rgb = 0 then [] else [Mai2LedSetFet board (load m rgb 3)])"
| "mai2_requests m (MaioLedGsUpdate board rgb) = (if rgb = 0 then [] else [Mai2LedGsUpdate board (load m rgb 32)])"
| "mai2_requests m (MaioLedBillboard board rgb) = (if rgb = 0 then [] else [Mai2LedBillboard board (load m rgb 3)])"
| "mai2_requests m MaioNothing = []"

fun mai2_uses :: "mai2_export \<Rightarrow> bool" where
  "mai2_uses MaioGetApiVersion = False"
| "mai2_uses MaioNothing = False"
| "mai2_uses (MaioLedSetFet board rgb) = (rgb \<noteq> 0)"
| "mai2_uses (MaioLedGsUpdate board rgb) = (rgb \<noteq> 0)"
| "mai2_uses (MaioLedBillboard board rgb) = (rgb \<noteq> 0)"
| "mai2_uses e = True"

fun mai2_owned :: "mai2_export \<Rightarrow> nat set" where
  "mai2_owned (MaioGetOpbtns opbtn) = pointee opbtn 1"
| "mai2_owned (MaioGetGamebtns player1 player2) = pointee player1 2 \<union> pointee player2 2"
| "mai2_owned e = {}"

lemmas mai2_export_defs = mai2_io_get_api_version_def mai2_io_init_def mai2_io_poll_def
  mai2_io_get_opbtns_def mai2_io_get_gamebtns_def mai2_io_touch_init_def mai2_io_touch_update_def
  mai2_io_led_init_def mai2_io_led_set_fet_output_def mai2_io_led_gs_update_def
  mai2_io_led_billboard_set_def

text \<open>What holds of the runtime, if there is one.\<close>

fun once_ok :: "('w \<Rightarrow> bool) \<Rightarrow> 'w once \<Rightarrow> bool" where
  "once_ok P (Uninit h) = True"
| "once_ok P (Live w) = P w"

lemma mai2_runtime_latch: "mai2_runtime_new os cfg im om pm h = Some w \<Longrightarrow> latch_ok w"
  by (auto simp: mai2_runtime_new_def latch_ok_def Let_def split: bind_splits option.splits prod.splits)

lemma mai2_get_runtime_latch: "once_ok latch_ok c \<Longrightarrow> mai2_get_runtime os boot c = Some w \<Longrightarrow> latch_ok w"
  by (cases c) (auto simp: mai2_get_runtime_def get_or_init_def dest: mai2_runtime_latch)

interpretation mai2_interface: exported_interface "mai2_exported os boot" mai2_owned
  "\<lambda>m e. on_runtime (mai2_get_runtime os boot) (mai2_uses e) (\<lambda>w. mai2_calls os w (mai2_requests m e))"
  "once_ok latch_ok" for os boot
proof
  fix e m w r m' w'
  assume "mai2_exported os boot e (m, w) = Some (r, m', w')"
  then show "mem_changes m m' \<subseteq> mai2_owned e"
    by (cases e) (auto simp: mai2_export_defs with_runtime_def split_beta Let_def in_mem_changes_iff write_value_apply
        split: if_splits bind_splits)
next
  fix e m c
  show "map_option (\<lambda>(r, m', w'). w') (mai2_exported os boot e (m, c)) =
      on_runtime (mai2_get_runtime os boot) (mai2_uses e) (\<lambda>w. mai2_calls os w (mai2_requests m e)) c"
    by (cases e; cases "mai2_get_runtime os boot c")
      (auto simp: mai2_export_defs with_runtime_def on_runtime_def split_beta Let_def split: bind_splits)
next
  fix e m c c'
  assume run: "on_runtime (mai2_get_runtime os boot) (mai2_uses e) (\<lambda>w. mai2_calls os w (mai2_requests m e)) c = Some c'"
    and ok: "once_ok latch_ok c"
  show "once_ok latch_ok c'"
  proof (cases "mai2_uses e")
    case True
    then obtain w w' where w: "mai2_get_runtime os boot c = Some w" "mai2_calls os w (mai2_requests m e) = Some w'"
      "c' = Live w'"
      using run by (auto simp: on_runtime_def split: option.splits)
    with mai2_calls_latch [OF mai2_get_runtime_latch [OF ok w(1)], of os "mai2_requests m e"] show ?thesis by auto
  qed (use run ok in \<open>simp add: on_runtime_def\<close>)
qed

lemma chuni_run_refused:
  "exported_run (chuni_exported os sm cm) es (m, c) = None \<longleftrightarrow>
     chuni_get_runtime os sm cm c = None \<and> list_ex chuni_uses es"
  by (rule chuni_interface.run_refused)
    (auto simp: on_runtime_refused chuni_get_runtime_def dest: on_runtime_stays)

lemma mercury_run_refused:
  "exported_run (mercury_exported os sm cm) es (m, c) = None \<longleftrightarrow>
     mercury_get_runtime os sm cm c = None \<and> list_ex mercury_uses es"
  by (rule mercury_interface.run_refused)
    (auto simp: on_runtime_refused mercury_get_runtime_def dest: on_runtime_stays)

lemma mai2_run_refused:
  assumes "once_ok latch_ok c"
  shows "exported_run (mai2_exported os boot) es (m, c) = None \<longleftrightarrow>
     mai2_get_runtime os boot c = None \<and> list_ex mai2_uses es"
proof (rule mai2_interface.run_refused [OF _ _ assms])
  show "\<forall>m e c. once_ok latch_ok c \<longrightarrow>
      (on_runtime (mai2_get_runtime os boot) (mai2_uses e) (\<lambda>w. mai2_calls os w (mai2_requests m e)) c = None \<longleftrightarrow>
       mai2_get_runtime os boot c = None \<and> mai2_uses e)"
    using mai2_get_runtime_latch mai2_calls_latch
    by (intro allI impI on_runtime_refused) (metis option.distinct(1))
qed (auto simp: mai2_get_runtime_def dest: on_runtime_stays)

section \<open>Properties\<close>

text \<open>
  C24. Whatever the game calls through the exported functions of the three games, in any order, with
  whatever pointers and from the first call on: the calls return, and nothing but the bytes behind
  the non-null result pointers of the calls made is written.  The one exception is a runtime that
  cannot be created, since Windows refuses a page: then a sequence of calls panics exactly if one of
  its calls needs the runtime.
\<close>

theorem game_exports_confined:
  assumes "once_ok latch_ok c3"
  shows "(case exported_run (chuni_exported os sm1 cm1) es1 (m, c1) of
      None \<Rightarrow> chuni_get_runtime os sm1 cm1 c1 = None \<and> list_ex chuni_uses es1
    | Some (rs, m', c') \<Rightarrow> \<not> (chuni_get_runtime os sm1 cm1 c1 = None \<and> list_ex chuni_uses es1) \<and>
        mem_changes m m' \<subseteq> (\<Union>e \<in> set es1. chuni_owned e)) \<and>
    (case exported_run (mercury_exported os sm2 cm2) es2 (m, c2) of
      None \<Rightarrow> mercury_get_runtime os sm2 cm2 c2 = None \<and> list_ex mercury_uses es2
    | Some (rs, m', c') \<Rightarrow> \<not> (mercury_get_runtime os sm2 cm2 c2 = None \<and> list_ex mercury_uses es2) \<and>
        mem_changes m m' \<subseteq> (\<Union>e \<in> set es2. mercury_owned e)) \<and>
    (case exported_run (mai2_exported os boot) es3 (m, c3) of
      None \<Rightarrow> mai2_get_runtime os boot c3 = None \<and> list_ex mai2_uses es3
    | Some (rs, m', c') \<Rightarrow> \<not> (mai2_get_runtime os boot c3 = None \<and> list_ex mai2_uses es3) \<and>
        mem_changes m m' \<subseteq> (\<Union>e \<in> set es3. mai2_owned e) \<and> once_ok latch_ok c')"
proof (intro conjI)
  show "case exported_run (chuni_exported os sm1 cm1) es1 (m, c1) of
      None \<Rightarrow> chuni_get_runtime os sm1 cm1 c1 = None \<and> list_ex chuni_uses es1
    | Some (rs, m', c') \<Rightarrow> \<not> (chuni_get_runtime os sm1 cm1 c1 = None \<and> list_ex chuni_uses es1) \<and>
        mem_changes m m' \<subseteq> (\<Union>e \<in> set es1. chuni_owned e)"
    using chuni_run_refused [of os sm1 cm1 es1 m c1] chuni_interface.run_confined [of os sm1 cm1 es1 m c1]
    by (auto split: option.split)
  show "case exported_run (mercury_exported os sm2 cm2) es2 (m, c2) of
      None \<Rightarrow> mercury_get_runtime os sm2 cm2 c2 = None \<and> list_ex mercury_uses es2
    | Some (rs, m', c') \<Rightarrow> \<not> (mercury_get_runtime os sm2 cm2 c2 = None \<and> list_ex mercury_uses es2) \<and>
        mem_changes m m' \<subseteq> (\<Union>e \<in> set es2. mercury_owned e)"
    using mercury_run_refused [of os sm2 cm2 es2 m c2] mercury_interface.run_confined [of os sm2 cm2 es2 m c2]
    by (auto split: option.split)
  show "case exported_run (mai2_exported os boot) es3 (m, c3) of
      None \<Rightarrow> mai2_get_runtime os boot c3 = None \<and> list_ex mai2_uses es3
    | Some (rs, m', c') \<Rightarrow> \<not> (mai2_get_runtime os boot c3 = None \<and> list_ex mai2_uses es3) \<and>
        mem_changes m m' \<subseteq> (\<Union>e \<in> set es3. mai2_owned e) \<and> once_ok latch_ok c'"
    using mai2_run_refused [OF assms, of os boot es3 m] mai2_interface.run_confined [of os boot es3 m c3] assms
    by (auto split: option.split)
qed

definition willing_boot :: mai2_boot where
  "willing_boot = \<lparr>mb_config = None, mb_input_mem = (\<lambda>a. mai2_input_default), mb_output_mem = (\<lambda>a. mai2_output_default),
     mb_poll_mem = (\<lambda>a. mai2_poll_default)\<rparr>"

lemma willing_get_runtime: "mai2_get_runtime willing_os willing_boot (Uninit []) \<noteq> None"
  by (auto simp: mai2_get_runtime_def get_or_init_def willing_boot_def mai2_runtime_new_def device_handle_new_def
      page_create_def page_defs willing_os_def NULL_HANDLE_def ERROR_ALREADY_EXISTS_def)

theorem game_exports_confined_witness:
  "\<exists>m'. mem_changes (\<lambda>_. 0) m' \<subseteq> {8 :: nat} \<and>
     (\<exists>rs c'. exported_run (mai2_exported willing_os willing_boot) [MaioPoll, MaioLedGsUpdate 0 64, MaioGetOpbtns 8]
       (\<lambda>_. 0, Uninit []) = Some (rs, m', c'))"
proof -
  have ok: "once_ok latch_ok (Uninit [])" by simp
  have own: "(\<Union>e \<in> set [MaioPoll, MaioLedGsUpdate 0 64, MaioGetOpbtns 8]. mai2_owned e) = {8}"
    by (auto simp: pointee_def)
  note conf = game_exports_confined [OF ok, where boot = willing_boot and os = willing_os and m = "\<lambda>_. 0"
      and ?es3.0 = "[MaioPoll, MaioLedGsUpdate 0 64, MaioGetOpbtns 8]", unfolded own]
  show ?thesis
    using conf [THEN conjunct2, THEN conjunct2] willing_get_runtime by (auto split: option.splits)
qed

lemma mai2_getters:
  "fst (mai2_get_opbtns os w) = pp_opbtn (poll_of w)"
  "fst (mai2_get_gamebtns os w) = (pp_player1_btn (poll_of w), pp_player2_btn (poll_of w))"
  "poll_of (snd (mai2_get_gamebtns os w)) = poll_of w"
  by (simp_all add: mai2_get_opbtns_def mai2_get_gamebtns_def poll_read_def poll_of_def page_read_def
      split_beta Let_def)

text \<open>
  C30. From the input pages to the game's variables: a poll followed by the two getters writes, at the
  non-null pointers it was given, the button words of the two players (zero for a player whose page
  is not connected) and the operator buttons of that very poll, whether the poll finds the runtime
  or creates it.
\<close>

theorem mai2_buttons_reach_game:
  "case mai2_get_runtime os boot rt of
     None \<Rightarrow> exported_run (mai2_exported os boot) [MaioPoll, MaioGetGamebtns a b, MaioGetOpbtns c] (m, rt) = None
   | Some w \<Rightarrow>
      let btns = (\<lambda>p. if ip_connected p \<noteq> 0 then map_buttons (ip_buttons0 p) (ip_io_status p) else 0);
          (key_test, key_service, key_coin) = keys_at os w;
          page = poll_update (input_of 0 w) (input_of 1 w) key_test key_service key_coin (poll_of w);
          m1 = write_value a (le_bytes 2 (unat (btns (input_of 0 w)))) m;
          m2 = write_value b (le_bytes 2 (unat (btns (input_of 1 w)))) m1
      in \<exists>w'. exported_run (mai2_exported os boot) [MaioPoll, MaioGetGamebtns a b, MaioGetOpbtns c] (m, rt) =
        Some ([S_OK, 0, 0], write_value c [pp_opbtn page] m2, Live w')"
proof (cases "mai2_get_runtime os boot rt")
  case None
  then show ?thesis by (simp add: mai2_io_poll_def with_runtime_def)
next
  case (Some w)
  have live: "mai2_get_runtime os boot (Live v) = Some v" for v by (simp add: mai2_get_runtime_def)
  have "fst (mai2_poll os w) = S_OK" by (simp add: mai2_poll_def split_beta Let_def)
  with Some show ?thesis
    by (simp add: mai2_export_defs with_runtime_def live split_beta Let_def mai2_getters mai2_poll_page poll_update_fields)
qed

end
