(* ===== verification/Process_Info.thy ===== *)
theory Process_Info
  imports Platform
begin

unbundle bit_operations_syntax

text \<open>
  What \<open>util.rs\<close> keeps per process or asks the process for, and the build script that stamps the
  version: the cached decision whether stderr takes colours and the lines that are printed with it,
  the origin of \<open>tick_ms\<close>, the name of the executable, \<open>build.rs\<close>.  The console is a record of answers,
  each of which may depend on the console calls made before; stderr takes what is written to it.
\<close>

section \<open>The console\<close>

datatype (plugins only: size code) con_event =
    ConStdHandle handle
  | ConGetMode handle "u32 option"
  | ConSetMode handle u32 bool
  | ConDebugString rstr
  | ConStderr rstr

record console =
  con_std_handle :: "con_event list \<Rightarrow> handle"
  con_mode :: "con_event list \<Rightarrow> handle \<Rightarrow> u32 option"
  con_set_mode :: "con_event list \<Rightarrow> handle \<Rightarrow> u32 \<Rightarrow> bool"

definition ENABLE_VIRTUAL_TERMINAL_PROCESSING :: u32 where "ENABLE_VIRTUAL_TERMINAL_PROCESSING = 0x0004"

text \<open>The initialiser of \<open>ENABLED\<close>.\<close>

definition detect_ansi :: "console \<Rightarrow> con_event list \<Rightarrow> bool \<times> con_event list" where
  "detect_ansi con h =
     (let handle = con_std_handle con h; h = h @ [ConStdHandle handle]
      in if handle = NULL_HANDLE \<or> handle = INVALID_HANDLE_VALUE then (False, h)
         else
           let answer = con_mode con h handle; h = h @ [ConGetMode handle answer]
           in case answer of
                None \<Rightarrow> (False, h)
              | Some mode \<Rightarrow>
                  let new = mode OR ENABLE_VIRTUAL_TERMINAL_PROCESSING; ok = con_set_mode con h handle new
                  in (ok, h @ [ConSetMode handle new ok]))"

text \<open>\<open>ansi_enabled\<close>: the static cell is \<open>None\<close> until the first call.\<close>

definition ansi_enabled :: "console \<Rightarrow> bool option \<times> con_event list \<Rightarrow> bool \<times> bool option \<times> con_event list" where
  "ansi_enabled con s =
     (case s of
        (Some ansi, h) \<Rightarrow> (ansi, Some ansi, h)
      | (None, h) \<Rightarrow> (let (ansi, h) = detect_ansi con h in (ansi, Some ansi, h)))"

text \<open>\<open>emit\<close> with its effects: the debugger's line first, then the decision, then stderr.\<close>

definition emit_line :: "console \<Rightarrow> log_tag \<Rightarrow> rstr \<Rightarrow> bool option \<times> con_event list \<Rightarrow> bool option \<times> con_event list" where
  "emit_line con tag msg s =
     (let (cache, h) = s;
          h = (case fst (emit False tag msg) of None \<Rightarrow> h | Some line \<Rightarrow> h @ [ConDebugString line]);
          (ansi, cache, h) = ansi_enabled con (cache, h)
      in (cache, h @ [ConStderr (snd (emit ansi tag msg))]))"

text \<open>The public functions, and their calls in order.\<close>

datatype log_call = LogLine rstr | LogInfo rstr | LogOkMsg rstr | LogWarnMsg rstr | LogFailMsg rstr | LogDiagMsg rstr

fun log_call_args :: "log_call \<Rightarrow> log_tag \<times> rstr" where
  "log_call_args (LogLine line) =
     (LogNone, case strip_prefix (lit ''[Affine IO] '') line of Some r \<Rightarrow> r | None \<Rightarrow> line)"
| "log_call_args (LogInfo msg) = (LogNone, msg)"
| "log_call_args (LogOkMsg msg) = (LogOk, msg)"
| "log_call_args (LogWarnMsg msg) = (LogWarn, msg)"
| "log_call_args (LogFailMsg msg) = (LogFail, msg)"
| "log_call_args (LogDiagMsg msg) = (LogDiag, msg)"

fun log_run :: "console \<Rightarrow> log_call list \<Rightarrow> bool option \<times> con_event list \<Rightarrow> bool option \<times> con_event list" where
  "log_run con [] s = s"
| "log_run con (c # cs) s = (let (tag, msg) = log_call_args c in log_run con cs (emit_line con tag msg s))"

text \<open>What a history shows.\<close>

fun stderr_lines :: "con_event list \<Rightarrow> rstr list" where
  "stderr_lines [] = []"
| "stderr_lines (e # es) = (case e of ConStderr l \<Rightarrow> [l] | _ \<Rightarrow> []) @ stderr_lines es"

fun debug_strings :: "con_event list \<Rightarrow> rstr list" where
  "debug_strings [] = []"
| "debug_strings (e # es) = (case e of ConDebugString l \<Rightarrow> [l] | _ \<Rightarrow> []) @ debug_strings es"

fun modes_read :: "con_event list \<Rightarrow> (handle \<times> u32) list" where
  "modes_read [] = []"
| "modes_read (e # es) = (case e of ConGetMode x (Some m) \<Rightarrow> [(x, m)] | _ \<Rightarrow> []) @ modes_read es"

fun modes_set :: "con_event list \<Rightarrow> (handle \<times> u32) list" where
  "modes_set [] = []"
| "modes_set (e # es) = (case e of ConSetMode x m _ \<Rightarrow> [(x, m)] | _ \<Rightarrow> []) @ modes_set es"

lemma shows_append [simp]:
  "stderr_lines (a @ b) = stderr_lines a @ stderr_lines b"
  "debug_strings (a @ b) = debug_strings a @ debug_strings b"
  "modes_read (a @ b) = modes_read a @ modes_read b"
  "modes_set (a @ b) = modes_set a @ modes_set b"
  by (induction a) auto

text \<open>The detection prints nothing and sets at most the mode it has just read, with the one bit added.\<close>

lemma detect_ansi_shows:
  assumes "detect_ansi con h = (ansi, h')"
  shows "stderr_lines h' = stderr_lines h" "debug_strings h' = debug_strings h"
    "\<exists>ms. length ms \<le> 1 \<and> modes_read h' = modes_read h @ ms \<and>
       modes_set h' = modes_set h @ map (\<lambda>(x, m). (x, m OR ENABLE_VIRTUAL_TERMINAL_PROCESSING)) ms \<and>
       (ms = [] \<longrightarrow> \<not> ansi)"
  using assms by (auto simp: detect_ansi_def Let_def split: if_splits option.splits)

definition log_stderr :: "bool \<Rightarrow> log_call \<Rightarrow> rstr" where
  "log_stderr ansi c = (case log_call_args c of (tag, msg) \<Rightarrow> snd (emit ansi tag msg))"

definition log_debug :: "log_call \<Rightarrow> rstr option" where
  "log_debug c = (case log_call_args c of (tag, msg) \<Rightarrow> fst (emit False tag msg))"

lemma log_run_decided:
  "log_run con cs (Some ansi, h) = (Some ansi, snd (log_run con cs (Some ansi, h))) \<and>
   stderr_lines (snd (log_run con cs (Some ansi, h))) = stderr_lines h @ map (log_stderr ansi) cs \<and>
   debug_strings (snd (log_run con cs (Some ansi, h))) = debug_strings h @ List.map_filter log_debug cs \<and>
   modes_read (snd (log_run con cs (Some ansi, h))) = modes_read h \<and>
   modes_set (snd (log_run con cs (Some ansi, h))) = modes_set h"
proof (induction cs arbitrary: h)
  case Nil
  then show ?case by (simp add: map_filter_simps)
next
  case (Cons c cs)
  obtain tag msg where c: "log_call_args c = (tag, msg)" by (cases "log_call_args c")
  define g where "g = (case log_debug c of None \<Rightarrow> h | Some line \<Rightarrow> h @ [ConDebugString line]) @ [ConStderr (log_stderr ansi c)]"
  have run: "log_run con (c # cs) (Some ansi, h) = log_run con cs (Some ansi, g)"
    by (simp add: c emit_line_def ansi_enabled_def g_def log_debug_def log_stderr_def)
  show ?case
    unfolding run using Cons.IH [of g]
    by (cases "log_debug c") (simp_all add: g_def map_filter_simps)
qed

section \<open>The process clock\<close>

text \<open>
  \<open>tick_ms\<close>: \<open>inst k\<close> is the \<open>k\<close>th value \<open>Instant::now\<close> gives, in nanoseconds; the state is the cell
  \<open>START\<close> and how many values were taken.  \<open>elapsed\<close> saturates at zero.
\<close>

definition process_tick :: "(nat \<Rightarrow> nat) \<Rightarrow> nat option \<times> nat \<Rightarrow> u64 \<times> nat option \<times> nat" where
  "process_tick inst s =
     (let (start, k) = s;
          (start, k) = (case start of Some t \<Rightarrow> (t, k) | None \<Rightarrow> (inst k, k + 1))
      in (of_nat ((inst k - start) div 1000000), Some start, k + 1))"

fun process_ticks :: "(nat \<Rightarrow> nat) \<Rightarrow> nat \<Rightarrow> nat option \<times> nat \<Rightarrow> u64 list" where
  "process_ticks inst 0 s = []"
| "process_ticks inst (Suc n) s = (let (t, s) = process_tick inst s in t # process_ticks inst n s)"

lemma process_ticks_started:
  "process_ticks inst n (Some t0, k) = map (\<lambda>i. of_nat ((inst (k + i) - t0) div 1000000)) [0..<n]"
proof (induction n arbitrary: k)
  case (Suc n)
  have "map (\<lambda>i. of_nat ((inst (k + i) - t0) div 1000000) :: u64) [0..<Suc n] =
      of_nat ((inst k - t0) div 1000000) # map (\<lambda>i. of_nat ((inst (Suc k + i) - t0) div 1000000)) [0..<n]"
    unfolding upt_conv_Cons [OF zero_less_Suc] map_Suc_upt [symmetric] by (simp add: comp_def)
  then show ?case by (simp add: Suc process_tick_def)
qed simp

lemma process_ticks_eq:
  "process_ticks inst n (None, 0) = map (\<lambda>i. of_nat ((inst (Suc i) - inst 0) div 1000000)) [0..<n]"
proof (cases n)
  case (Suc m)
  have "map (\<lambda>i. of_nat ((inst (Suc i) - inst 0) div 1000000) :: u64) [0..<Suc m] =
      of_nat ((inst 1 - inst 0) div 1000000) # map (\<lambda>i. of_nat ((inst (2 + i) - inst 0) div 1000000)) [0..<m]"
    unfolding upt_conv_Cons [OF zero_less_Suc] map_Suc_upt [symmetric] by (simp add: comp_def)
  then show ?thesis by (simp add: Suc process_tick_def process_ticks_started)
qed simp

text \<open>The limiter starts with \<open>last_scan_log = 0\<close>, so nothing is logged before the clock says 5000.\<close>

lemma log_times_early:
  "\<forall>t \<in> set ts. unat t < 5000 \<Longrightarrow> log_times 0 ts = []"
proof (induction ts)
  case (Cons t ts)
  have "unat (saturating_sub t 0) < 5000" using Cons.prems by (simp add: unat_saturating_sub)
  then have "\<not> 5000 \<le> saturating_sub t 0" by (simp add: word_le_nat_alt)
  with Cons show ?case by (simp add: should_log_def)
qed simp

section \<open>The executable and the build stamp\<close>

text \<open>
  \<open>current_exe_name\<close>.  Windows gives the full path of the executable, a file, so \<open>Path::file_name\<close> is
  what follows its last separator.
\<close>

definition is_separator :: "u16 \<Rightarrow> bool" where
  "is_separator c \<longleftrightarrow> c = 0x5C \<or> c = 0x2F"

definition file_name :: "u16 list \<Rightarrow> u16 list option" where
  "file_name path =
     (let name = rev (takeWhile (\<lambda>c. \<not> is_separator c) (rev path)) in if name = [] then None else Some name)"

definition current_exe_name :: "u16 list option \<Rightarrow> rstr option" where
  "current_exe_name exe =
     (case exe of None \<Rightarrow> None | Some path \<Rightarrow> map_option utf16_lossy (file_name path))"

lemma file_name_last:
  assumes "name \<noteq> []" "\<forall>c \<in> set name. \<not> is_separator c" "is_separator c"
  shows "file_name (dir @ c # name) = Some name"
  using assms by (simp add: file_name_def takeWhile_append)

text \<open>\<open>build.rs\<close>: what \<open>git describe\<close> left behind when it could be run, and the lines for cargo.\<close>

record command_output =
  co_success :: bool
  co_stdout :: "u8 list"

definition git_describe :: "command_output option \<Rightarrow> rstr option" where
  "git_describe run =
     (case run of
        None \<Rightarrow> None
      | Some output \<Rightarrow>
          if \<not> co_success output then None
          else
            (case from_utf8 (co_stdout output) of
               None \<Rightarrow> None
             | Some version \<Rightarrow> let version = trim version in if version = [] then None else Some version))"

definition build_version :: "command_output option \<Rightarrow> rstr option \<Rightarrow> rstr" where
  "build_version run cargo_pkg_version =
     (case git_describe run of
        Some version \<Rightarrow> version
      | None \<Rightarrow> (case cargo_pkg_version of Some version \<Rightarrow> version | None \<Rightarrow> lit ''unknown''))"

text \<open>\<open>Path::join\<close> of the build host and its file system are arguments.\<close>

definition build_main ::
  "(rstr \<Rightarrow> rstr \<Rightarrow> rstr) \<Rightarrow> (rstr \<Rightarrow> bool) \<Rightarrow> command_output option \<Rightarrow> rstr option \<Rightarrow> rstr option \<Rightarrow> rstr list" where
  "build_main join exists run cargo_pkg_version manifest =
     [lit ''cargo:rustc-env=AFFINE_BUILD_VERSION='' @ build_version run cargo_pkg_version] @
     (case manifest of
        None \<Rightarrow> []
      | Some manifest \<Rightarrow>
          let git_dir = join (join (join manifest (lit ''..'')) (lit ''..'')) (lit ''.git'')
          in map (\<lambda>path. lit ''cargo:rerun-if-changed='' @ path)
               (filter exists (map (join git_dir) [lit ''HEAD'', lit ''packed-refs'']))) @
     [lit ''cargo:rerun-if-changed=build.rs'']"

lemma build_version_stamped:
  "build_version run pkg = [] \<longleftrightarrow> git_describe run = None \<and> pkg = Some []"
  by (auto simp: build_version_def git_describe_def Let_def lit_def split: option.splits if_splits)

section \<open>Properties\<close>

text \<open>
  C29. The log of a process: whichever functions are called and whatever the console answers, every line
  on stderr is coloured like the first one, every message without a NUL also goes to the debugger,
  and the console mode is changed at most once, to the mode that was read with the one bit added;
  lines are coloured only after such a change.
\<close>

theorem process_log_uniform:
  "let (cache, h) = log_run con (c # cs) (None, []); ansi = (cache = Some True) in
   stderr_lines h = map (log_stderr ansi) (c # cs) \<and>
   debug_strings h = List.map_filter log_debug (c # cs) \<and>
   modes_set h = map (\<lambda>(x, m). (x, m OR ENABLE_VIRTUAL_TERMINAL_PROCESSING)) (modes_read h) \<and>
   length (modes_set h) \<le> (if modes_read h = [] then 0 else 1) \<and>
   (if modes_set h = [] then \<not> ansi else True)"
proof -
  obtain tag msg where c: "log_call_args c = (tag, msg)" by (cases "log_call_args c")
  define g where "g = (case log_debug c of None \<Rightarrow> [] | Some line \<Rightarrow> [ConDebugString line])"
  obtain ansi g' where d: "detect_ansi con g = (ansi, g')" by (cases "detect_ansi con g")
  have run: "log_run con (c # cs) (None, []) = log_run con cs (Some ansi, g' @ [ConStderr (log_stderr ansi c)])"
    using d by (cases "fst (emit False tag msg)")
      (simp_all add: c emit_line_def ansi_enabled_def g_def log_debug_def log_stderr_def)
  have g: "stderr_lines g = []" "debug_strings g = (case log_debug c of None \<Rightarrow> [] | Some l \<Rightarrow> [l])"
    "modes_read g = []" "modes_set g = []"
    by (auto simp: g_def split: option.split)
  obtain ms where ms: "length ms \<le> 1" "modes_read g' = ms"
    "modes_set g' = map (\<lambda>(x, m). (x, m OR ENABLE_VIRTUAL_TERMINAL_PROCESSING)) ms" "ms = [] \<longrightarrow> \<not> ansi"
    using detect_ansi_shows(3) [OF d] g by auto
  obtain h where h: "log_run con cs (Some ansi, g' @ [ConStderr (log_stderr ansi c)]) = (Some ansi, h)"
    using log_run_decided by blast
  note rest = log_run_decided [of con cs ansi "g' @ [ConStderr (log_stderr ansi c)]", unfolded h snd_conv]
  show ?thesis
    unfolding run h Let_def split_conv
    using rest g ms detect_ansi_shows(1,2) [OF d]
    by (auto simp: map_filter_simps split: option.split)
qed

text \<open>
  The first five seconds: the process clock starts at the first \<open>tick_ms\<close> of the process, and while it
  shows less than 5000 ms no rate-limited line is logged, however often a scan fails.
\<close>

theorem scan_log_silent_at_start:
  "log_times 0 (takeWhile (\<lambda>t. unat t < 5000) (process_ticks inst n (None, 0))) = []"
  by (rule log_times_early) (auto dest: set_takeWhileD)

end
