(* ===== verification/Hardware_Probe.thy ===== *)
theory Hardware_Probe
  imports Mai2_Device
begin

unbundle bit_operations_syntax

text \<open>
  \<open>examples/mai2_hardware_probe.rs\<close>: the console tool that looks at a connected board.  It has its own
  copies of the vendor frame and touch report parsers; the theorems at the end compare them with the
  driver's.  The environment is the driver's \<open>os\<close> for \<open>hidapi\<close>, the monotonic clock \<open>Instant::now\<close> (in
  nanoseconds, as a function of what happened before) and the formatting of the two \<open>f64\<close> rates.
  Standard output is the list of the lines printed; \<open>None\<close> is a panic or a loop that does not end.
\<close>

section \<open>Constants\<close>

definition MAI2_PIDS :: "u16 list" where "MAI2_PIDS = [0x52A5, 0x52A6]"
definition USAGE_PAGE_BUTTONS :: u16 where "USAGE_PAGE_BUTTONS = 0xFFCA"
definition USAGE_BUTTONS :: u16 where "USAGE_BUTTONS = 0x0001"
definition USAGE_PAGE_VENDOR :: u16 where "USAGE_PAGE_VENDOR = 0xFFCA"
definition USAGE_VENDOR :: u16 where "USAGE_VENDOR = 0x0002"
definition USAGE_PAGE_TOUCH :: u16 where "USAGE_PAGE_TOUCH = 0xFF00"
definition USAGE_TOUCH :: u16 where "USAGE_TOUCH = 0x0031"
definition CMD_GET_BOARD_INFO :: u8 where "CMD_GET_BOARD_INFO = 0xF0"
definition CMD_GET_TOUCH_HID_STATS :: u8 where "CMD_GET_TOUCH_HID_STATS = 0x29"
definition VENDOR_REPORT_LEN :: nat where "VENDOR_REPORT_LEN = 65"
definition VENDOR_FRAME_LEN :: nat where "VENDOR_FRAME_LEN = 64"
definition TOUCH_REPORT_ID :: u8 where "TOUCH_REPORT_ID = 0x31"
definition TOUCH_REPORT_LEN :: nat where "TOUCH_REPORT_LEN = 64"
definition TOUCH_READ_BUF_LEN :: nat where "TOUCH_READ_BUF_LEN = 65"

lemmas probe_consts = CMD_GET_BOARD_INFO_def CMD_GET_TOUCH_HID_STATS_def VENDOR_REPORT_LEN_def
  VENDOR_FRAME_LEN_def TOUCH_REPORT_ID_def TOUCH_REPORT_LEN_def TOUCH_READ_BUF_LEN_def

section \<open>Arguments\<close>

text \<open>\<open>parse_duration\<close> in milliseconds; \<open>args\<close> are the arguments behind the program's name.\<close>

definition parse_duration :: "rstr list \<Rightarrow> nat" where
  "parse_duration args =
     foldl (\<lambda>duration_ms arg.
        case strip_prefix (lit ''--duration-ms='') arg of
          None \<Rightarrow> duration_ms
        | Some raw \<Rightarrow>
            (case u64_from_str raw of None \<Rightarrow> duration_ms | Some n \<Rightarrow> max n 100)) 3000 args"

definition probe_find_path :: "hid_info list \<Rightarrow> u16 \<Rightarrow> u16 \<Rightarrow> u16 \<Rightarrow> rstr option" where
  "probe_find_path devices pid usage_page usage =
     map_option hi_path (List.find (\<lambda>info. hi_vendor_id info = AFFINE_VID \<and> hi_product_id info = pid
       \<and> hi_usage_page info = usage_page \<and> hi_usage info = usage) devices)"

section \<open>Vendor frames\<close>

text \<open>The 65-byte report of \<open>send_vendor_frame\<close>, built as the code builds it, by index.\<close>

definition vendor_report :: "u8 \<Rightarrow> u8 list \<Rightarrow> u8 list option option" where
  "vendor_report cmd payload =
     (if length payload + 4 > VENDOR_FRAME_LEN then Some None
      else do {
        report \<leftarrow> set_at (replicate VENDOR_REPORT_LEN 0) 1 0xFF;
        report \<leftarrow> set_at report 2 cmd;
        report \<leftarrow> set_at report 3 (of_nat (length payload));
        let idx = 4 + length payload;
        head \<leftarrow> slice report 0 4;
        rest \<leftarrow> slice report idx (length report);
        let report = head @ payload @ rest;
        body \<leftarrow> slice report 1 idx;
        report \<leftarrow> set_at report idx (sum8 body);
        Some (Some report)
      })"

definition send_vendor_frame :: "os \<Rightarrow> rstr \<Rightarrow> u8 \<Rightarrow> u8 list \<Rightarrow> history \<Rightarrow> (bool \<times> history) option" where
  "send_vendor_frame os path cmd payload h = do {
     report \<leftarrow> vendor_report cmd payload;
     Some (case report of
         None \<Rightarrow> (False, h)
       | Some report \<Rightarrow>
           (case os_hid_write os h path report of None \<Rightarrow> False | Some n \<Rightarrow> n \<noteq> 0,
            h @ [EvHidWrite path report]))
   }"

fun position :: "u8 \<Rightarrow> u8 list \<Rightarrow> nat option" where
  "position b [] = None"
| "position b (x # xs) = (if x = b then Some 0 else map_option Suc (position b xs))"

text \<open>The outer option is a panic.\<close>

definition parse_vendor_frame :: "u8 list \<Rightarrow> u8 list option option" where
  "parse_vendor_frame report =
     (case position 0xFF report of
        None \<Rightarrow> Some None
      | Some start \<Rightarrow>
          if length report - start < 4 then Some None
          else do {
            len \<leftarrow> get_at report (start + 2);
            let total = 4 + unat len;
            if length report - start < total then Some None
            else do {
              frame \<leftarrow> slice report start (start + total);
              body \<leftarrow> slice frame 0 (total - 1);
              cs \<leftarrow> get_at frame (total - 1);
              if cs \<noteq> sum8 body then Some None else Some (Some frame)
            }
          })"

text \<open>The body of the reply loop: \<open>Some (Some frame)\<close> ends it, \<open>Some None\<close> reads on.\<close>

definition vendor_reply :: "u8 \<Rightarrow> u8 list \<Rightarrow> u8 list option option" where
  "vendor_reply cmd bytes =
     (if bytes = [] then Some None
      else do {
        r \<leftarrow> parse_vendor_frame bytes;
        Some (case r of None \<Rightarrow> None | Some frame \<Rightarrow> if get_at frame 1 = Some cmd then Some frame else None)
      })"

partial_function (option) reply_loop ::
  "os \<Rightarrow> clock \<Rightarrow> rstr \<Rightarrow> u8 \<Rightarrow> nat \<Rightarrow> history \<Rightarrow> (u8 list option \<times> history) option" where
  "reply_loop os now path cmd deadline h =
     (if deadline \<le> now h then Some (None, h @ [EvTick])
      else
        (case os_hid_read os (h @ [EvTick]) path VENDOR_REPORT_LEN of
           None \<Rightarrow> Some (None, h @ [EvTick, EvHidRead path VENDOR_REPORT_LEN])
         | Some bytes \<Rightarrow>
             (case vendor_reply cmd (take VENDOR_REPORT_LEN bytes) of
                None \<Rightarrow> None
              | Some reply \<Rightarrow>
                  (case reply of
                     Some frame \<Rightarrow> Some (Some frame, h @ [EvTick, EvHidRead path VENDOR_REPORT_LEN])
                   | None \<Rightarrow>
                       reply_loop os now path cmd deadline (h @ [EvTick, EvHidRead path VENDOR_REPORT_LEN])))))"

text \<open>\<open>timeout\<close> in nanoseconds.\<close>

definition request_vendor_frame ::
  "os \<Rightarrow> clock \<Rightarrow> rstr \<Rightarrow> u8 \<Rightarrow> u8 list \<Rightarrow> nat \<Rightarrow> history \<Rightarrow> (u8 list option \<times> history) option" where
  "request_vendor_frame os now path cmd payload timeout h = do {
     (sent, h) \<leftarrow> send_vendor_frame os path cmd payload h;
     if \<not> sent then Some (None, h)
     else reply_loop os now path cmd (now h + timeout) (h @ [EvTick])
   }"

definition probe_board_info :: "u8 list \<Rightarrow> rstr option" where
  "probe_board_info frame =
     (if length frame < 5 then Some (lit ''invalid'')
      else do {
        f1 \<leftarrow> get_at frame 1;
        if f1 \<noteq> CMD_GET_BOARD_INFO then Some (lit ''invalid'')
        else do {
          payload \<leftarrow> slice frame 3 (length frame - 1);
          let version_len = (case payload of [] \<Rightarrow> 0 | b # bs \<Rightarrow> unat b);
          if version_len = 0 \<or> 1 + version_len > length payload then Some (lit ''unknown'')
          else map_option utf8_lossy (slice payload 1 (1 + version_len))
        }
      })"

definition le_u32_at :: "u8 list \<Rightarrow> nat \<Rightarrow> nat option" where
  "le_u32_at payload offset = do {
     b0 \<leftarrow> get_at payload offset;
     b1 \<leftarrow> get_at payload (offset + 1);
     b2 \<leftarrow> get_at payload (offset + 2);
     b3 \<leftarrow> get_at payload (offset + 3);
     Some (nat_of_le [b0, b1, b2, b3])
   }"

text \<open>The fields of the statistics frame in the order they are printed.\<close>

definition touch_hid_stats :: "u8 list \<Rightarrow> nat list option option" where
  "touch_hid_stats frame =
     (if length frame < 52 then Some None
      else do {
        f1 \<leftarrow> get_at frame 1;
        f2 \<leftarrow> get_at frame 2;
        if f1 \<noteq> CMD_GET_TOUCH_HID_STATS \<or> f2 \<noteq> 48 then Some None
        else do {
          payload \<leftarrow> slice frame 3 51;
          frame_start \<leftarrow> le_u32_at payload 0;
          part_ok \<leftarrow> le_u32_at payload 4;
          busy_retry \<leftarrow> le_u32_at payload 8;
          not_ready \<leftarrow> le_u32_at payload 12;
          send_fail \<leftarrow> le_u32_at payload 16;
          stale_drop \<leftarrow> le_u32_at payload 20;
          interval \<leftarrow> le_u32_at payload 24;
          max_interval \<leftarrow> le_u32_at payload 28;
          dropped \<leftarrow> le_u32_at payload 40;
          pending \<leftarrow> get_at payload 44;
          part_index \<leftarrow> get_at payload 45;
          in_ready \<leftarrow> get_at payload 46;
          Some (Some [frame_start, part_ok, busy_retry, not_ready, send_fail, stale_drop, interval,
            max_interval, dropped, unat pending, unat part_index, unat in_ready])
        }
      })"

definition print_touch_hid_stats :: "rstr \<Rightarrow> u8 list \<Rightarrow> rstr option" where
  "print_touch_hid_stats label frame = map_option (\<lambda>stats.
     case stats of
       None \<Rightarrow> lit ''  touch_hid_stats=invalid''
     | Some ns \<Rightarrow> lit ''  touch_hid_stats['' @ label @ lit '']:'' @
         concat (map (\<lambda>(name, n, unit). lit '' '' @ lit name @ lit ''='' @ show_dec n @ lit unit)
           (zip [''frame_start'', ''part_ok'', ''busy_retry'', ''not_ready'', ''send_fail'', ''stale_drop'',
                 ''interval'', ''max_interval'', ''dropped'', ''pending'', ''part_index'', ''in_ready'']
             (zip ns ['''', '''', '''', '''', '''', '''', ''ms'', ''ms'', '''', '''', '''', '''']))))
     (touch_hid_stats frame)"

definition second_ns :: nat where "second_ns = 1000000000"

definition probe_vendor ::
  "os \<Rightarrow> clock \<Rightarrow> rstr \<Rightarrow> rstr \<Rightarrow> history \<Rightarrow> (rstr list \<times> history) option" where
  "probe_vendor os now label path h =
     (let ok = os_hid_open os h path; h = h @ [EvHidOpen path ok]; first = lit ''  vendor_hid='' @ path
      in if \<not> ok then Some ([first, lit ''  vendor_open=failed''], h)
         else do {
           (reply, h) \<leftarrow> request_vendor_frame os now path CMD_GET_BOARD_INFO [] second_ns h;
           info \<leftarrow> (case reply of
               Some frame \<Rightarrow> map_option (\<lambda>v. lit ''  board_info='' @ v) (probe_board_info frame)
             | None \<Rightarrow> Some (lit ''  board_info=timeout''));
           (reply, h) \<leftarrow> request_vendor_frame os now path CMD_GET_TOUCH_HID_STATS [] second_ns h;
           stats \<leftarrow> (case reply of
               Some frame \<Rightarrow> print_touch_hid_stats label frame
             | None \<Rightarrow> Some (lit ''  touch_hid_stats=timeout''));
           Some ([first, info, stats], h @ [EvHidClose path])
         })"

section \<open>The touch stream\<close>

record touch_part =
  pt_stream_seq :: u8
  pt_part_index :: u8
  pt_touch_bits :: "u8 list"
  pt_dropped_frames :: u16

definition parse_touch_report :: "u8 list \<Rightarrow> touch_part option option" where
  "parse_touch_report report =
     (case (if report \<noteq> [] \<and> hd report = TOUCH_REPORT_ID then Some 0
            else if length report > 1 \<and> report ! 1 = TOUCH_REPORT_ID then Some 1
            else None) of
        None \<Rightarrow> Some None
      | Some start \<Rightarrow>
          if length report - start < TOUCH_REPORT_LEN then Some None
          else do {
            data \<leftarrow> slice report start (start + TOUCH_REPORT_LEN);
            d1 \<leftarrow> get_at data 1;
            d2 \<leftarrow> get_at data 2;
            d3 \<leftarrow> get_at data 3;
            d4 \<leftarrow> get_at data 4;
            d5 \<leftarrow> get_at data 5;
            d12 \<leftarrow> get_at data 12;
            if d1 \<noteq> 1 \<or> d2 \<noteq> 1 \<or> d5 \<noteq> 2 \<or> d4 \<ge> 2 \<or> d12 AND 0x04 = 0 then Some None
            else do {
              touch_bits \<leftarrow> slice data 50 55;
              d55 \<leftarrow> get_at data 55;
              d56 \<leftarrow> get_at data 56;
              Some (Some \<lparr>pt_stream_seq = d3, pt_part_index = d4, pt_touch_bits = touch_bits,
                          pt_dropped_frames = of_nat (nat_of_le [d55, d56])\<rparr>)
            }
          })"

text \<open>The probe's \<open>pack_legacy_touch_bits\<close> is the driver's, line for line.\<close>

definition probe_pack_touch_bits :: "u8 list \<Rightarrow> u8 list" where
  "probe_pack_touch_bits touch_bits = pack_legacy_touch_bits touch_bits"

record touch_probe_stats =
  ts_packets :: u64
  ts_part0 :: u64
  ts_part1 :: u64
  ts_complete_frames :: u64
  ts_nonzero_packets :: u64
  ts_dropped_frames :: u16
  ts_last_seq :: u8
  ts_last_touch :: "u8 list"
  ts_seen_mask :: u8
  ts_active_seq :: u8

definition touch_probe_stats_default :: touch_probe_stats where
  "touch_probe_stats_default = \<lparr>ts_packets = 0, ts_part0 = 0, ts_part1 = 0, ts_complete_frames = 0,
     ts_nonzero_packets = 0, ts_dropped_frames = 0, ts_last_seq = 0, ts_last_touch = replicate 7 0,
     ts_seen_mask = 0, ts_active_seq = 0\<rparr>"

definition count_part :: "touch_part \<Rightarrow> touch_probe_stats \<Rightarrow> touch_probe_stats" where
  "count_part part stats =
     (let stats = stats\<lparr>ts_packets := ts_packets stats + 1\<rparr>;
          stats = (if pt_part_index part = 0 then stats\<lparr>ts_part0 := ts_part0 stats + 1\<rparr>
                   else if pt_part_index part = 1 then stats\<lparr>ts_part1 := ts_part1 stats + 1\<rparr> else stats);
          stats = (if list_ex (\<lambda>byte. byte \<noteq> 0) (pt_touch_bits part)
                   then stats\<lparr>ts_nonzero_packets := ts_nonzero_packets stats + 1\<rparr> else stats);
          stats = stats\<lparr>ts_dropped_frames := pt_dropped_frames part, ts_last_seq := pt_stream_seq part,
                    ts_last_touch := probe_pack_touch_bits (pt_touch_bits part)\<rparr>;
          stats = (if ts_seen_mask stats = 0 \<or> ts_active_seq stats \<noteq> pt_stream_seq part
                   then stats\<lparr>ts_active_seq := pt_stream_seq part, ts_seen_mask := 0\<rparr> else stats);
          stats = stats\<lparr>ts_seen_mask := ts_seen_mask stats OR push_bit (unat (pt_part_index part)) 1\<rparr>
      in if ts_seen_mask stats = 0x03
         then stats\<lparr>ts_complete_frames := ts_complete_frames stats + 1, ts_seen_mask := 0\<rparr> else stats)"

definition count_report :: "u8 list \<Rightarrow> touch_probe_stats \<Rightarrow> touch_probe_stats option" where
  "count_report bytes stats =
     (if bytes = [] then Some stats
      else do {
        part \<leftarrow> parse_touch_report bytes;
        Some (case part of None \<Rightarrow> stats | Some part \<Rightarrow> count_part part stats)
      })"

partial_function (option) touch_loop ::
  "os \<Rightarrow> clock \<Rightarrow> rstr \<Rightarrow> nat \<Rightarrow> touch_probe_stats \<Rightarrow> history \<Rightarrow> (touch_probe_stats \<times> history) option" where
  "touch_loop os now path deadline stats h =
     (if deadline \<le> now h then Some (stats, h @ [EvTick])
      else
        (case os_hid_read os (h @ [EvTick]) path TOUCH_READ_BUF_LEN of
           None \<Rightarrow> Some (stats, h @ [EvTick, EvHidRead path TOUCH_READ_BUF_LEN])
         | Some bytes \<Rightarrow>
             (case count_report (take TOUCH_READ_BUF_LEN bytes) stats of
                None \<Rightarrow> None
              | Some stats \<Rightarrow> touch_loop os now path deadline stats (h @ [EvTick, EvHidRead path TOUCH_READ_BUF_LEN]))))"

definition touch_stream_line :: "(u64 \<Rightarrow> nat \<Rightarrow> rstr) \<Rightarrow> rstr \<Rightarrow> nat \<Rightarrow> touch_probe_stats \<Rightarrow> rstr" where
  "touch_stream_line rate label elapsed stats =
     lit ''  touch_stream['' @ label @ lit '']: packets='' @ show_dec (unat (ts_packets stats)) @
     lit '' packet_hz='' @ rate (ts_packets stats) elapsed @
     lit '' complete_frames='' @ show_dec (unat (ts_complete_frames stats)) @
     lit '' frame_hz='' @ rate (ts_complete_frames stats) elapsed @
     lit '' part0='' @ show_dec (unat (ts_part0 stats)) @ lit '' part1='' @ show_dec (unat (ts_part1 stats)) @
     lit '' nonzero_packets='' @ show_dec (unat (ts_nonzero_packets stats)) @
     lit '' dropped='' @ show_dec (unat (ts_dropped_frames stats)) @
     lit '' last_seq='' @ show_dec (unat (ts_last_seq stats)) @ lit '' last_touch='' @
     show_HEX 2 (unat (ts_last_touch stats ! 0)) @
     concat (map (\<lambda>b. lit '' '' @ show_HEX 2 (unat b)) (take 6 (drop 1 (ts_last_touch stats))))"

definition probe_touch ::
  "os \<Rightarrow> clock \<Rightarrow> (u64 \<Rightarrow> nat \<Rightarrow> rstr) \<Rightarrow> rstr \<Rightarrow> rstr \<Rightarrow> nat \<Rightarrow> history \<Rightarrow> (rstr list \<times> history) option" where
  "probe_touch os now rate label path duration h =
     (let ok = os_hid_open os h path; h = h @ [EvHidOpen path ok]; first = lit ''  touch_hid='' @ path
      in if \<not> ok then Some ([first, lit ''  touch_open=failed''], h)
         else
           let started = now h
           in do {
             (stats, h) \<leftarrow> touch_loop os now path (started + duration) touch_probe_stats_default (h @ [EvTick]);
             Some ([first, touch_stream_line rate label (now h - started) stats], h @ [EvTick, EvHidClose path])
           })"

section \<open>The program\<close>

definition probe_pid ::
  "os \<Rightarrow> clock \<Rightarrow> (u64 \<Rightarrow> nat \<Rightarrow> rstr) \<Rightarrow> hid_info list \<Rightarrow> nat \<Rightarrow> u16 \<Rightarrow> history \<Rightarrow> (rstr list \<times> history) option" where
  "probe_pid os now rate devices duration pid h =
     (let label = (if pid = 0x52A5 then lit ''P1'' else lit ''P2'');
          vendor_path = probe_find_path devices pid USAGE_PAGE_VENDOR USAGE_VENDOR;
          touch_path = probe_find_path devices pid USAGE_PAGE_TOUCH USAGE_TOUCH;
          button_path = probe_find_path devices pid USAGE_PAGE_BUTTONS USAGE_BUTTONS
      in if vendor_path = None \<and> touch_path = None \<and> button_path = None then Some ([], h)
         else do {
           let first = [label @ lit '': pid='' @ show_HEX 4 (unat pid),
             lit ''  buttons_hid='' @ (case button_path of Some path \<Rightarrow> path | None \<Rightarrow> lit ''missing'')];
           (vendor, h) \<leftarrow> (case vendor_path of
               Some path \<Rightarrow> probe_vendor os now label path h
             | None \<Rightarrow> Some ([lit ''  vendor_hid=missing''], h));
           (touch, h) \<leftarrow> (case touch_path of
               Some path \<Rightarrow> probe_touch os now rate label path duration h
             | None \<Rightarrow> Some ([lit ''  touch_hid=missing''], h));
           Some (first @ vendor @ touch, h)
         })"

fun probe_pids ::
  "os \<Rightarrow> clock \<Rightarrow> (u64 \<Rightarrow> nat \<Rightarrow> rstr) \<Rightarrow> hid_info list \<Rightarrow> nat \<Rightarrow> u16 list \<Rightarrow> history \<Rightarrow> (rstr list \<times> history) option" where
  "probe_pids os now rate devices duration [] h = Some ([], h)"
| "probe_pids os now rate devices duration (pid # pids) h = do {
     (out, h) \<leftarrow> probe_pid os now rate devices duration pid h;
     (rest, h) \<leftarrow> probe_pids os now rate devices duration pids h;
     Some (out @ rest, h)
   }"

text \<open>
  \<open>main\<close> behind its listing of the devices.  The device list is the one \<open>HidApi::new\<close> took; a pid was
  found exactly when it printed something.
\<close>

definition probe_main ::
  "os \<Rightarrow> clock \<Rightarrow> (u64 \<Rightarrow> nat \<Rightarrow> rstr) \<Rightarrow> rstr list \<Rightarrow> history \<Rightarrow> (rstr list \<times> history) option" where
  "probe_main os now rate args h =
     (let duration_ms = parse_duration args; ok = os_hid_new os h; h = h @ [EvHidNew ok]
      in if \<not> ok then None
         else do {
           (out, h) \<leftarrow> probe_pids os now rate (os_hid_devices os h) (duration_ms * 1000000) MAI2_PIDS h;
           Some ([lit ''mai2 hardware probe duration='' @ show_dec duration_ms @ lit ''ms''] @
             (if out = [] then [lit ''no AFF1 mai2 HID interfaces found''] else out), h)
         })"

section \<open>No panics\<close>

lemma position_Some: "position b xs = Some i \<Longrightarrow> i < length xs \<and> xs ! i = b \<and> b \<notin> set (take i xs)"
  by (induction xs arbitrary: i) (auto split: if_splits)

lemma position_skip: "b \<notin> set ys \<Longrightarrow> position b (ys @ b # zs) = Some (length ys)"
  by (induction ys) auto

lemma parse_vendor_frame_eq:
  "parse_vendor_frame report =
     Some (case position 0xFF report of
         None \<Rightarrow> None
       | Some start \<Rightarrow>
           if length report - start < 4 then None
           else
             let total = 4 + unat (report ! (start + 2)); frame = take total (drop start report)
             in if length report - start < total \<or> frame ! (total - 1) \<noteq> sum8 (take (total - 1) frame) then None
                else Some frame)"
proof (cases "position 0xFF report")
  case None
  then show ?thesis by (simp add: parse_vendor_frame_def)
next
  case (Some start)
  then have "start < length report" using position_Some [of _ report] by blast
  with Some show ?thesis
    by (auto simp: parse_vendor_frame_def access_simps Let_def)
qed

lemma parse_vendor_frame_at:
  assumes pos: "position 0xFF bytes = Some start" and rest: "drop start bytes = fr @ pad"
    and frame: "length fr = 4 + unat (fr ! 2)" "fr ! (3 + unat (fr ! 2)) = sum8 (take (3 + unat (fr ! 2)) fr)"
  shows "parse_vendor_frame bytes = Some (Some fr)"
proof -
  have start: "start \<le> length bytes" using position_Some [OF pos] by simp
  have len: "length bytes - start = length fr + length pad" using arg_cong [OF rest, of length] by simp
  have "bytes ! (start + 2) = (fr @ pad) ! 2" using start by (simp flip: rest)
  then have nth: "bytes ! (start + 2) = fr ! 2" using frame(1) by (simp add: nth_append)
  define n where "n = unat (fr ! 2)"
  have tot: "length fr = 4 + n" "fr ! (3 + n) = sum8 (take (3 + n) fr)" using frame by (simp_all add: n_def)
  have total: "take (4 + n) (fr @ pad) = fr" "4 + n - 1 = 3 + n" using tot(1) by simp_all
  show ?thesis
    unfolding parse_vendor_frame_eq pos option.case Let_def nth n_def [symmetric] len rest total
    using tot by simp
qed

lemma vendor_reply_frame:
  "vendor_reply cmd bytes \<noteq> None \<and>
     (\<forall>frame. vendor_reply cmd bytes = Some (Some frame) \<longrightarrow> 4 \<le> length frame \<and> frame ! 1 = cmd)"
  by (auto simp: vendor_reply_def parse_vendor_frame_eq get_at_Some_iff Let_def split: option.splits if_splits)

lemma vendor_report_eq: "vendor_report cmd payload = Some (hid_frame_report cmd payload)"
proof (cases "length payload + 4 > 64")
  case True
  then show ?thesis by (simp add: vendor_report_def hid_frame_report_def probe_consts mai2_frame_consts)
next
  case False
  let ?n = "of_nat (length payload) :: u8"
  have list: "replicate 65 (0 :: u8) = [0, 0, 0, 0] @ replicate 61 0" by (simp add: numeral_eq_Suc)
  have set3: "[0, 0, 0, 0 :: u8][1 := 0xFF, 2 := cmd, 3 := ?n] = [0, 0xFF, cmd, ?n]" by (simp add: numeral_eq_Suc)
  let ?r = "[0, 0xFF, cmd, ?n] @ payload @ replicate (61 - length payload) 0"
  have upd: "?r[4 + length payload := c] = [0, 0xFF, cmd, ?n] @ payload @ [c] @ replicate (60 - length payload) 0" for c
  proof -
    have "61 - length payload = Suc (60 - length payload)" using False by simp
    then show ?thesis by (simp add: list_update_append)
  qed
  have rest: "drop (4 + length payload) (0 # 0xFF # cmd # ?n # replicate 61 0) = replicate (61 - length payload) 0"
    using drop_append [of "4 + length payload" "[0, 0xFF, cmd, ?n]" "replicate 61 0"] by simp
  have body: "take (3 + length payload) (0xFF # cmd # ?n # payload @ xs) = 0xFF # cmd # ?n # payload" for xs
    by (simp add: numeral_3_eq_3)
  have "4 < 65 - length payload" using False by linarith
  then have "vendor_report cmd payload = Some (Some (?r[4 + length payload := sum8 ([0xFF, cmd, ?n] @ payload)]))"
    using False by (simp add: vendor_report_def probe_consts set_at_def slice_def list Let_def rest body)
  also have "\<dots> = Some (hid_frame_report cmd payload)"
    using False by (simp only: upd) (simp add: hid_frame_report_def mai2_frame_consts Let_def)
  finally show ?thesis .
qed

lemma probe_board_info_total: "4 \<le> length frame \<Longrightarrow> \<exists>v. probe_board_info frame = Some v"
  by (auto simp: probe_board_info_def access_simps Let_def split: list.split)

lemma touch_hid_stats_total: "\<exists>v. touch_hid_stats frame = Some v"
  by (auto simp: touch_hid_stats_def le_u32_at_def access_simps)

lemma parse_touch_report_total: "parse_touch_report report \<noteq> None"
  by (auto simp: parse_touch_report_def access_simps TOUCH_REPORT_LEN_def split: option.splits)

lemma count_report_total: "\<exists>s. count_report bytes stats = Some s"
  using parse_touch_report_total [of bytes] by (auto simp: count_report_def)

section \<open>The loops end\<close>

lemma reply_loop_returns:
  assumes "clock_runs now"
  shows "\<exists>r h'. reply_loop os now path cmd deadline h = Some (r, h') \<and>
    (\<forall>frame. r = Some frame \<longrightarrow> 4 \<le> length frame \<and> frame ! 1 = cmd)"
  using assms
proof (induction h rule: deadline_induct [where deadline = deadline])
  case (over h)
  then show ?case by (subst reply_loop.simps) simp
next
  case (waiting h)
  let ?h = "h @ [EvTick, EvHidRead path VENDOR_REPORT_LEN]"
  show ?case
  proof (cases "os_hid_read os (h @ [EvTick]) path VENDOR_REPORT_LEN")
    case None
    with waiting(1) show ?thesis by (subst reply_loop.simps) simp
  next
    case (Some bytes)
    obtain reply where "vendor_reply cmd (take VENDOR_REPORT_LEN bytes) = Some reply"
      using vendor_reply_frame [of cmd "take VENDOR_REPORT_LEN bytes"] by blast
    with waiting(1) waiting(2) [of ?h] Some vendor_reply_frame [of cmd "take VENDOR_REPORT_LEN bytes"] show ?thesis
      by (subst reply_loop.simps) (cases reply, auto)
  qed
qed

lemma request_returns:
  assumes "clock_runs now"
  shows "\<exists>r h'. request_vendor_frame os now path cmd payload timeout h = Some (r, h') \<and>
    (\<forall>frame. r = Some frame \<longrightarrow> 4 \<le> length frame \<and> frame ! 1 = cmd)"
proof -
  obtain ok h1 where s: "send_vendor_frame os path cmd payload h = Some (ok, h1)"
    by (cases "hid_frame_report cmd payload") (auto simp: send_vendor_frame_def vendor_report_eq)
  show ?thesis
    using s reply_loop_returns [OF assms] by (cases ok) (simp_all add: request_vendor_frame_def)
qed

lemma touch_loop_returns:
  assumes "clock_runs now"
  shows "\<exists>r. touch_loop os now path deadline stats h = Some r"
  using assms
proof (induction h arbitrary: stats rule: deadline_induct [where deadline = deadline])
  case (over h)
  then show ?case by (subst touch_loop.simps) simp
next
  case (waiting h)
  show ?case
  proof (cases "os_hid_read os (h @ [EvTick]) path TOUCH_READ_BUF_LEN")
    case None
    with waiting(1) show ?thesis by (subst touch_loop.simps) simp
  next
    case (Some bytes)
    obtain s where "count_report (take TOUCH_READ_BUF_LEN bytes) stats = Some s"
      using count_report_total by blast
    with waiting(1) Some waiting(2) [of "h @ [EvTick, EvHidRead path TOUCH_READ_BUF_LEN]" s] show ?thesis
      by (subst touch_loop.simps) simp
  qed
qed

lemma probe_vendor_returns: "clock_runs now \<Longrightarrow> \<exists>r. probe_vendor os now label path h = Some r"
proof -
  assume clk: "clock_runs now"
  let ?h = "h @ [EvHidOpen path (os_hid_open os h path)]"
  obtain r1 h1 where r1: "request_vendor_frame os now path CMD_GET_BOARD_INFO [] second_ns ?h = Some (r1, h1)"
      "\<forall>frame. r1 = Some frame \<longrightarrow> 4 \<le> length frame"
    using request_returns [OF clk] by blast
  obtain r2 h2 where r2: "request_vendor_frame os now path CMD_GET_TOUCH_HID_STATS [] second_ns h1 = Some (r2, h2)"
    using request_returns [OF clk] by blast
  have info: "\<exists>v. (case r1 of Some frame \<Rightarrow> map_option (\<lambda>v. lit ''  board_info='' @ v) (probe_board_info frame)
      | None \<Rightarrow> Some (lit ''  board_info=timeout'')) = Some v"
    using r1(2) probe_board_info_total by (cases r1) fastforce+
  have stats: "\<exists>v. (case r2 of Some frame \<Rightarrow> print_touch_hid_stats label frame
      | None \<Rightarrow> Some (lit ''  touch_hid_stats=timeout'')) = Some v"
    using touch_hid_stats_total by (cases r2) (auto simp: print_touch_hid_stats_def)
  from info stats r1(1) r2 show ?thesis by (auto simp: probe_vendor_def Let_def)
qed

lemma probe_touch_returns: "clock_runs now \<Longrightarrow> \<exists>r. probe_touch os now rate label path duration h = Some r"
proof -
  assume clk: "clock_runs now"
  let ?h = "h @ [EvHidOpen path (os_hid_open os h path)]"
  obtain stats h2 where
    "touch_loop os now path (now ?h + duration) touch_probe_stats_default (?h @ [EvTick]) = Some (stats, h2)"
    using touch_loop_returns [OF clk] by (metis surj_pair)
  then show ?thesis by (cases "os_hid_open os h path") (simp_all add: probe_touch_def Let_def)
qed

lemma probe_pids_returns: "clock_runs now \<Longrightarrow> \<exists>r. probe_pids os now rate devices duration pids h = Some r"
proof (induction pids arbitrary: h)
  case (Cons pid pids)
  define label where "label = (if pid = 0x52A5 then lit ''P1'' else lit ''P2'')"
  obtain v1 h1 where v: "(case probe_find_path devices pid USAGE_PAGE_VENDOR USAGE_VENDOR of
      Some path \<Rightarrow> probe_vendor os now label path h
    | None \<Rightarrow> Some ([lit ''  vendor_hid=missing''], h)) = Some (v1, h1)"
    using probe_vendor_returns [OF Cons.prems] by (fastforce split: option.split)
  obtain t1 h2 where t: "(case probe_find_path devices pid USAGE_PAGE_TOUCH USAGE_TOUCH of
      Some path \<Rightarrow> probe_touch os now rate label path duration h1
    | None \<Rightarrow> Some ([lit ''  touch_hid=missing''], h1)) = Some (t1, h2)"
    using probe_touch_returns [OF Cons.prems] by (fastforce split: option.split)
  have one: "\<exists>r. probe_pid os now rate devices duration pid h = Some r"
    unfolding probe_pid_def Let_def label_def [symmetric] by (simp add: v t)
  then obtain out g where o1: "probe_pid os now rate devices duration pid h = Some (out, g)" by auto
  obtain rest g2 where "probe_pids os now rate devices duration pids g = Some (rest, g2)"
    using Cons.IH [OF Cons.prems, of g] by auto
  with o1 show ?case by simp
qed simp

section \<open>The probe's parser and the driver's\<close>

text \<open>Where the report proper starts, and the byte of it that only the driver looks at.\<close>

definition report_start :: "u8 list \<Rightarrow> nat" where
  "report_start r = (if r \<noteq> [] \<and> hd r = 0x31 then 0 else 1)"

definition report_state :: "u8 list \<Rightarrow> u8" where
  "report_state r = r ! (report_start r + 7)"

definition driver_part :: "touch_part \<Rightarrow> touch_hid_part" where
  "driver_part p = \<lparr>tp_stream_seq = pt_stream_seq p, tp_part_index = pt_part_index p, tp_part_count = 2,
     tp_touch_bits = pt_touch_bits p\<rparr>"

lemma parse_touch_agree:
  "parse_touch_hid_part r =
     Some (case the (parse_touch_report r) of
         None \<Rightarrow> None
       | Some p \<Rightarrow> if 1 \<le> unat (report_state r) \<and> unat (report_state r) \<le> 17 then Some (driver_part p) else None)"
proof -
  define found where "found = (if r \<noteq> [] \<and> hd r = 0x31 then Some 0
    else if length r > 1 \<and> r ! 1 = 0x31 then Some (1 :: nat) else None)"
  note parsers = parse_touch_hid_part_def [of r] parse_touch_report_def [of r]
  note ids = MAI2_TOUCH_HID_REPORT_ID_def TOUCH_REPORT_ID_def
  have state: "(x = 0 \<or> x > 17) = (\<not> (1 \<le> unat x \<and> unat x \<le> 17))" for x :: u8
    by (auto simp: word_less_nat_alt unat_eq_zero Suc_le_eq)
  show ?thesis
  proof (cases "found = None \<or> length r - the found < 64")
    case True
    then show ?thesis
      unfolding parsers ids found_def [symmetric]
      by (cases found) (simp_all add: MAI2_TOUCH_HID_REPORT_LEN_def TOUCH_REPORT_LEN_def)
  next
    case False
    then obtain start where start: "found = Some start" "64 \<le> length r - start" by auto
    then have report: "report_start r = start"
      by (auto simp: found_def report_start_def split: if_splits)
    define d where "d = take 64 (drop start r)"
    have len: "length d = 64" "start + 64 \<le> length r" using start(2) by (simp_all add: d_def)
    have cut: "slice r start (start + 64) = Some d" using len by (simp add: slice_def d_def)
    have seven: "report_state r = d ! 7" using len by (simp add: report_state_def report d_def)
    have hid: "parse_touch_hid_part r = Some (if d ! 1 \<noteq> 1 \<or> d ! 2 \<noteq> 1 \<or> d ! 5 \<noteq> 2 \<or> d ! 4 \<ge> d ! 5
        \<or> d ! 7 = 0 \<or> d ! 7 > 17 \<or> d ! 12 AND 0x04 = 0 then None
        else Some \<lparr>tp_stream_seq = d ! 3, tp_part_index = d ! 4, tp_part_count = d ! 5,
          tp_touch_bits = take 5 (drop 50 d)\<rparr>)"
      unfolding parsers ids found_def [symmetric]
      using start(2) len(1)
      by (simp add: start(1) cut access_simps MAI2_TOUCH_HID_REPORT_LEN_def MAI2_TOUCH_HID_PART_COUNT_def)
    have probe: "parse_touch_report r = Some (if d ! 1 \<noteq> 1 \<or> d ! 2 \<noteq> 1 \<or> d ! 5 \<noteq> 2 \<or> d ! 4 \<ge> 2
        \<or> d ! 12 AND 0x04 = 0 then None
        else Some \<lparr>pt_stream_seq = d ! 3, pt_part_index = d ! 4, pt_touch_bits = take 5 (drop 50 d),
          pt_dropped_frames = of_nat (nat_of_le [d ! 55, d ! 56])\<rparr>)"
      unfolding parsers ids found_def [symmetric]
      using start(2) len(1)
      by (simp add: start(1) cut access_simps TOUCH_REPORT_LEN_def)
    show ?thesis
      unfolding hid probe seven
      using state [of "d ! 7"] by (auto simp: driver_part_def)
  qed
qed

fun count_reports :: "u8 list list \<Rightarrow> touch_probe_stats \<Rightarrow> touch_probe_stats option" where
  "count_reports [] stats = Some stats"
| "count_reports (r # rs) stats = do { stats \<leftarrow> count_report r stats; count_reports rs stats }"

text \<open>The probe's counter of complete frames is an assembler.\<close>

definition as_assembler :: "touch_probe_stats \<Rightarrow> touch_hid_assembler \<Rightarrow> bool" where
  "as_assembler stats a \<longleftrightarrow> ts_seen_mask stats = ta_part_mask a \<and>
     (ta_part_mask a = 0 \<or> ts_active_seq stats = ta_stream_seq a)"

lemma count_part_assembler:
  assumes "as_assembler stats a" "part_ok (driver_part p)"
  shows "as_assembler (count_part p stats) (fst (assembler_push a (driver_part p))) \<and>
    ts_complete_frames (count_part p stats) =
      ts_complete_frames stats + (if snd (assembler_push a (driver_part p)) = None then 0 else 1) \<and>
    (\<forall>t. snd (assembler_push a (driver_part p)) = Some t \<longrightarrow> ts_last_touch (count_part p stats) = t)"
proof -
  have idx: "\<not> 2 \<le> pt_part_index p" using assms(2) by (simp add: part_ok_def driver_part_def linorder_not_le)
  have three: "push_bit (unat (2 :: u8)) (1 :: u8) - 1 = 3" by simp
  show ?thesis
    using assms(1) idx
    by (auto simp: as_assembler_def count_part_def assembler_push_def driver_part_def Let_def three
        MAI2_TOUCH_HID_PART_COUNT_def probe_pack_touch_bits_def)
qed

lemma count_reports_assembler:
  assumes "as_assembler stats a" "\<forall>r \<in> set rs. 1 \<le> unat (report_state r) \<and> unat (report_state r) \<le> 17"
  shows "\<exists>stats' a' ts. count_reports rs stats = Some stats' \<and> touch_hid_reports a rs = Some (a', ts) \<and>
    ts_complete_frames stats' = ts_complete_frames stats + of_nat (length ts)"
  using assms
proof (induction rs arbitrary: stats a)
  case (Cons r rs)
  obtain q where q: "parse_touch_report r = Some q" using parse_touch_report_total by blast
  show ?case
  proof (cases q)
    case None
    then have "count_report r stats = Some stats" "touch_hid_report a r = Some (a, None)"
      using q parse_touch_agree [of r] by (auto simp: count_report_def touch_hid_report_def)
    with Cons show ?thesis by fastforce
  next
    case (Some p)
    then have d: "parse_touch_hid_part r = Some (Some (driver_part p))"
      using q parse_touch_agree [of r] Cons.prems(2) by simp
    then have ok: "part_ok (driver_part p)" using parse_touch_hid_part_ok [of r] by simp
    obtain a1 t where a1: "assembler_push a (driver_part p) = (a1, t)" by (cases "assembler_push a (driver_part p)")
    have ne: "r \<noteq> []" using q Some by (auto simp: parse_touch_report_def)
    note one = count_part_assembler [OF Cons.prems(1) ok, unfolded a1 fst_conv snd_conv]
    obtain stats' a' ts where rest: "count_reports rs (count_part p stats) = Some stats'"
      "touch_hid_reports a1 rs = Some (a', ts)"
      "ts_complete_frames stats' = ts_complete_frames (count_part p stats) + of_nat (length ts)"
      using Cons.IH [of "count_part p stats" a1] one Cons.prems(2) by auto
    have "count_reports (r # rs) stats = Some stats'" "touch_hid_reports a (r # rs) = Some (a', opt_list t @ ts)"
      using q Some ne d a1 rest by (simp_all add: count_report_def touch_hid_report_def)
    moreover have "ts_complete_frames stats' = ts_complete_frames stats + of_nat (length (opt_list t @ ts))"
      using one rest(3) by (cases t) simp_all
    ultimately show ?thesis by blast
  qed
qed simp

section \<open>Properties\<close>

text \<open>
  The probe sees more than the driver: it accepts every touch report the driver accepts and reads the
  same stream number, part and touch bits out of it, and the reports it accepts beyond those are
  exactly the ones whose eighth byte is not between 1 and 17.
\<close>

theorem probe_accepts_what_driver_drops:
  "\<exists>q. parse_touch_report r = Some q \<and>
     parse_touch_hid_part r = Some (case q of
         None \<Rightarrow> None
       | Some p \<Rightarrow>
           if 1 \<le> unat (report_state r) \<and> unat (report_state r) \<le> 17
           then Some \<lparr>tp_stream_seq = pt_stream_seq p, tp_part_index = pt_part_index p, tp_part_count = 2,
                      tp_touch_bits = pt_touch_bits p\<rparr>
           else None)"
proof -
  obtain q where q: "parse_touch_report r = Some q" using parse_touch_report_total by blast
  with parse_touch_agree [of r] show ?thesis by (auto simp: driver_part_def split: option.splits)
qed

text \<open>
  C37. The frame rate the probe prints is the driver's: on any stream of reports whose eighth byte is in
  range, damaged or incomplete as they may be, the probe does not panic and its count of complete
  frames is the number of touch frames the driver's thread assembles from the same reports.
\<close>

theorem probe_counts_driver_frames:
  assumes "\<forall>r \<in> set rs. 1 \<le> unat (report_state r) \<and> unat (report_state r) \<le> 17"
  shows "\<exists>stats a ts. count_reports rs touch_probe_stats_default = Some stats \<and>
    touch_hid_reports touch_hid_assembler_default rs = Some (a, ts) \<and>
    ts_complete_frames stats = of_nat (length ts)"
proof -
  have "as_assembler touch_probe_stats_default touch_hid_assembler_default"
    by (simp add: as_assembler_def touch_probe_stats_default_def touch_hid_assembler_default_def)
  from count_reports_assembler [OF this assms] show ?thesis
    by (auto simp: touch_probe_stats_default_def)
qed

definition demo_report :: "u8 \<Rightarrow> u8 list" where
  "demo_report index = [0x31, 1, 1, 9, index, 2, 0, 1, 0, 0, 0, 0, 4] @ replicate 37 0 @ [1, 0, 0, 0, 2] @ replicate 9 0"

theorem probe_counts_driver_frames_witness:
  "\<exists>stats a ts. count_reports [demo_report 0, demo_report 1] touch_probe_stats_default = Some stats \<and>
     touch_hid_reports touch_hid_assembler_default [demo_report 0, demo_report 1] = Some (a, ts) \<and>
     ts_complete_frames stats = of_nat (length ts) \<and> parse_touch_report (demo_report 1) \<noteq> Some None"
proof -
  have "\<forall>r \<in> set [demo_report 0, demo_report 1]. 1 \<le> unat (report_state r) \<and> unat (report_state r) \<le> 17"
    by (simp add: demo_report_def report_state_def report_start_def)
  moreover have "parse_touch_report (demo_report 1) \<noteq> Some None"
    by code_simp
  ultimately show ?thesis using probe_counts_driver_frames by blast
qed

text \<open>
  Requests and answers of the vendor pipe: the report the probe writes is the driver's, for every
  command and payload; a frame in a report, behind any bytes but \<open>0xFF\<close>, is found and, if its command is
  the one asked for, taken as the answer.
\<close>

theorem probe_vendor_roundtrip:
  "vendor_report cmd payload = Some (hid_frame_report cmd payload) \<and>
   (if length payload < 256 \<and> 0xFF \<notin> set pre
    then vendor_reply cmd (pre @ mai2_frame cmd payload @ pad) = Some (Some (mai2_frame cmd payload)) else True)"
proof -
  have "vendor_reply cmd (pre @ mai2_frame cmd payload @ pad) = Some (Some (mai2_frame cmd payload))"
    if "length payload < 256" "0xFF \<notin> set pre"
  proof -
    let ?body = "[0xFF, cmd, of_nat (length payload)] @ payload"
    let ?bytes = "pre @ mai2_frame cmd payload @ pad"
    have f: "mai2_frame cmd payload = ?body @ [sum8 ?body]" by (simp add: mai2_frame_def Let_def)
    have p: "position 0xFF ?bytes = Some (length pre)" using position_skip [OF that(2)] by (simp add: f)
    have n: "unat (of_nat (length payload) :: u8) = length payload" using that(1) by (simp add: unat_of_nat)
    have rest: "drop (length pre) ?bytes = mai2_frame cmd payload @ pad" by simp
    have nth: "mai2_frame cmd payload ! 2 = of_nat (length payload)" by (simp add: f)
    have total: "length (mai2_frame cmd payload) = 4 + length payload" by (simp add: f)
    have last: "mai2_frame cmd payload ! (3 + length payload) = sum8 ?body"
      unfolding f by (simp add: nth_append numeral_3_eq_3)
    have body: "take (3 + length payload) (mai2_frame cmd payload) = ?body" by (simp add: f numeral_3_eq_3)
    have "parse_vendor_frame ?bytes = Some (Some (mai2_frame cmd payload))"
      by (rule parse_vendor_frame_at [OF p rest]) (simp_all only: nth n total last body)
    moreover have "?bytes \<noteq> []" by (simp add: f)
    moreover have "get_at (mai2_frame cmd payload) 1 = Some cmd" by (simp add: f get_at_def)
    ultimately show ?thesis by (simp add: vendor_reply_def)
  qed
  then show ?thesis by (simp add: vendor_report_eq)
qed

text \<open>
  C28. The probe ends: on a clock that runs, whatever the board answers or does not answer, every loop of
  the program stops at its deadline or at the loss of the device, and nothing panics; the only failure
  is the missing HID subsystem.
\<close>

theorem probe_main_returns:
  assumes "clock_runs now"
  shows "probe_main os now rate args h = None \<longleftrightarrow> \<not> os_hid_new os h"
proof (cases "os_hid_new os h")
  case True
  let ?h = "h @ [EvHidNew True]"
  obtain out g where "probe_pids os now rate (os_hid_devices os ?h) (parse_duration args * 1000000) MAI2_PIDS ?h =
      Some (out, g)"
    using probe_pids_returns [OF assms] by (metis surj_pair)
  with True show ?thesis by (simp add: probe_main_def Let_def)
next
  case False
  then show ?thesis by (simp add: probe_main_def Let_def)
qed

theorem probe_main_returns_witness:
  "probe_main willing_os (\<lambda>h. length h * 50000000) (\<lambda>n t. show_dec (unat n)) [lit ''--duration-ms=200''] [] \<noteq> None"
proof -
  have "clock_runs (\<lambda>h. length h * 50000000)"
    unfolding clock_runs_def by (metis le_trans mult.commute mult_le_mono2 nat_mult_1 numeral_One one_le_numeral)
  moreover have "os_hid_new willing_os []" by (simp add: willing_os_def)
  ultimately show ?thesis using probe_main_returns by blast
qed

end
