(* ===== verification/Bench_Frames.thy ===== *)
theory Bench_Frames
  imports Types Slider Mai2_Frames Port_Use
begin

unbundle bit_operations_syntax

text \<open>
  The protocol half of \<open>examples/e2e_latency_bench.rs\<close>: the payloads it sends, its frame parser over a
  256-byte buffer, and the readers that wait up to a second for a reply of the board.  \<open>None\<close> as the
  outermost result is a panic or a loop that does not end.  The serial port is the driver's
  \<open>SerialPort\<close>, the slider parser the driver's \<open>SliderParser\<close>.
\<close>

section \<open>Constants and data\<close>

definition BENCH_MAI2_PID_1P :: u16 where "BENCH_MAI2_PID_1P = 0x52A5"
definition BENCH_MAI2_PID_2P :: u16 where "BENCH_MAI2_PID_2P = 0x52A6"
definition BENCH_CHUNI_PIDS :: "u16 list" where "BENCH_CHUNI_PIDS = [0x52A4, 0x52A7]"
definition SERIAL_BAUD :: u32 where "SERIAL_BAUD = 115200"
definition BENCHMARK_CMD :: u8 where "BENCHMARK_CMD = 0x22"
definition BENCHMARK_EVENT_CMD :: u8 where "BENCHMARK_EVENT_CMD = 0x23"
definition BENCHMARK_HID_EVENT_CMD :: u8 where "BENCHMARK_HID_EVENT_CMD = 0x24"
definition DEFAULT_ITERATIONS :: nat where "DEFAULT_ITERATIONS = 500"
definition MAX_READ_SPINS :: nat where "MAX_READ_SPINS = 4"
definition ROUNDTRIP_TIMEOUT :: nat where "ROUNDTRIP_TIMEOUT = 1000000000"
definition EVENT_DELAY_MS :: u32 where "EVENT_DELAY_MS = 10"
definition MAI2_HID_USAGE_PAGE :: u16 where "MAI2_HID_USAGE_PAGE = 0xFFCA"
definition MAI2_HID_USAGE :: u16 where "MAI2_HID_USAGE = 0x0001"
definition MAI2_HID_REPORT_LEN :: nat where "MAI2_HID_REPORT_LEN = 24"

record benchmark_reply =
  br_dispatch_cycles :: u64
  br_tx_cycles :: u64
  br_core_hz :: u32

record event_reply =
  er_event_cycles :: u64
  er_tx_cycles :: u64
  er_core_hz :: u32

datatype protocol = Mai2Protocol | SliderProtocol

section \<open>Payloads\<close>

definition make_benchmark_payload :: "u64 \<Rightarrow> u8 list" where
  "make_benchmark_payload sequence =
     le_bytes 8 (unat sequence) @ le_bytes 8 (unat (word_rotl 13 sequence))"

definition make_event_arm_payload :: "u32 \<Rightarrow> u32 \<Rightarrow> u8 list" where
  "make_event_arm_payload sequence delay_ms = le_bytes 4 (unat sequence) @ le_bytes 4 (unat delay_ms)"

definition read_u32_le :: "u8 list \<Rightarrow> u32 option" where
  "read_u32_le raw = do {
     b0 \<leftarrow> get_at raw 0; b1 \<leftarrow> get_at raw 1; b2 \<leftarrow> get_at raw 2; b3 \<leftarrow> get_at raw 3;
     Some (of_nat (nat_of_le [b0, b1, b2, b3]))
   }"

definition read_u64_le :: "u8 list \<Rightarrow> u64 option" where
  "read_u64_le raw = do {
     b0 \<leftarrow> get_at raw 0; b1 \<leftarrow> get_at raw 1; b2 \<leftarrow> get_at raw 2; b3 \<leftarrow> get_at raw 3;
     b4 \<leftarrow> get_at raw 4; b5 \<leftarrow> get_at raw 5; b6 \<leftarrow> get_at raw 6; b7 \<leftarrow> get_at raw 7;
     Some (of_nat (nat_of_le [b0, b1, b2, b3, b4, b5, b6, b7]))
   }"

section \<open>The parser\<close>

text \<open>The example's \<open>consume\<close> is the driver's, over 256 bytes.\<close>

definition bench_consume :: "u8 list \<Rightarrow> nat \<Rightarrow> nat \<Rightarrow> (u8 list \<times> nat) option" where
  "bench_consume rx_buf rx_len count = consume rx_buf rx_len count"

text \<open>The \<open>while\<close> that drops what cannot start a frame.\<close>

function skip_to_start :: "u8 list \<Rightarrow> nat \<Rightarrow> (u8 list \<times> nat) option" where
  "skip_to_start rx_buf rx_len =
     (if rx_len = 0 then Some (rx_buf, rx_len)
      else do {
        b0 \<leftarrow> get_at rx_buf 0;
        if b0 = 0xFF then Some (rx_buf, rx_len)
        else do {
          (rx_buf', rx_len') \<leftarrow> bench_consume rx_buf rx_len 1;
          skip_to_start rx_buf' rx_len'
        }
      })"
  by pat_completeness auto
termination
  by (relation "measure snd") (auto simp: bench_consume_def dest: consume_decreases)

declare skip_to_start.simps [simp del]

definition parse_mai2_frame :: "u8 list \<Rightarrow> nat \<Rightarrow> ((u8 \<times> u8 list) option \<times> u8 list \<times> nat) option" where
  "parse_mai2_frame rx_buf rx_len = do {
     (rx_buf, rx_len) \<leftarrow> skip_to_start rx_buf rx_len;
     if rx_len < 4 then Some (None, rx_buf, rx_len)
     else do {
       b2 \<leftarrow> get_at rx_buf 2;
       let total = unat b2 + 4;
       if total > length rx_buf then do {
         (rx_buf, rx_len) \<leftarrow> bench_consume rx_buf rx_len 1;
         Some (None, rx_buf, rx_len)
       }
       else if rx_len < total then Some (None, rx_buf, rx_len)
       else do {
         body \<leftarrow> slice rx_buf 0 (total - 1);
         cs \<leftarrow> get_at rx_buf (total - 1);
         if sum8 body \<noteq> cs then do {
           (rx_buf, rx_len) \<leftarrow> bench_consume rx_buf rx_len 1;
           Some (None, rx_buf, rx_len)
         }
         else do {
           cmd \<leftarrow> get_at rx_buf 1;
           payload \<leftarrow> slice rx_buf 3 (total - 1);
           (rx_buf, rx_len) \<leftarrow> bench_consume rx_buf rx_len total;
           Some (Some (cmd, payload), rx_buf, rx_len)
         }
       }
     }
   }"

lemma consume_le: "bench_consume buf n c = Some (buf', n') \<Longrightarrow> n' \<le> n \<and> (0 < c \<and> 0 < n \<longrightarrow> n' < n)"
  by (auto simp: bench_consume_def consume_def split: if_splits bind_splits)

lemma skip_to_start_le: "skip_to_start buf n = Some (buf', n') \<Longrightarrow> n' \<le> n"
proof (induction buf n rule: skip_to_start.induct)
  case (1 buf n)
  show ?case
    using "1.prems" "1.IH"
    by (subst (asm) skip_to_start.simps) (fastforce split: if_splits bind_splits dest: consume_le)
qed

lemma parse_mai2_frame_shrinks: "parse_mai2_frame buf n = Some (Some f, buf', n') \<Longrightarrow> n' < n"
  by (fastforce simp: parse_mai2_frame_def Let_def split: if_splits bind_splits
      dest!: skip_to_start_le consume_le)

section \<open>Replies\<close>

text \<open>
  The two tests of a reply frame: \<open>Some None\<close> is a \<open>continue\<close>.
\<close>

definition accept_benchmark :: "u8 \<Rightarrow> u8 list \<Rightarrow> u8 \<times> u8 list \<Rightarrow> benchmark_reply option option" where
  "accept_benchmark expected_cmd expected_payload frame =
     (let (cmd, payload) = frame
      in if cmd \<noteq> expected_cmd \<or> length payload \<noteq> length expected_payload + 20 then Some None
         else do {
           echo \<leftarrow> slice payload 0 (length expected_payload);
           if echo \<noteq> expected_payload then Some None
           else do {
             meta \<leftarrow> slice payload (length expected_payload) (length payload);
             dispatch_cycles \<leftarrow> slice meta 0 8 \<bind> read_u64_le;
             tx_cycles \<leftarrow> slice meta 8 16 \<bind> read_u64_le;
             core_hz \<leftarrow> slice meta 16 20 \<bind> read_u32_le;
             Some (Some \<lparr>br_dispatch_cycles = dispatch_cycles, br_tx_cycles = tx_cycles, br_core_hz = core_hz\<rparr>)
           }
         })"

definition accept_event :: "u32 \<Rightarrow> u8 \<times> u8 list \<Rightarrow> event_reply option option" where
  "accept_event expected_sequence frame =
     (let (cmd, payload) = frame
      in if cmd \<noteq> BENCHMARK_EVENT_CMD \<or> length payload \<noteq> 24 then Some None
         else do {
           sequence \<leftarrow> slice payload 0 4 \<bind> read_u32_le;
           if sequence \<noteq> expected_sequence then Some None
           else do {
             event_cycles \<leftarrow> slice payload 4 12 \<bind> read_u64_le;
             tx_cycles \<leftarrow> slice payload 12 20 \<bind> read_u64_le;
             core_hz \<leftarrow> slice payload 20 24 \<bind> read_u32_le;
             Some (Some \<lparr>er_event_cycles = event_cycles, er_tx_cycles = tx_cycles, er_core_hz = core_hz\<rparr>)
           }
         })"

definition accept_hid_event :: "u16 \<Rightarrow> u8 list \<Rightarrow> event_reply option option" where
  "accept_hid_event expected_sequence report =
     (if length report < MAI2_HID_REPORT_LEN then Some None
      else do {
        b1 \<leftarrow> get_at report 1;
        if b1 \<noteq> 0xFF then Some None
        else do {
          b2 \<leftarrow> get_at report 2;
          b3 \<leftarrow> get_at report 3;
          if of_nat (nat_of_le [b2, b3]) \<noteq> expected_sequence then Some None
          else do {
            event_cycles \<leftarrow> slice report 4 12 \<bind> read_u64_le;
            tx_cycles \<leftarrow> slice report 12 20 \<bind> read_u64_le;
            core_hz \<leftarrow> slice report 20 24 \<bind> read_u32_le;
            Some (Some \<lparr>er_event_cycles = event_cycles, er_tx_cycles = tx_cycles, er_core_hz = core_hz\<rparr>)
          }
        }
      })"

section \<open>The readers\<close>

text \<open>
  The inner \<open>loop\<close> of the two mai2 readers: frames are taken out until one is the reply or the parser
  gives none.
\<close>

function drain_replies ::
  "(u8 \<times> u8 list \<Rightarrow> 'r option option) \<Rightarrow> u8 list \<times> nat \<Rightarrow> ('r option \<times> u8 list \<times> nat) option" where
  "drain_replies accept s =
     (case parse_mai2_frame (fst s) (snd s) of
        None \<Rightarrow> None
      | Some (None, s') \<Rightarrow> Some (None, s')
      | Some (Some frame, s') \<Rightarrow>
          (case accept frame of
             None \<Rightarrow> None
           | Some (Some reply) \<Rightarrow> Some (Some reply, s')
           | Some None \<Rightarrow> drain_replies accept s'))"
  by pat_completeness auto
termination
  by (relation "measure (snd \<circ> snd)") (auto dest: parse_mai2_frame_shrinks)

declare drain_replies.simps [simp del]

text \<open>What they do with the bytes of a read: those that do not fit are dropped.\<close>

definition store_read :: "u8 list \<Rightarrow> u8 list \<times> nat \<Rightarrow> (u8 list \<times> nat) option" where
  "store_read bytes s =
     (let (rx_buf, rx_len) = s; copy = min (length bytes) (length rx_buf - rx_len)
      in do {
        src \<leftarrow> slice bytes 0 copy;
        before \<leftarrow> slice rx_buf 0 rx_len;
        after \<leftarrow> slice rx_buf (rx_len + copy) (length rx_buf);
        Some (before @ src @ after, rx_len + copy)
      })"

definition mai2_reply_step ::
  "(u8 \<times> u8 list \<Rightarrow> 'r option option) \<Rightarrow> u8 list \<Rightarrow> u8 list \<times> nat \<Rightarrow> ('r option \<times> u8 list \<times> nat) option" where
  "mai2_reply_step accept bytes s = do { s \<leftarrow> store_read bytes s; drain_replies accept s }"

text \<open>The \<open>for\<close> over the bytes of a read in \<open>read_slider_benchmark_reply\<close>.\<close>

fun slider_reply_step ::
  "u8 list \<Rightarrow> u8 list \<Rightarrow> slider_parser \<Rightarrow> (benchmark_reply option \<times> slider_parser) option" where
  "slider_reply_step expected [] parser = Some (None, parser)"
| "slider_reply_step expected (byte # bytes) parser = do {
     (parser, packet) \<leftarrow> slider_push parser byte;
     (case packet of
        None \<Rightarrow> slider_reply_step expected bytes parser
      | Some packet \<Rightarrow> do {
          reply \<leftarrow> accept_benchmark BENCHMARK_CMD expected (pkt_cmd packet, pkt_payload packet);
          (case reply of
             Some reply \<Rightarrow> Some (Some reply, parser)
           | None \<Rightarrow> slider_reply_step expected bytes parser)
        })
   }"

text \<open>
  The loop the three serial readers share: \<open>step\<close> is what a reader does with the bytes of a read in its
  state \<open>s\<close>.  The result is the reply, or \<open>None\<close> for the end of the time or a lost port.
\<close>

partial_function (option) read_reply_loop ::
  "os \<Rightarrow> clock \<Rightarrow> nat \<Rightarrow> (u8 list \<Rightarrow> 's \<Rightarrow> ('r option \<times> 's) option) \<Rightarrow> 's \<Rightarrow> nat \<Rightarrow> serial_port \<Rightarrow> history \<Rightarrow>
     ('r option \<times> serial_port \<times> history) option" where
  "read_reply_loop os now deadline step s idle_spins p h =
     (if deadline \<le> now h then Some (None, p, h @ [EvTick])
      else
        (case sp_read os 64 p (h @ [EvTick]) of
           (None, p, h) \<Rightarrow> Some (None, p, h)
         | (Some bytes, p, h) \<Rightarrow>
             if bytes = [] then
               read_reply_loop os now deadline step s (idle_spins + 1) p
                 (if idle_spins + 1 \<ge> MAX_READ_SPINS then h @ [EvSleep 1] else h)
             else
               (case step bytes s of
                  None \<Rightarrow> None
                | Some (Some reply, s) \<Rightarrow> Some (Some reply, p, h)
                | Some (None, s) \<Rightarrow> read_reply_loop os now deadline step s 0 p h)))"

definition read_slider_benchmark_reply ::
  "os \<Rightarrow> clock \<Rightarrow> u8 list \<Rightarrow> serial_port \<Rightarrow> history \<Rightarrow> (benchmark_reply option \<times> serial_port \<times> history) option" where
  "read_slider_benchmark_reply os now expected p h =
     read_reply_loop os now (now h + ROUNDTRIP_TIMEOUT) (slider_reply_step expected) slider_parser_default 0
       p (h @ [EvTick])"

definition bench_rx_init :: "u8 list \<times> nat" where
  "bench_rx_init = (replicate 256 0, 0)"

definition read_mai2_benchmark_reply_for_cmd ::
  "os \<Rightarrow> clock \<Rightarrow> u8 \<Rightarrow> u8 list \<Rightarrow> serial_port \<Rightarrow> history \<Rightarrow>
     (benchmark_reply option \<times> serial_port \<times> history) option" where
  "read_mai2_benchmark_reply_for_cmd os now cmd expected p h =
     read_reply_loop os now (now h + ROUNDTRIP_TIMEOUT) (mai2_reply_step (accept_benchmark cmd expected))
       bench_rx_init 0 p (h @ [EvTick])"

definition read_mai2_event_reply ::
  "os \<Rightarrow> clock \<Rightarrow> u32 \<Rightarrow> serial_port \<Rightarrow> history \<Rightarrow> (event_reply option \<times> serial_port \<times> history) option" where
  "read_mai2_event_reply os now sequence p h =
     read_reply_loop os now (now h + ROUNDTRIP_TIMEOUT) (mai2_reply_step (accept_event sequence))
       bench_rx_init 0 p (h @ [EvTick])"

definition read_benchmark_reply ::
  "os \<Rightarrow> clock \<Rightarrow> protocol \<Rightarrow> u8 list \<Rightarrow> serial_port \<Rightarrow> history \<Rightarrow>
     (benchmark_reply option \<times> serial_port \<times> history) option" where
  "read_benchmark_reply os now protocol expected p h =
     (case protocol of
        Mai2Protocol \<Rightarrow> read_mai2_benchmark_reply_for_cmd os now BENCHMARK_CMD expected p h
      | SliderProtocol \<Rightarrow> read_slider_benchmark_reply os now expected p h)"

partial_function (option) hid_event_loop ::
  "os \<Rightarrow> clock \<Rightarrow> rstr \<Rightarrow> u16 \<Rightarrow> nat \<Rightarrow> history \<Rightarrow> (event_reply option \<times> history) option" where
  "hid_event_loop os now path sequence deadline h =
     (if deadline \<le> now h then Some (None, h @ [EvTick])
      else
        (case os_hid_read os (h @ [EvTick]) path MAI2_HID_REPORT_LEN of
           None \<Rightarrow> Some (None, h @ [EvTick, EvHidRead path MAI2_HID_REPORT_LEN])
         | Some bytes \<Rightarrow>
             (case accept_hid_event sequence (take MAI2_HID_REPORT_LEN bytes) of
                None \<Rightarrow> None
              | Some reply \<Rightarrow>
                  (case reply of
                     Some reply \<Rightarrow> Some (Some reply, h @ [EvTick, EvHidRead path MAI2_HID_REPORT_LEN])
                   | None \<Rightarrow> hid_event_loop os now path sequence deadline
                       (h @ [EvTick, EvHidRead path MAI2_HID_REPORT_LEN])))))"

definition read_mai2_hid_event_reply ::
  "os \<Rightarrow> clock \<Rightarrow> rstr \<Rightarrow> u16 \<Rightarrow> history \<Rightarrow> (event_reply option \<times> history) option" where
  "read_mai2_hid_event_reply os now path sequence h =
     hid_event_loop os now path sequence (now h + ROUNDTRIP_TIMEOUT) (h @ [EvTick])"

section \<open>Sending, draining, searching\<close>

definition send_mai2_frame :: "os \<Rightarrow> u8 \<Rightarrow> u8 list \<Rightarrow> serial_port \<Rightarrow> history \<Rightarrow> bool \<times> serial_port \<times> history" where
  "send_mai2_frame os cmd payload p h =
     (let frame = [0xFF, cmd, of_nat (length payload)] @ payload;
          checksum = sum8 frame
      in sp_write os (frame @ [checksum]) p h)"

definition send_benchmark_request ::
  "os \<Rightarrow> protocol \<Rightarrow> u8 list \<Rightarrow> serial_port \<Rightarrow> history \<Rightarrow> bool \<times> serial_port \<times> history" where
  "send_benchmark_request os protocol payload p h =
     (case protocol of
        Mai2Protocol \<Rightarrow> send_mai2_frame os BENCHMARK_CMD payload p h
      | SliderProtocol \<Rightarrow> send_slider_frame (\<lambda>frame (p, h). sp_write os frame p h) BENCHMARK_CMD payload (p, h))"

text \<open>At most \<open>MAX_READ_SPINS\<close> reads, ended by an empty or a failing one.\<close>

fun drain_port_reads :: "os \<Rightarrow> nat \<Rightarrow> serial_port \<Rightarrow> history \<Rightarrow> serial_port \<times> history" where
  "drain_port_reads os 0 p h = (p, h)"
| "drain_port_reads os (Suc n) p h =
     (case sp_read os 64 p h of
        (None, p, h) \<Rightarrow> (p, h)
      | (Some bytes, p, h) \<Rightarrow> if bytes = [] then (p, h) else drain_port_reads os n p h)"

definition drain_port :: "os \<Rightarrow> serial_port \<Rightarrow> history \<Rightarrow> serial_port \<times> history" where
  "drain_port os p h = drain_port_reads os MAX_READ_SPINS p h"

fun drain_hid_reads :: "os \<Rightarrow> rstr \<Rightarrow> nat \<Rightarrow> history \<Rightarrow> history" where
  "drain_hid_reads os path 0 h = h"
| "drain_hid_reads os path (Suc n) h =
     (let answer = os_hid_read os h path MAI2_HID_REPORT_LEN; h = h @ [EvHidRead path MAI2_HID_REPORT_LEN]
      in case answer of
           None \<Rightarrow> h
         | Some bytes \<Rightarrow> if bytes = [] then h else drain_hid_reads os path n h)"

definition drain_hid :: "os \<Rightarrow> rstr \<Rightarrow> history \<Rightarrow> history" where
  "drain_hid os path h = drain_hid_reads os path MAX_READ_SPINS h"

definition bench_find_hid_path :: "hid_info list \<Rightarrow> u16 \<Rightarrow> u16 \<Rightarrow> rstr option" where
  "bench_find_hid_path devices vid pid =
     map_option hi_path (List.find (\<lambda>info. hi_vendor_id info = vid \<and> hi_product_id info = pid
       \<and> hi_usage_page info = MAI2_HID_USAGE_PAGE \<and> hi_usage info = MAI2_HID_USAGE) devices)"

section \<open>The parser over lists\<close>

definition bench_scan :: "u8 list \<Rightarrow> (u8 \<times> u8 list) option \<times> u8 list" where
  "bench_scan xs =
     (let ys = dropWhile (\<lambda>b. b \<noteq> 0xFF) xs; total = unat (ys ! 2) + 4
      in if length ys < 4 then (None, ys)
         else if total > 256 then (None, tl ys)
         else if length ys < total then (None, ys)
         else if sum8 (take (total - 1) ys) \<noteq> ys ! (total - 1) then (None, tl ys)
         else (Some (ys ! 1, take (total - 4) (drop 3 ys)), drop total ys))"

definition bench_buf :: "u8 list \<times> nat \<Rightarrow> bool" where
  "bench_buf s \<longleftrightarrow> length (fst s) = 256 \<and> snd s \<le> 256"

definition held :: "u8 list \<times> nat \<Rightarrow> u8 list" where
  "held s = take (snd s) (fst s)"

lemma bench_init [simp]: "bench_buf bench_rx_init" "held bench_rx_init = []"
  by (simp_all add: bench_buf_def bench_rx_init_def held_def)

lemma bench_consume_held:
  assumes "bench_buf (buf, n)" "c \<le> n"
  shows "\<exists>buf'. bench_consume buf n c = Some (buf', n - c) \<and> bench_buf (buf', n - c) \<and>
    held (buf', n - c) = drop c (held (buf, n))"
proof -
  from consume_in [of n buf c] assms obtain buf' where "consume buf n c = Some (buf', n - c)"
    "length buf' = length buf" "take (n - c) buf' = drop c (take n buf)"
    by (auto simp: bench_buf_def)
  with assms show ?thesis by (auto simp: bench_consume_def bench_buf_def held_def)
qed

lemma skip_to_start_held:
  assumes "bench_buf (buf, n)"
  shows "\<exists>s. skip_to_start buf n = Some s \<and> bench_buf s \<and>
    held s = dropWhile (\<lambda>b. b \<noteq> 0xFF) (held (buf, n))"
  using assms
proof (induction n arbitrary: buf)
  case 0
  then show ?case by (subst skip_to_start.simps) (simp add: held_def)
next
  case (Suc n)
  then have ne: "buf \<noteq> []" by (auto simp: bench_buf_def)
  then have get: "get_at buf 0 = Some (hd buf)" by (simp add: access_simps hd_conv_nth)
  have held: "held (buf, Suc n) = hd buf # take n (tl buf)" using ne by (cases buf) (auto simp: held_def)
  show ?case
  proof (cases "hd buf = 0xFF")
    case True
    then show ?thesis using Suc.prems get held by (subst skip_to_start.simps) simp
  next
    case False
    obtain buf' where c: "bench_consume buf (Suc n) 1 = Some (buf', n)" "bench_buf (buf', n)"
      "held (buf', n) = drop 1 (held (buf, Suc n))"
      using bench_consume_held [OF Suc.prems, of 1] by auto
    from Suc.IH [OF c(2)] c(3) show ?thesis
      using False get held c(1) by (subst skip_to_start.simps) simp
  qed
qed

lemma parse_mai2_frame_scan:
  assumes "bench_buf s"
  shows "\<exists>s'. parse_mai2_frame (fst s) (snd s) = Some (fst (bench_scan (held s)), s') \<and> bench_buf s' \<and>
    held s' = snd (bench_scan (held s))"
proof -
  define ys where "ys = dropWhile (\<lambda>b. b \<noteq> 0xFF) (held s)"
  obtain buf n where skip: "skip_to_start (fst s) (snd s) = Some (buf, n)" "bench_buf (buf, n)" "held (buf, n) = ys"
    using skip_to_start_held [of "fst s" "snd s"] assms by (auto simp: ys_def)
  then have n: "n = length ys" "length buf = 256" "n \<le> 256" "take n buf = ys"
    by (auto simp: bench_buf_def held_def)
  define total where "total = unat (ys ! 2) + 4"
  note scan = bench_scan_def [of "held s", folded ys_def, unfolded Let_def, folded total_def]
  show ?thesis
  proof (cases "n < 4")
    case True
    then show ?thesis using skip n by (simp add: parse_mai2_frame_def scan)
  next
    case False
    have nth: "i < n \<Longrightarrow> buf ! i = ys ! i" for i using nth_take [of i n buf] n(4) by simp
    have b2: "get_at buf 2 = Some (ys ! 2)" using n False nth [of 2] by (simp add: access_simps)
    obtain b1 where drop1: "bench_consume buf n 1 = Some (b1, n - 1)" "bench_buf (b1, n - 1)"
      "held (b1, n - 1) = tl ys"
      using bench_consume_held [OF skip(2), of 1] False skip(3) by (auto simp: drop_Suc)
    show ?thesis
    proof (cases "total > 256 \<or> n < total")
      case True
      then show ?thesis
        using skip n False b2 drop1 by (auto simp: parse_mai2_frame_def scan total_def Let_def)
    next
      case fits: False
      have sub: "take k (drop a ys) = take k (drop a buf)" if "a + k \<le> n" for a k
        using that by (subst n(4) [symmetric]) (simp add: drop_take min_def)
      have cut: "take (total - 1) ys = take (total - 1) buf"
        "take (total - 4) (drop 3 ys) = take (total - 4) (drop 3 buf)"
        using fits sub [of 0 "total - 1"] sub [of 3 "total - 4"] by (simp_all add: total_def)
      have acc: "slice buf 0 (total - 1) = Some (take (total - 1) ys)" "get_at buf (total - 1) = Some (ys ! (total - 1))"
        "get_at buf 1 = Some (ys ! 1)" "slice buf 3 (total - 1) = Some (take (total - 4) (drop 3 ys))"
        using n fits False nth [of 1] nth [of "total - 1"] cut
        by (simp_all add: access_simps total_def)
      obtain b2' where dropt: "bench_consume buf n total = Some (b2', n - total)" "bench_buf (b2', n - total)"
        "held (b2', n - total) = drop total ys"
        using bench_consume_held [OF skip(2), of total] fits skip(3) by auto
      have small: "\<not> 252 < unat (ys ! 2)" using fits by (simp add: total_def)
      show ?thesis
        using skip n False b2 drop1 dropt fits acc small
        by (auto simp: parse_mai2_frame_def scan Let_def simp flip: total_def)
    qed
  qed
qed

lemma bench_scan_shrinks: "bench_scan xs = (Some f, ys) \<Longrightarrow> length ys < length xs"
  using length_dropWhile_le [of "\<lambda>b. b \<noteq> 0xFF" xs]
  by (auto simp: bench_scan_def Let_def split: if_splits)

text \<open>The inner loop, for tests that do not panic.\<close>

function take_reply :: "(u8 \<times> u8 list \<Rightarrow> 'r option) \<Rightarrow> u8 list \<Rightarrow> 'r option \<times> u8 list" where
  "take_reply accept xs =
     (case bench_scan xs of
        (None, ys) \<Rightarrow> (None, ys)
      | (Some frame, ys) \<Rightarrow>
          (case accept frame of Some reply \<Rightarrow> (Some reply, ys) | None \<Rightarrow> take_reply accept ys))"
  by pat_completeness auto
termination
  by (relation "measure (length \<circ> snd)") (auto dest: bench_scan_shrinks [OF sym])

declare take_reply.simps [simp del]

lemma drain_replies_take:
  assumes "bench_buf s" "\<And>frame. accept frame = Some (test frame)"
  shows "\<exists>s'. drain_replies accept s = Some (fst (take_reply test (held s)), s') \<and> bench_buf s' \<and>
    held s' = snd (take_reply test (held s))"
  using assms(1)
proof (induction "length (held s)" arbitrary: s rule: less_induct)
  case less
  obtain s1 where p: "parse_mai2_frame (fst s) (snd s) = Some (fst (bench_scan (held s)), s1)" "bench_buf s1"
    "held s1 = snd (bench_scan (held s))"
    using parse_mai2_frame_scan [OF less.prems] by blast
  show ?case
  proof (cases "fst (bench_scan (held s))")
    case None
    then show ?thesis
      using p by (cases "bench_scan (held s)") (simp add: drain_replies.simps [of _ s] take_reply.simps [of _ "held s"])
  next
    case (Some frame)
    then have scan: "bench_scan (held s) = (Some frame, held s1)" using p(3) by (cases "bench_scan (held s)") simp
    show ?thesis
    proof (cases "test frame")
      case None
      then show ?thesis
        using p(1,2) Some scan less.hyps [OF bench_scan_shrinks [OF scan] p(2)] assms(2) [of frame]
        by (simp add: drain_replies.simps [of _ s] take_reply.simps [of _ "held s"])
    next
      case reply: (Some r)
      then show ?thesis
        using p(1,2) Some scan assms(2) [of frame]
        by (simp add: drain_replies.simps [of _ s] take_reply.simps [of _ "held s"])
    qed
  qed
qed

lemma mai2_reply_step_take:
  assumes "bench_buf s" "\<And>frame. accept frame = Some (test frame)"
  shows "\<exists>s'. mai2_reply_step accept bytes s =
      Some (fst (take_reply test (held s @ take (256 - length (held s)) bytes)), s') \<and> bench_buf s' \<and>
    held s' = snd (take_reply test (held s @ take (256 - length (held s)) bytes))"
proof -
  obtain buf n where s: "s = (buf, n)" by (cases s)
  then have n: "length buf = 256" "n \<le> 256" using assms(1) by (simp_all add: bench_buf_def)
  define copy where "copy = min (length bytes) (256 - n)"
  define new where "new = (take n buf @ take copy bytes @ drop (n + copy) buf, n + copy)"
  have len: "length (held s) = n" using n by (simp add: s held_def)
  have "store_read bytes s = Some new"
    using n by (simp add: s store_read_def access_simps new_def copy_def Let_def)
  moreover have "bench_buf new" using n by (auto simp: new_def bench_buf_def copy_def)
  moreover have "held new = held s @ take (256 - length (held s)) bytes"
    using n by (auto simp: new_def held_def s copy_def min_def)
  ultimately show ?thesis
    using drain_replies_take [of new accept test] assms(2) by (simp add: mai2_reply_step_def)
qed

section \<open>Streams of replies\<close>

lemma accept_benchmark_total: "accept_benchmark cmd expected frame = Some (the (accept_benchmark cmd expected frame))"
  by (cases frame) (auto simp: accept_benchmark_def read_u64_le_def read_u32_le_def access_simps)

lemma accept_event_total: "accept_event sequence frame = Some (the (accept_event sequence frame))"
  by (cases frame) (auto simp: accept_event_def read_u64_le_def read_u32_le_def access_simps)

lemma accept_hid_event_total: "accept_hid_event sequence report \<noteq> None"
  by (auto simp: accept_hid_event_def MAI2_HID_REPORT_LEN_def read_u64_le_def read_u32_le_def access_simps)

lemma read_u64_le_bytes:
  assumes "length bs = 8"
  shows "read_u64_le bs = Some (of_nat (nat_of_le bs))"
proof -
  have "[bs ! 0, bs ! 1, bs ! 2, bs ! 3, bs ! 4, bs ! 5, bs ! 6, bs ! 7] = bs"
    using map_nth [of bs] assms by (simp add: upt_rec numeral_eq_Suc)
  then show ?thesis unfolding read_u64_le_def by (simp add: get_at_def assms del: nat_of_le.simps)
qed

lemma read_u32_le_bytes:
  assumes "length bs = 4"
  shows "read_u32_le bs = Some (of_nat (nat_of_le bs))"
proof -
  have "[bs ! 0, bs ! 1, bs ! 2, bs ! 3] = bs" using map_nth [of bs] assms by (simp add: upt_rec numeral_eq_Suc)
  then show ?thesis unfolding read_u32_le_def by (simp add: get_at_def assms del: nat_of_le.simps)
qed

lemma u64_le_roundtrip: "of_nat (nat_of_le (le_bytes 8 (unat x))) = (x :: u64)"
  using unsigned_less [of x, where ?'a = nat] by (simp add: nat_of_le_le_bytes)

lemma u32_le_roundtrip: "of_nat (nat_of_le (le_bytes 4 (unat x))) = (x :: u32)"
  using unsigned_less [of x, where ?'a = nat] by (simp add: nat_of_le_le_bytes)

text \<open>A frame is decided only when it is complete, and then it is taken out.\<close>

lemma bench_scan_frame:
  assumes "length payload \<le> 252"
  shows "bench_scan (mai2_frame cmd payload @ rest) = (Some (cmd, payload), rest)"
proof -
  have n: "unat (of_nat (length payload) :: u8) = length payload" using assms by (simp add: unat_of_nat)
  define body where "body = [0xFF, cmd, of_nat (length payload)] @ payload"
  have body: "length body = 3 + length payload" "body ! 2 = of_nat (length payload)" "body ! 1 = cmd"
    "drop 3 body = payload" "body \<noteq> []" "hd body = 0xFF"
    by (simp_all add: body_def)
  have f: "mai2_frame cmd payload @ rest = body @ sum8 body # rest" by (simp add: mai2_frame_def body_def Let_def)
  have ys: "dropWhile (\<lambda>b. b \<noteq> 0xFF) (body @ sum8 body # rest) = body @ sum8 body # rest"
    using body(5,6) by (cases body) simp_all
  have nth: "(body @ sum8 body # rest) ! 2 = of_nat (length payload)" "(body @ sum8 body # rest) ! 1 = cmd"
    "(body @ sum8 body # rest) ! (3 + length payload) = sum8 body"
    using body by (simp_all add: nth_append)
  show ?thesis
    unfolding f bench_scan_def ys Let_def nth n
    using assms nth(3) body by simp
qed

lemma bench_scan_partial:
  assumes "bs @ cs = mai2_frame cmd payload @ rest" "length bs < length payload + 4" "length payload \<le> 252"
  shows "bench_scan bs = (None, bs)"
proof -
  have n: "unat (of_nat (length payload) :: u8) = length payload" using assms by (simp add: unat_of_nat)
  have bs: "bs = take (length bs) (mai2_frame cmd payload)"
    using assms(1,2) by (metis append_eq_conv_conj length_mai2_frame less_imp_le_nat take_append diff_is_0_eq' take_0 append_Nil2)
  have at: "bs ! i = mai2_frame cmd payload ! i" if "i < length bs" for i using that bs by (metis nth_take)
  have start: "dropWhile (\<lambda>b. b \<noteq> 0xFF) bs = bs"
  proof (cases bs)
    case (Cons b bs')
    then show ?thesis using at [of 0] by (simp add: mai2_frame_def)
  qed simp
  show ?thesis
  proof (cases "length bs < 4")
    case True
    then show ?thesis by (simp add: bench_scan_def start Let_def)
  next
    case False
    then have "bs ! 2 = of_nat (length payload)" using at [of 2] by (simp add: mai2_frame_def)
    then show ?thesis using assms(2,3) False n by (simp add: bench_scan_def start Let_def)
  qed
qed

lemma bench_scan_garbage: "0xFF \<notin> set pre \<Longrightarrow> bench_scan (pre @ xs) = bench_scan xs"
  by (induction pre) (auto simp: bench_scan_def)

text \<open>
  Bytes \<open>xs\<close> that begin a stream of garbage, frames the test refuses and one it takes: either they reach
  to the end of the frame that is taken, or what is kept of them begins such a stream again.
\<close>

definition reply_stream :: "(u8 \<times> u8 list \<Rightarrow> 'r option) \<Rightarrow> u8 list \<Rightarrow> (u8 \<times> u8 list) list \<Rightarrow> u8 \<times> u8 list \<Rightarrow> bool" where
  "reply_stream test pre fs own \<longleftrightarrow> 0xFF \<notin> set pre \<and> (\<forall>f \<in> set fs. test f = None \<and> length (snd f) \<le> 100)
     \<and> test own \<noteq> None \<and> length (snd own) \<le> 100"

definition enc_frames :: "(u8 \<times> u8 list) list \<Rightarrow> u8 list" where
  "enc_frames fs = concat (map (\<lambda>(cmd, payload). mai2_frame cmd payload) fs)"

lemma enc_frames_simps [simp]:
  "enc_frames [] = []" "enc_frames ((cmd, payload) # fs) = mai2_frame cmd payload @ enc_frames fs"
  by (simp_all add: enc_frames_def)

lemma prefix_split:
  assumes "xs @ rest = a @ b" "length a \<le> length xs"
  shows "xs = a @ drop (length a) xs" "drop (length a) xs @ rest = b"
proof -
  have "take (length a) (xs @ rest) = a" "drop (length a) (xs @ rest) = b" by (simp_all add: assms(1))
  then show "xs = a @ drop (length a) xs" "drop (length a) xs @ rest = b"
    using assms(2) append_take_drop_id [of "length a" xs] by simp_all
qed

lemma take_reply_frames:
  assumes "xs @ rest = enc_frames (fs @ [own])" "reply_stream test [] fs own" "rest \<noteq> []"
  shows "\<exists>ys fs'. take_reply test xs = (None, ys) \<and> ys @ rest = enc_frames (fs' @ [own]) \<and>
    reply_stream test [] fs' own \<and> length ys < 104"
  using assms
proof (induction fs arbitrary: xs)
  case Nil
  obtain cmd payload where own: "own = (cmd, payload)" by (cases own)
  then have eq: "xs @ rest = mai2_frame cmd payload @ []" "length payload \<le> 100"
    using Nil by (simp_all add: reply_stream_def)
  have len: "length xs < length payload + 4"
    using Nil.prems(3) arg_cong [OF eq(1), of length] by (cases rest) (simp_all add: length_mai2_frame)
  have "take_reply test xs = (None, xs)"
    using bench_scan_partial [OF eq(1) len] eq(2) by (simp add: take_reply.simps [of _ xs])
  then show ?case using Nil len eq by (intro exI [of _ xs] exI [of _ "[]"]) simp
next
  case (Cons f fs)
  obtain cmd payload where f: "f = (cmd, payload)" by (cases f)
  have small: "length payload \<le> 100" "test f = None" "reply_stream test [] fs own"
    using Cons.prems(2) by (simp_all add: reply_stream_def f)
  have eq: "xs @ rest = mai2_frame cmd payload @ enc_frames (fs @ [own])" using Cons.prems(1) by (simp add: f)
  show ?case
  proof (cases "length xs < length payload + 4")
    case True
    then have "take_reply test xs = (None, xs)"
      using bench_scan_partial [OF eq] small by (simp add: take_reply.simps [of _ xs])
    then show ?thesis using Cons.prems True small by (intro exI [of _ xs] exI [of _ "f # fs"]) simp
  next
    case False
    define x where "x = drop (length payload + 4) xs"
    have xs: "xs = mai2_frame cmd payload @ x" "x @ rest = enc_frames (fs @ [own])"
      using prefix_split [OF eq] False by (simp_all add: x_def length_mai2_frame)
    have "take_reply test xs = take_reply test x"
      using small f by (subst xs(1), subst take_reply.simps) (simp add: bench_scan_frame)
    with Cons.IH [OF xs(2) small(3) Cons.prems(3)] show ?thesis by simp
  qed
qed

text \<open>A run of reads: what the loop does with the non-empty reads it gets, until one completes a reply.\<close>

fun reply_run :: "(u8 list \<Rightarrow> 's \<Rightarrow> ('r option \<times> 's) option) \<Rightarrow> u8 list list \<Rightarrow> 's \<Rightarrow> ('r option \<times> 's) option" where
  "reply_run step [] s = Some (None, s)"
| "reply_run step (bytes # reads) s =
     (case step bytes s of
        None \<Rightarrow> None
      | Some (Some reply, s) \<Rightarrow> Some (Some reply, s)
      | Some (None, s) \<Rightarrow> reply_run step reads s)"

lemma take_reply_all:
  "reply_stream test [] fs own \<Longrightarrow> take_reply test (enc_frames (fs @ [own])) = (test own, [])"
proof (induction fs)
  case Nil
  obtain cmd payload where own: "own = (cmd, payload)" by (cases own)
  then show ?case using Nil bench_scan_frame [of payload cmd "[]"]
    by (subst take_reply.simps) (auto simp: reply_stream_def)
next
  case (Cons f fs)
  obtain cmd payload where f: "f = (cmd, payload)" by (cases f)
  then show ?case using Cons
    by (subst take_reply.simps) (simp add: bench_scan_frame reply_stream_def)
qed

lemma take_reply_garbage: "0xFF \<notin> set pre \<Longrightarrow> take_reply test (pre @ xs) = take_reply test xs"
  by (subst (1 2) take_reply.simps) (simp add: bench_scan_garbage)

lemma take_reply_none: "0xFF \<notin> set xs \<Longrightarrow> take_reply test xs = (None, [])"
  using take_reply_garbage [of xs test "[]"] by (simp add: take_reply.simps [of _ "[]"] bench_scan_def)

lemma take_reply_stream:
  assumes "xs @ rest = pre @ enc_frames (fs @ [own])" "reply_stream test pre fs own" "rest \<noteq> []"
  shows "\<exists>ys pre' fs'. take_reply test xs = (None, ys) \<and> ys @ rest = pre' @ enc_frames (fs' @ [own]) \<and>
    reply_stream test pre' fs' own \<and> length ys < 104"
proof (cases "length pre \<le> length xs")
  case True
  have stream: "reply_stream test [] fs own" "0xFF \<notin> set pre" using assms(2) by (simp_all add: reply_stream_def)
  note split = prefix_split [OF assms(1) True]
  from take_reply_frames [OF split(2) stream(1) assms(3)] obtain ys fs' where
    "take_reply test (drop (length pre) xs) = (None, ys)" "ys @ rest = enc_frames (fs' @ [own])"
    "reply_stream test [] fs' own" "length ys < 104" by blast
  moreover have "take_reply test xs = take_reply test (drop (length pre) xs)"
    by (subst split(1)) (rule take_reply_garbage [OF stream(2)])
  ultimately show ?thesis by (intro exI [of _ ys] exI [of _ "[]"] exI [of _ fs']) simp
next
  case False
  then have "pre = xs @ drop (length xs) pre" "drop (length xs) pre @ enc_frames (fs @ [own]) = rest"
    using prefix_split [of pre "enc_frames (fs @ [own])" xs rest] assms(1) by simp_all
  moreover from this have "0xFF \<notin> set xs" "0xFF \<notin> set (drop (length xs) pre)"
    using assms(2) by (auto simp: reply_stream_def dest: in_set_dropD) (metis UnCI set_append)
  ultimately show ?thesis
    using assms(2) take_reply_none [of xs test]
    by (intro exI [of _ "[]"] exI [of _ "drop (length xs) pre"] exI [of _ fs]) (simp add: reply_stream_def)
qed

lemma reply_run_finds:
  assumes "reply_stream test pre fs own" "\<And>frame. accept frame = Some (test frame)"
    and "bench_buf s" "length (held s) < 104" "held s @ concat reads = pre @ enc_frames (fs @ [own])"
    and "\<forall>bytes \<in> set reads. bytes \<noteq> [] \<and> length bytes \<le> 64" "reads \<noteq> []"
  shows "\<exists>s'. reply_run (mai2_reply_step accept) reads s = Some (test own, s')"
  using assms(1,3-)
proof (induction reads arbitrary: s pre fs)
  case (Cons bytes reads)
  let ?xs = "held s @ bytes"
  have fits: "take (256 - length (held s)) bytes = bytes" using Cons.prems(3,5) by auto
  obtain s1 where s1: "mai2_reply_step accept bytes s = Some (fst (take_reply test ?xs), s1)" "bench_buf s1"
    "held s1 = snd (take_reply test ?xs)"
    using mai2_reply_step_take [where bytes = bytes and accept = accept and test = test, OF Cons.prems(2)]
      assms(2) fits by auto
  have eq: "?xs @ concat reads = pre @ enc_frames (fs @ [own])" using Cons.prems(4) by simp
  show ?case
  proof (cases "reads = []")
    case True
    have "take_reply test ?xs = (test own, [])"
      using eq True take_reply_garbage [of pre test "enc_frames (fs @ [own])"] take_reply_all [of test fs own] Cons.prems(1)
      by (simp add: reply_stream_def)
    moreover obtain r where "test own = Some r" using Cons.prems(1) by (auto simp: reply_stream_def)
    ultimately show ?thesis using s1(1) by simp
  next
    case False
    then have "concat reads \<noteq> []" using Cons.prems(5) by (cases reads) auto
    from take_reply_stream [OF eq Cons.prems(1) this] obtain ys pre' fs' where
      kept: "take_reply test ?xs = (None, ys)" "ys @ concat reads = pre' @ enc_frames (fs' @ [own])"
      "reply_stream test pre' fs' own" "length ys < 104" by blast
    then show ?thesis
      using s1 Cons.IH [of pre' fs' s1] Cons.prems(5) False by simp
  qed
qed simp

section \<open>The readers return\<close>

lemma sp_read_grows: "sp_read os cap p h = (r, p', h') \<Longrightarrow> length h \<le> length h'"
  by (auto simp: sp_read_def prepare_overlapped_def ensure_event_def Let_def
      split: if_splits answer.splits)

lemma read_reply_loop_returns:
  assumes "clock_runs now"
    and step: "\<And>bytes s. good s \<Longrightarrow> \<exists>r s'. step bytes s = Some (r, s') \<and> good s'"
    and "good s"
  shows "read_reply_loop os now deadline step s idle p h \<noteq> None"
  using assms(1,3)
proof (induction h arbitrary: s idle p rule: deadline_induct [where deadline = deadline])
  case (over h)
  then show ?case by (subst read_reply_loop.simps) simp
next
  case (waiting h)
  obtain r p1 h1 where r: "sp_read os 64 p (h @ [EvTick]) = (r, p1, h1)"
    by (cases "sp_read os 64 p (h @ [EvTick])")
  then have grown: "length h < length h1" using sp_read_grows [OF r] by simp
  show ?case
  proof (cases r)
    case None
    with waiting(1) r show ?thesis by (subst read_reply_loop.simps) simp
  next
    case (Some bytes)
    obtain reply s1 where s1: "step bytes s = Some (reply, s1)" "good s1" using step [OF waiting(3)] by blast
    show ?thesis
      using waiting(1,3) r Some s1 grown waiting(2) [of "h1 @ [EvSleep 1]" s "idle + 1" p1]
        waiting(2) [of h1 s "idle + 1" p1] waiting(2) [of h1 s1 0 p1]
      by (subst read_reply_loop.simps) (cases reply, auto)
  qed
qed

lemma mai2_reply_good:
  "bench_buf s \<Longrightarrow> (\<And>frame. accept frame = Some (test frame)) \<Longrightarrow>
     \<exists>r s'. mai2_reply_step accept bytes s = Some (r, s') \<and> bench_buf s'"
  using mai2_reply_step_take by blast

lemma slider_reply_good:
  "slider_wf parser \<Longrightarrow> \<exists>r s'. slider_reply_step expected bytes parser = Some (r, s') \<and> slider_wf s'"
proof (induction bytes arbitrary: parser)
  case (Cons byte bytes)
  obtain p r where p: "slider_push parser byte = Some (p, r)" "slider_wf p"
    using slider_push_refines [OF Cons.prems] by blast
  show ?case
  proof (cases r)
    case None
    with p Cons.IH [OF p(2)] show ?thesis by simp
  next
    case (Some packet)
    with p Cons.IH [OF p(2)] show ?thesis
      using accept_benchmark_total [of BENCHMARK_CMD expected "(pkt_cmd packet, pkt_payload packet)"]
      by (cases "the (accept_benchmark BENCHMARK_CMD expected (pkt_cmd packet, pkt_payload packet))") auto
  qed
qed simp

lemma hid_event_loop_returns:
  assumes "clock_runs now"
  shows "hid_event_loop os now path sequence deadline h \<noteq> None"
  using assms
proof (induction h rule: deadline_induct [where deadline = deadline])
  case (over h)
  then show ?case by (subst hid_event_loop.simps) simp
next
  case (waiting h)
  show ?case
  proof (cases "os_hid_read os (h @ [EvTick]) path MAI2_HID_REPORT_LEN")
    case None
    with waiting(1) show ?thesis by (subst hid_event_loop.simps) simp
  next
    case (Some bytes)
    obtain reply where "accept_hid_event sequence (take MAI2_HID_REPORT_LEN bytes) = Some reply"
      using accept_hid_event_total by blast
    with waiting(1) Some waiting(2) [of "h @ [EvTick, EvHidRead path MAI2_HID_REPORT_LEN]"] show ?thesis
      by (subst hid_event_loop.simps) (cases reply, auto)
  qed
qed

section \<open>Replies belong to their requests\<close>

text \<open>What a board answers to a request: its payload, two cycle counts and the clock rate.\<close>

definition board_reply :: "u64 \<Rightarrow> u64 \<Rightarrow> u64 \<Rightarrow> u32 \<Rightarrow> u8 list" where
  "board_reply sequence dispatch_cycles tx_cycles core_hz =
     make_benchmark_payload sequence @ le_bytes 8 (unat dispatch_cycles) @ le_bytes 8 (unat tx_cycles) @
     le_bytes 4 (unat core_hz)"

lemma make_benchmark_payload_inj: "make_benchmark_payload m = make_benchmark_payload n \<longleftrightarrow> m = n"
proof
  assume "make_benchmark_payload m = make_benchmark_payload n"
  then have "le_bytes 8 (unat m) = le_bytes 8 (unat n)" by (simp add: make_benchmark_payload_def)
  then show "m = n" by (metis u64_le_roundtrip)
qed simp

lemma length_board_reply [simp]: "length (make_benchmark_payload m) = 16" "length (board_reply m d t hz) = 36"
  by (simp_all add: make_benchmark_payload_def board_reply_def)

lemma accept_board_reply:
  "accept_benchmark cmd (make_benchmark_payload n) (cmd, board_reply m d t hz) =
     Some (if m = n then Some \<lparr>br_dispatch_cycles = d, br_tx_cycles = t, br_core_hz = hz\<rparr> else None)"
proof -
  define meta where "meta = le_bytes 8 (unat d) @ le_bytes 8 (unat t) @ le_bytes 4 (unat hz)"
  have reply: "board_reply m d t hz = make_benchmark_payload m @ meta" by (simp add: board_reply_def meta_def)
  have len: "length meta = 20" by (simp add: meta_def)
  have cuts: "slice (board_reply m d t hz) 0 16 = Some (make_benchmark_payload m)"
    "slice (board_reply m d t hz) 16 36 = Some meta"
    by (simp_all add: reply slice_def len)
  have parts: "slice meta 0 8 = Some (le_bytes 8 (unat d))" "slice meta 8 16 = Some (le_bytes 8 (unat t))"
    "slice meta 16 20 = Some (le_bytes 4 (unat hz))"
    by (simp_all add: meta_def slice_def)
  show ?thesis
  proof (cases "m = n")
    case True
    with cuts parts show ?thesis
      by (simp add: accept_benchmark_def read_u64_le_bytes read_u32_le_bytes u64_le_roundtrip u32_le_roundtrip)
  next
    case False
    with cuts show ?thesis by (simp add: accept_benchmark_def make_benchmark_payload_inj)
  qed
qed

section \<open>Properties\<close>

text \<open>
  C22. The reply is the request's: when a stream begins with garbage that has no start byte \<open>0xFF\<close>, goes on
  with intact answers to other requests and then has the board's answer to this one, cut into
  non-empty reads of at most 64 bytes anywhere, the reader returns exactly the two cycle counts and
  the clock rate of this answer.  A damaged frame in the stream can hide the answer
  (\<open>bench_damage_hides_reply\<close>).
\<close>

theorem bench_finds_own_reply:
  assumes "0xFF \<notin> set pre" and "\<forall>(m, d, t, hz) \<in> set olds. m \<noteq> n"
    and "\<forall>bytes \<in> set reads. bytes \<noteq> [] \<and> length bytes \<le> 64"
    and "concat reads = pre @ concat (map (\<lambda>(m, d, t, hz). mai2_frame cmd (board_reply m d t hz)) olds) @
      mai2_frame cmd (board_reply n d t hz)"
  shows "\<exists>s. reply_run (mai2_reply_step (accept_benchmark cmd (make_benchmark_payload n))) reads bench_rx_init =
    Some (Some \<lparr>br_dispatch_cycles = d, br_tx_cycles = t, br_core_hz = hz\<rparr>, s)"
proof -
  define test where "test = (\<lambda>frame. the (accept_benchmark cmd (make_benchmark_payload n) frame))"
  define fs where "fs = map (\<lambda>(m, d, t, hz). (cmd, board_reply m d t hz)) olds"
  let ?own = "(cmd, board_reply n d t hz)"
  have acc: "accept_benchmark cmd (make_benchmark_payload n) frame = Some (test frame)" for frame
    unfolding test_def by (rule accept_benchmark_total)
  have own: "test ?own = Some \<lparr>br_dispatch_cycles = d, br_tx_cycles = t, br_core_hz = hz\<rparr>"
    by (simp add: test_def accept_board_reply)
  have "reply_stream test pre fs ?own"
    using assms(1,2) by (auto simp: reply_stream_def own fs_def) (auto simp: test_def accept_board_reply)
  moreover have "map (\<lambda>(cmd, payload). mai2_frame cmd payload) fs =
      map (\<lambda>(m, d, t, hz). mai2_frame cmd (board_reply m d t hz)) olds"
    by (auto simp: fs_def)
  then have "concat reads = pre @ enc_frames (fs @ [?own])" using assms(4) by (simp add: enc_frames_def)
  moreover have "reads \<noteq> []" using assms(4) by (auto simp: mai2_frame_def Let_def)
  ultimately show ?thesis
    using reply_run_finds [of test pre fs ?own "accept_benchmark cmd (make_benchmark_payload n)" bench_rx_init reads]
      assms(3) acc own by simp
qed

theorem bench_finds_own_reply_witness:
  "\<exists>reads s. concat reads = [1, 2] @ mai2_frame 0x22 (board_reply 6 5 6 7) @ mai2_frame 0x22 (board_reply 7 100 200 300) \<and>
     reply_run (mai2_reply_step (accept_benchmark 0x22 (make_benchmark_payload 7))) reads bench_rx_init =
       Some (Some \<lparr>br_dispatch_cycles = 100, br_tx_cycles = 200, br_core_hz = 300\<rparr>, s)"
proof -
  let ?a = "[1, 2] @ mai2_frame 0x22 (board_reply 6 5 6 7)" and ?b = "mai2_frame 0x22 (board_reply 7 100 200 300)"
  have ne: "?b \<noteq> []" by (simp add: mai2_frame_def Let_def)
  have "\<exists>s. reply_run (mai2_reply_step (accept_benchmark 0x22 (make_benchmark_payload 7))) [?a, ?b] bench_rx_init =
      Some (Some \<lparr>br_dispatch_cycles = 100, br_tx_cycles = 200, br_core_hz = 300\<rparr>, s)"
    by (rule bench_finds_own_reply [of "[1, 2]" "[(6, 5, 6, 7)]"]) (auto simp: length_mai2_frame ne)
  then show ?thesis by (intro exI [of _ "[?a, ?b]"]) simp
qed

text \<open>
  No reader hangs or panics: on a clock that runs, whatever bytes the port or the HID interface
  delivers, in whatever pieces, each of the four readers gives up at its deadline at the latest.
\<close>

theorem bench_readers_return:
  assumes "clock_runs now"
  shows "read_benchmark_reply os now protocol expected p h \<noteq> None \<and>
    read_mai2_benchmark_reply_for_cmd os now cmd expected p h \<noteq> None \<and>
    read_mai2_event_reply os now sequence p h \<noteq> None \<and>
    read_mai2_hid_event_reply os now path hid_sequence h \<noteq> None"
proof -
  have mai2: "read_mai2_benchmark_reply_for_cmd os now c expected p h \<noteq> None" for c
    unfolding read_mai2_benchmark_reply_for_cmd_def
    by (rule read_reply_loop_returns [where good = bench_buf, OF assms _ bench_init(1)])
      (assumption | rule mai2_reply_good accept_benchmark_total)+
  moreover have "read_slider_benchmark_reply os now expected p h \<noteq> None"
    unfolding read_slider_benchmark_reply_def
    by (rule read_reply_loop_returns [where good = slider_wf, OF assms]) (simp_all add: slider_reply_good slider_wf_default)
  moreover have "read_mai2_event_reply os now sequence p h \<noteq> None"
    unfolding read_mai2_event_reply_def
    by (rule read_reply_loop_returns [where good = bench_buf, OF assms _ bench_init(1)])
      (assumption | rule mai2_reply_good accept_event_total)+
  moreover have "read_mai2_hid_event_reply os now path hid_sequence h \<noteq> None"
    unfolding read_mai2_hid_event_reply_def by (rule hid_event_loop_returns [OF assms])
  ultimately show ?thesis by (simp add: read_benchmark_reply_def split: protocol.split)
qed

theorem bench_readers_return_witness:
  "read_benchmark_reply willing_os (\<lambda>h. length h) SliderProtocol (make_benchmark_payload 3) opened_port [] \<noteq> None"
proof -
  have "clock_runs (\<lambda>h. length h)" by (auto simp: clock_runs_def)
  then show ?thesis using bench_readers_return by blast
qed

text \<open>
  A frame that fails its checksum ends the inner loop: a complete reply behind it, in the same read,
  stays in the buffer and is not looked at before more bytes arrive; when none do, the reader times out
  with the reply in its hands.
\<close>

theorem bench_damage_hides_reply:
  assumes "x \<noteq> 0xFF + c"
  shows "\<exists>s. reply_run (mai2_reply_step (accept_benchmark cmd (make_benchmark_payload n)))
      [[0xFF, c, 0, x] @ mai2_frame cmd (board_reply n d t hz)] bench_rx_init = Some (None, s) \<and>
    held s = [c, 0, x] @ mai2_frame cmd (board_reply n d t hz)"
proof -
  let ?xs = "[0xFF, c, 0, x] @ mai2_frame cmd (board_reply n d t hz)"
  define test where "test = (\<lambda>frame. the (accept_benchmark cmd (make_benchmark_payload n) frame))"
  have acc: "accept_benchmark cmd (make_benchmark_payload n) frame = Some (test frame)" for frame
    unfolding test_def by (rule accept_benchmark_total)
  have "bench_scan ?xs = (None, tl ?xs)" using assms by (simp add: bench_scan_def sum_simps Let_def)
  then have "take_reply test ?xs = (None, tl ?xs)"
    by (subst take_reply.simps) simp
  moreover have "take 256 ?xs = ?xs" by (simp add: length_mai2_frame)
  ultimately obtain s where "mai2_reply_step (accept_benchmark cmd (make_benchmark_payload n)) ?xs bench_rx_init = Some (None, s)"
    "held s = tl ?xs"
    using mai2_reply_step_take [where s = bench_rx_init and bytes = ?xs and
        accept = "accept_benchmark cmd (make_benchmark_payload n)" and
        test = test] acc
    by auto
  then show ?thesis by simp
qed

theorem bench_damage_hides_reply_witness:
  "\<exists>s. reply_run (mai2_reply_step (accept_benchmark 0x22 (make_benchmark_payload 7)))
      [[0xFF, 1, 0, 5] @ mai2_frame 0x22 (board_reply 7 100 200 300)] bench_rx_init = Some (None, s) \<and>
    held s = [1, 0, 5] @ mai2_frame 0x22 (board_reply 7 100 200 300)"
  by (rule bench_damage_hides_reply) simp

end
