(* ===== verification/Latency_Bench.thy ===== *)
theory Latency_Bench
  imports Bench_Frames "HOL-Library.Multiset"
begin

text \<open>
  The hardware half of \<open>examples/e2e_latency_bench.rs\<close>: its arguments, the statistics it prints and the
  three measurements against a board.  \<open>f64\<close> is a parameter: a record of the operations the code uses,
  so the arithmetic is transcribed and its rounding is not fixed.  The environment adds to the driver's
  \<open>os\<close> the monotonic clock and the performance counter; reading either is an \<open>EvTick\<close>.  Standard output
  is the list of the lines printed.  \<open>None\<close> is a panic or a loop that does not end.
\<close>

section \<open>Floating point\<close>

text \<open>
  \<open>f_lit n d\<close> is the literal \<open>n/d\<close>; \<open>f_le\<close> compares and is \<open>None\<close> when \<open>partial_cmp\<close> is, that is when a
  side is not a number; \<open>f_round\<close> is \<open>round() as usize\<close>, \<open>f_show\<close> formats with three digits.
\<close>

record 'f f64 =
  f_of_i64 :: "int \<Rightarrow> 'f"
  f_of_u64 :: "u64 \<Rightarrow> 'f"
  f_of_u32 :: "u32 \<Rightarrow> 'f"
  f_of_usize :: "nat \<Rightarrow> 'f"
  f_lit :: "nat \<Rightarrow> nat \<Rightarrow> 'f"
  f_add :: "'f \<Rightarrow> 'f \<Rightarrow> 'f"
  f_sub :: "'f \<Rightarrow> 'f \<Rightarrow> 'f"
  f_mul :: "'f \<Rightarrow> 'f \<Rightarrow> 'f"
  f_div :: "'f \<Rightarrow> 'f \<Rightarrow> 'f"
  f_max :: "'f \<Rightarrow> 'f \<Rightarrow> 'f"
  f_le :: "'f \<Rightarrow> 'f \<Rightarrow> bool option"
  f_round :: "'f \<Rightarrow> nat"
  f_show :: "'f \<Rightarrow> rstr"

definition cycles_to_us :: "'f f64 \<Rightarrow> u64 \<Rightarrow> u32 \<Rightarrow> 'f" where
  "cycles_to_us f cycles core_hz =
     (if core_hz = 0 then f_lit f 0 1
      else f_div f (f_mul f (f_of_u64 f cycles) (f_lit f 1000000 1)) (f_of_u32 f core_hz))"

definition ticks_to_us :: "'f f64 \<Rightarrow> int \<Rightarrow> 'f \<Rightarrow> 'f" where
  "ticks_to_us f ticks frequency = f_div f (f_mul f (f_of_i64 f ticks) (f_lit f 1000000 1)) frequency"

text \<open>
  \<open>sort_by(|left, right| left.partial_cmp(right).unwrap())\<close>: a stable sort that panics as soon as there
  is something to compare and an element compares with nothing.
\<close>

fun f_insert :: "'f f64 \<Rightarrow> 'f \<Rightarrow> 'f list \<Rightarrow> 'f list" where
  "f_insert f x [] = [x]"
| "f_insert f x (y # ys) = (if f_le f x y = Some True then x # y # ys else y # f_insert f x ys)"

definition f_sort :: "'f f64 \<Rightarrow> 'f list \<Rightarrow> 'f list option" where
  "f_sort f xs =
     (if length xs \<ge> 2 \<and> list_ex (\<lambda>x. f_le f x x = None) xs then None
      else Some (foldr (f_insert f) xs []))"

definition robust_median :: "'f f64 \<Rightarrow> 'f list \<Rightarrow> 'f option option" where
  "robust_median f samples =
     (if samples = [] then Some None
      else do {
        sorted \<leftarrow> f_sort f samples;
        v \<leftarrow> get_at sorted (length sorted div 2);
        Some (Some v)
      })"

definition percentile :: "'f f64 \<Rightarrow> 'f list \<Rightarrow> 'f \<Rightarrow> 'f option" where
  "percentile f samples p =
     get_at samples (f_round f (f_mul f (f_of_usize f (length samples - 1)) p))"

definition sample_stats_us :: "'f f64 \<Rightarrow> rstr \<Rightarrow> 'f list \<Rightarrow> rstr list option" where
  "sample_stats_us f label samples_us = do {
     samples_us \<leftarrow> f_sort f samples_us;
     if samples_us = [] then Some [label @ lit '': no samples'']
     else do {
       let average_us = f_div f (foldl (f_add f) (f_lit f 0 1) samples_us) (f_of_usize f (length samples_us));
       let max_us = last samples_us;
       p50 \<leftarrow> percentile f samples_us (f_lit f 50 100);
       p95 \<leftarrow> percentile f samples_us (f_lit f 95 100);
       p99 \<leftarrow> percentile f samples_us (f_lit f 99 100);
       Some [label @ lit '': avg='' @ f_show f average_us @ lit ''us p50='' @ f_show f p50 @
         lit ''us p95='' @ f_show f p95 @ lit ''us p99='' @ f_show f p99 @ lit ''us max='' @ f_show f max_us @
         lit ''us'']
     }
   }"

definition sample_stats_ticks :: "'f f64 \<Rightarrow> 'f \<Rightarrow> rstr \<Rightarrow> int list \<Rightarrow> rstr list option" where
  "sample_stats_ticks f frequency label samples_ticks =
     sample_stats_us f label (map (\<lambda>ticks. ticks_to_us f ticks frequency) samples_ticks)"

section \<open>Arguments and environment\<close>

record bench_config =
  bc_iterations :: nat
  bc_synthetic_only :: bool
  bc_include_synthetic :: bool

definition parse_args :: "rstr list \<Rightarrow> bench_config" where
  "parse_args args =
     foldl (\<lambda>config arg.
        if arg = lit ''--synthetic'' then config\<lparr>bc_synthetic_only := True, bc_include_synthetic := True\<rparr>
        else if arg = lit ''--all'' then config\<lparr>bc_include_synthetic := True\<rparr>
        else
          (case strip_prefix (lit ''--iterations='') arg of
             None \<Rightarrow> config
           | Some raw \<Rightarrow>
               (case u64_from_str raw of
                  None \<Rightarrow> config
                | Some iterations \<Rightarrow> if iterations > 0 then config\<lparr>bc_iterations := iterations\<rparr> else config)))
       \<lparr>bc_iterations = DEFAULT_ITERATIONS, bc_synthetic_only = False, bc_include_synthetic = False\<rparr> args"

text \<open>\<open>be_perf\<close> answers \<open>QueryPerformanceCounter\<close>, \<open>be_frequency\<close> is \<open>perf_frequency\<close>.\<close>

record 'f bench_env =
  be_os :: os
  be_now :: clock
  be_perf :: clock
  be_frequency :: 'f
  be_f64 :: "'f f64"

definition perf_counter :: "'f bench_env \<Rightarrow> history \<Rightarrow> int \<times> history" where
  "perf_counter env h = (int (be_perf env h), h @ [EvTick])"

section \<open>Request and reply\<close>

record 'f serial_samples =
  ss_host_ticks :: "int list"
  ss_device_us :: "'f list"
  ss_transit_us :: "'f list"
  ss_host_to_device_us :: "'f list"
  ss_device_to_host_us :: "'f list"
  ss_clock_offset_us :: "'f list"

definition serial_samples_empty :: "'f serial_samples" where
  "serial_samples_empty = \<lparr>ss_host_ticks = [], ss_device_us = [], ss_transit_us = [],
     ss_host_to_device_us = [], ss_device_to_host_us = [], ss_clock_offset_us = []\<rparr>"

definition push_sample ::
  "'f bench_env \<Rightarrow> int \<Rightarrow> int \<Rightarrow> benchmark_reply \<Rightarrow> 'f serial_samples \<Rightarrow> 'f serial_samples" where
  "push_sample env send_ticks recv_ticks reply ss =
     (let f = be_f64 env; frequency = be_frequency env;
          host_ticks = recv_ticks - send_ticks;
          host_us = ticks_to_us f host_ticks frequency;
          device_us = cycles_to_us f (br_tx_cycles reply - br_dispatch_cycles reply) (br_core_hz reply);
          host_send_us = ticks_to_us f send_ticks frequency;
          host_recv_us = ticks_to_us f recv_ticks frequency;
          device_recv_us = cycles_to_us f (br_dispatch_cycles reply) (br_core_hz reply);
          device_send_us = cycles_to_us f (br_tx_cycles reply) (br_core_hz reply);
          clock_offset_us = f_div f (f_sub f (f_add f host_send_us host_recv_us)
            (f_add f device_recv_us device_send_us)) (f_lit f 2 1);
          host_to_device_est_us = f_max f (f_sub f (f_add f clock_offset_us device_recv_us) host_send_us) (f_lit f 0 1);
          device_to_host_est_us = f_max f (f_sub f host_recv_us (f_add f clock_offset_us device_send_us)) (f_lit f 0 1)
      in \<lparr>ss_host_ticks = ss_host_ticks ss @ [host_ticks],
          ss_device_us = ss_device_us ss @ [device_us],
          ss_transit_us = ss_transit_us ss @ [f_max f (f_sub f host_us device_us) (f_lit f 0 1)],
          ss_host_to_device_us = ss_host_to_device_us ss @ [host_to_device_est_us],
          ss_device_to_host_us = ss_device_to_host_us ss @ [device_to_host_est_us],
          ss_clock_offset_us = ss_clock_offset_us ss @ [clock_offset_us]\<rparr>)"

text \<open>The \<open>for\<close> over the iterations, with the line it prints when it breaks.\<close>

fun serial_loop ::
  "'f bench_env \<Rightarrow> rstr \<Rightarrow> protocol \<Rightarrow> nat list \<Rightarrow> 'f serial_samples \<Rightarrow> serial_port \<Rightarrow> history \<Rightarrow>
     ('f serial_samples \<times> rstr list \<times> serial_port \<times> history) option" where
  "serial_loop env label protocol [] ss p h = Some (ss, [], p, h)"
| "serial_loop env label protocol (sequence # rest) ss p h =
     (let payload = make_benchmark_payload (of_nat sequence);
          (send_ticks, h) = perf_counter env h;
          (ok, p, h) = send_benchmark_request (be_os env) protocol payload p h
      in if \<not> ok then Some (ss, [label @ lit '': write failed on iteration '' @ show_dec sequence], p, h)
         else do {
           (reply, p, h) \<leftarrow> read_benchmark_reply (be_os env) (be_now env) protocol payload p h;
           (case reply of
              None \<Rightarrow> Some (ss, [label @ lit '': timeout waiting for benchmark reply; check firmware flash level and protocol''], p, h)
            | Some reply \<Rightarrow>
                (let (recv_ticks, h) = perf_counter env h
                 in serial_loop env label protocol rest (push_sample env send_ticks recv_ticks reply ss) p h))
         })"

section \<open>Events over the serial port\<close>

fun event_loop ::
  "'f bench_env \<Rightarrow> rstr \<Rightarrow> 'f \<Rightarrow> nat list \<Rightarrow> 'f list \<times> 'f list \<Rightarrow> serial_port \<Rightarrow> history \<Rightarrow>
     (('f list \<times> 'f list) \<times> rstr list \<times> serial_port \<times> history) option" where
  "event_loop env label clock_offset_us [] samples p h = Some (samples, [], p, h)"
| "event_loop env label clock_offset_us (sequence # rest) samples p h =
     (let f = be_f64 env; payload = make_event_arm_payload (of_nat sequence) EVENT_DELAY_MS;
          (ok, p, h) = send_mai2_frame (be_os env) BENCHMARK_EVENT_CMD payload p h
      in if \<not> ok then Some (samples, [label @ lit '': event write failed on iteration '' @ show_dec sequence], p, h)
         else do {
           (reply, p, h) \<leftarrow> read_mai2_event_reply (be_os env) (be_now env) (of_nat sequence) p h;
           (case reply of
              None \<Rightarrow> Some (samples, [label @ lit '': timeout waiting for event reply; check firmware event benchmark support''], p, h)
            | Some reply \<Rightarrow>
                (let (ticks, h) = perf_counter env h;
                     recv_us = ticks_to_us f ticks (be_frequency env);
                     event_host_est_us = f_add f clock_offset_us (cycles_to_us f (er_event_cycles reply) (er_core_hz reply));
                     tx_host_est_us = f_add f clock_offset_us (cycles_to_us f (er_tx_cycles reply) (er_core_hz reply));
                     (event_to_host, tx_to_host) = samples
                 in event_loop env label clock_offset_us rest
                      (event_to_host @ [f_max f (f_sub f recv_us event_host_est_us) (f_lit f 0 1)],
                       tx_to_host @ [f_max f (f_sub f recv_us tx_host_est_us) (f_lit f 0 1)]) p h))
         })"

definition bench_mai2_event_oneway ::
  "'f bench_env \<Rightarrow> rstr \<Rightarrow> nat \<Rightarrow> 'f list \<Rightarrow> serial_port \<Rightarrow> history \<Rightarrow>
     ('f option \<times> rstr list \<times> serial_port \<times> history) option" where
  "bench_mai2_event_oneway env label iterations clock_offset_samples_us p h = do {
     let f = be_f64 env;
     clock_offset \<leftarrow> robust_median f clock_offset_samples_us;
     (case clock_offset of
        None \<Rightarrow> Some (None, [], p, h)
      | Some clock_offset_us \<Rightarrow>
          (let (p, h) = drain_port (be_os env) p h
           in do {
             ((event_to_host, tx_to_host), lines, p, h) \<leftarrow>
               event_loop env label clock_offset_us [0..<iterations] ([], []) p h;
             if event_to_host = [] then Some (None, lines, p, h)
             else do {
               tx_to_host_median_us \<leftarrow> robust_median f tx_to_host;
               stats1 \<leftarrow> sample_stats_us f (label @ lit ''-event-to-host-cal'') event_to_host;
               stats2 \<leftarrow> sample_stats_us f (label @ lit ''-tx-to-host-cal'') tx_to_host;
               Some (tx_to_host_median_us,
                 lines @ [label @ lit '': event-samples='' @ show_dec (length event_to_host) @ lit '' event-delay='' @
                   show_dec (unat EVENT_DELAY_MS) @ lit ''ms clock-offset='' @ f_show f clock_offset_us @ lit ''us''] @
                 stats1 @ stats2, p, h)
             }
           }))
   }"

section \<open>Events over HID\<close>

text \<open>The three lists are the event, transmit and arm-path samples.\<close>

fun hid_loop ::
  "'f bench_env \<Rightarrow> rstr \<Rightarrow> rstr \<Rightarrow> nat list \<Rightarrow> 'f list \<times> 'f list \<times> 'f list \<Rightarrow> serial_port \<Rightarrow> history \<Rightarrow>
     (('f list \<times> 'f list \<times> 'f list) \<times> rstr list \<times> serial_port \<times> history) option" where
  "hid_loop env label path [] samples p h = Some (samples, [], p, h)"
| "hid_loop env label path (sequence # rest) samples p h =
     (let f = be_f64 env; payload = make_event_arm_payload (of_nat sequence) EVENT_DELAY_MS;
          (send_ticks, h) = perf_counter env h;
          (ok, p, h) = send_mai2_frame (be_os env) BENCHMARK_HID_EVENT_CMD payload p h
      in if \<not> ok then Some (samples, [label @ lit '': hid event write failed on iteration '' @ show_dec sequence], p, h)
         else do {
           (ack, p, h) \<leftarrow> read_mai2_benchmark_reply_for_cmd (be_os env) (be_now env) BENCHMARK_HID_EVENT_CMD payload p h;
           (case ack of
              None \<Rightarrow> Some (samples, [label @ lit '': timeout waiting for hid arm ack; check firmware hid benchmark support''], p, h)
            | Some ack \<Rightarrow> do {
                (reply, h) \<leftarrow> read_mai2_hid_event_reply (be_os env) (be_now env) path (of_nat sequence) h;
                (case reply of
                   None \<Rightarrow> Some (samples, [label @ lit '': timeout waiting for hid event reply; check firmware hid benchmark support''], p, h)
                 | Some reply \<Rightarrow>
                     (let (ack_ticks, h) = perf_counter env h; (recv_ticks, h) = perf_counter env h;
                          ack_recv_us = ticks_to_us f ack_ticks (be_frequency env);
                          recv_us = ticks_to_us f recv_ticks (be_frequency env);
                          send_us = ticks_to_us f send_ticks (be_frequency env);
                          ack_device_recv_us = cycles_to_us f (br_dispatch_cycles ack) (br_core_hz ack);
                          ack_device_send_us = cycles_to_us f (br_tx_cycles ack) (br_core_hz ack);
                          clock_offset_us = f_div f (f_sub f (f_add f send_us ack_recv_us)
                            (f_add f ack_device_recv_us ack_device_send_us)) (f_lit f 2 1);
                          event_host_est_us = f_add f clock_offset_us (cycles_to_us f (er_event_cycles reply) (er_core_hz reply));
                          tx_host_est_us = f_add f clock_offset_us (cycles_to_us f (er_tx_cycles reply) (er_core_hz reply));
                          arm_path_est_us = f_max f (f_sub f (f_add f clock_offset_us ack_device_recv_us) send_us) (f_lit f 0 1);
                          (event_to_host, tx_to_host, arm_path) = samples
                      in hid_loop env label path rest
                           (event_to_host @ [f_max f (f_sub f recv_us event_host_est_us) (f_lit f 0 1)],
                            tx_to_host @ [f_max f (f_sub f recv_us tx_host_est_us) (f_lit f 0 1)],
                            arm_path @ [arm_path_est_us]) p h))
              })
         })"

definition bench_mai2_hid_event_oneway ::
  "'f bench_env \<Rightarrow> rstr \<Rightarrow> u16 \<Rightarrow> nat \<Rightarrow> serial_port \<Rightarrow> history \<Rightarrow> (rstr list \<times> serial_port \<times> history) option" where
  "bench_mai2_hid_event_oneway env label pid iterations p h =
     (let f = be_f64 env; os = be_os env; ok = os_hid_new os h; h = h @ [EvHidNew ok]
      in if \<not> ok then Some ([label @ lit '': hid benchmark unavailable (hidapi init failed)''], p, h)
         else
           (case bench_find_hid_path (os_hid_devices os h) AFFINE_VID pid of
              None \<Rightarrow> Some ([label @ lit '': hid benchmark unavailable (hid path not found)''], p, h)
            | Some path \<Rightarrow>
                (let ok = os_hid_open os h path; h = h @ [EvHidOpen path ok]
                 in if \<not> ok then Some ([label @ lit '': hid benchmark unavailable (hid open failed)''], p, h)
                    else do {
                      ((event_to_host, tx_to_host, arm_path), lines, p, h) \<leftarrow>
                        hid_loop env label path [0..<iterations] ([], [], []) p (drain_hid os path h);
                      if event_to_host = [] then Some (lines, p, h @ [EvHidClose path])
                      else do {
                        median \<leftarrow> robust_median f arm_path;
                        let arm_path_est_us = (case median of Some v \<Rightarrow> v | None \<Rightarrow> f_lit f 0 1);
                        stats1 \<leftarrow> sample_stats_us f (label @ lit ''-hid-event-to-host-cal'') event_to_host;
                        stats2 \<leftarrow> sample_stats_us f (label @ lit ''-hid-tx-to-host-cal'') tx_to_host;
                        Some (lines @ [label @ lit '': hid-event-samples='' @ show_dec (length event_to_host) @
                          lit '' event-delay='' @ show_dec (unat EVENT_DELAY_MS) @ lit ''ms arm-path-est='' @
                          f_show f arm_path_est_us @ lit ''us''] @ stats1 @ stats2, p, h @ [EvHidClose path])
                      }
                    })))"

section \<open>One device\<close>

text \<open>The measurements behind the connection; the result of the event measurement is dropped.\<close>

definition bench_mai2_events ::
  "'f bench_env \<Rightarrow> rstr \<Rightarrow> protocol \<Rightarrow> u16 option \<Rightarrow> nat \<Rightarrow> 'f list \<Rightarrow> serial_port \<Rightarrow> history \<Rightarrow>
     (rstr list \<times> serial_port \<times> history) option" where
  "bench_mai2_events env label protocol pid iterations clock_offsets p h =
     (if protocol \<noteq> Mai2Protocol then Some ([], p, h)
      else do {
        (_, lines, p, h) \<leftarrow> bench_mai2_event_oneway env label iterations clock_offsets p h;
        (case pid of
           None \<Rightarrow> Some (lines, p, h)
         | Some pid \<Rightarrow> do {
             (more, p, h) \<leftarrow> bench_mai2_hid_event_oneway env label pid iterations p h;
             Some (lines @ more, p, h)
           })
      })"

text \<open>The port of the function is dropped at its end, whichever way it ends.\<close>

definition bench_serial_device ::
  "'f bench_env \<Rightarrow> rstr \<Rightarrow> rstr \<Rightarrow> protocol \<Rightarrow> u16 option \<Rightarrow> nat \<Rightarrow> history \<Rightarrow> (rstr list \<times> history) option" where
  "bench_serial_device env label path protocol pid iterations h =
     (let f = be_f64 env; os = be_os env; (ok, p, h) = sp_open os path SERIAL_BAUD serial_port_default h
      in if \<not> ok then Some ([label @ lit '': failed to open '' @ path], snd (sp_drop p h))
         else
           (let (p, h) = drain_port os p h
            in do {
              (ss, lines, p, h) \<leftarrow> serial_loop env label protocol [0..<iterations] serial_samples_empty p h;
              if ss_host_ticks ss = [] then
                (let (p, h) = sp_close p h in Some (lines, snd (sp_drop p h)))
              else do {
                s1 \<leftarrow> sample_stats_ticks f (be_frequency env) (label @ lit ''-rtt'') (ss_host_ticks ss);
                s2 \<leftarrow> sample_stats_us f (label @ lit ''-device'') (ss_device_us ss);
                s3 \<leftarrow> sample_stats_us f (label @ lit ''-host-minus-device'') (ss_transit_us ss);
                s4 \<leftarrow> sample_stats_us f (label @ lit ''-host-to-device-est'') (ss_host_to_device_us ss);
                s5 \<leftarrow> sample_stats_us f (label @ lit ''-device-to-host-est'') (ss_device_to_host_us ss);
                (events, p, h) \<leftarrow> bench_mai2_events env label protocol pid iterations (ss_clock_offset_us ss) p h;
                let (p, h) = sp_close p h;
                Some (lines @ [label @ lit '': port='' @ path @ lit '' samples='' @ show_dec (length (ss_host_ticks ss))] @
                  s1 @ s2 @ s3 @ s4 @ s5 @ events, snd (sp_drop p h))
              }
            }))"

text \<open>The first component says whether a device was found.\<close>

definition bench_device_by_pid ::
  "'f bench_env \<Rightarrow> rstr \<Rightarrow> u16 \<Rightarrow> protocol \<Rightarrow> nat \<Rightarrow> history \<Rightarrow> (bool \<times> rstr list \<times> history) option" where
  "bench_device_by_pid env label pid protocol iterations h = do {
     (found, h) \<leftarrow> find_com_port (be_os env) AFFINE_VID pid h;
     (case found of
        None \<Rightarrow> Some (False, [], h)
      | Some path \<Rightarrow> do {
          (lines, h) \<leftarrow> bench_serial_device env label path protocol (Some pid) iterations h;
          Some (True, lines, h)
        })
   }"

definition bench_device_by_any_pid ::
  "'f bench_env \<Rightarrow> rstr \<Rightarrow> u16 list \<Rightarrow> protocol \<Rightarrow> nat \<Rightarrow> history \<Rightarrow> (bool \<times> rstr list \<times> history) option" where
  "bench_device_by_any_pid env label pids protocol iterations h = do {
     (found, h) \<leftarrow> find_any (be_os env) AFFINE_VID pids h;
     (case found of
        None \<Rightarrow> Some (False, [], h)
      | Some (pid, path) \<Rightarrow> do {
          (lines, h) \<leftarrow> bench_serial_device env label path protocol None iterations h;
          Some (True, lines, h)
        })
   }"

definition bench_hardware :: "'f bench_env \<Rightarrow> nat \<Rightarrow> history \<Rightarrow> (rstr list \<times> history) option" where
  "bench_hardware env iterations h = do {
     (ran1, lines1, h) \<leftarrow> bench_device_by_pid env (lit ''mai2-p1'') BENCH_MAI2_PID_1P Mai2Protocol iterations h;
     (ran2, lines2, h) \<leftarrow> bench_device_by_pid env (lit ''mai2-p2'') BENCH_MAI2_PID_2P Mai2Protocol iterations h;
     (ran3, lines3, h) \<leftarrow> bench_device_by_any_pid env (lit ''chuni-slider'') BENCH_CHUNI_PIDS SliderProtocol iterations h;
     Some (lines1 @ lines2 @ lines3 @
       (if ran1 \<or> ran2 \<or> ran3 then [] else [lit ''no benchmark-capable firmware device detected'']), h)
   }"

section \<open>The statistics\<close>

text \<open>
  Samples that are all numbers compare as their values do; \<open>val\<close> is any reading of them in a linear
  order.  The sort is then the library's stable sort by val.
\<close>

definition compares_by :: "'f f64 \<Rightarrow> ('f \<Rightarrow> 'k :: linorder) \<Rightarrow> 'f list \<Rightarrow> bool" where
  "compares_by f val xs \<longleftrightarrow> (\<forall>a \<in> set xs. \<forall>b \<in> set xs. f_le f a b = Some (val a \<le> val b))"

lemma f_insert_sorts:
  "(\<And>y. y \<in> set ys \<Longrightarrow> f_le f x y = Some (val x \<le> val y)) \<Longrightarrow> f_insert f x ys = insort_key val x ys"
  by (induction ys) auto

lemma f_sort_sorts:
  assumes "compares_by f val xs"
  shows "f_sort f xs = Some (sort_key val xs)"
proof -
  have "foldr (f_insert f) ys [] = sort_key val ys" if "set ys \<subseteq> set xs" for ys
    using that
  proof (induction ys)
    case (Cons y ys)
    then have "f_insert f y (sort_key val ys) = insort_key val y (sort_key val ys)"
      using assms by (intro f_insert_sorts) (auto simp: compares_by_def)
    with Cons show ?case by simp
  qed (simp add: sort_key_def)
  moreover have "\<not> list_ex (\<lambda>x. f_le f x x = None) xs" using assms by (auto simp: compares_by_def list_ex_iff)
  ultimately show ?thesis by (simp add: f_sort_def)
qed

text \<open>How many elements of a sorted list lie below and above the one at an index.\<close>

lemma sorted_rank:
  assumes "sorted (map val xs)" "i < length xs"
  shows "length (filter (\<lambda>x. val x < val (xs ! i)) xs) \<le> i"
    "length (filter (\<lambda>x. val (xs ! i) < val x) xs) \<le> length xs - Suc i"
proof -
  have mono: "val (xs ! j) \<le> val (xs ! k)" if "j \<le> k" "k < length xs" for j k
    using sorted_nth_mono [OF assms(1), of j k] that by simp
  have "\<not> val x < val (xs ! i)" if "x \<in> set (drop i xs)" for x
  proof -
    from that obtain k where k: "k < length xs - i" "x = xs ! (i + k)" by (auto simp: in_set_conv_nth)
    then have "i + k < length xs" by simp
    then show ?thesis using mono [of i "i + k"] k(2) by (simp add: leD)
  qed
  then have "filter (\<lambda>x. val x < val (xs ! i)) (drop i xs) = []" by (simp add: filter_empty_conv)
  then have "filter (\<lambda>x. val x < val (xs ! i)) xs = filter (\<lambda>x. val x < val (xs ! i)) (take i xs)"
    by (metis append_Nil2 append_take_drop_id filter_append)
  then show "length (filter (\<lambda>x. val x < val (xs ! i)) xs) \<le> i"
    using length_filter_le [of _ "take i xs"] by (metis length_take min.bounded_iff)
  have "\<not> val (xs ! i) < val x" if "x \<in> set (take (Suc i) xs)" for x
  proof -
    from that obtain k where "k < Suc i" "x = xs ! k" by (auto simp: in_set_conv_nth)
    then show ?thesis using mono [of k i] assms(2) by simp
  qed
  then have "filter (\<lambda>x. val (xs ! i) < val x) (take (Suc i) xs) = []" by (simp add: filter_empty_conv)
  then have "filter (\<lambda>x. val (xs ! i) < val x) xs = filter (\<lambda>x. val (xs ! i) < val x) (drop (Suc i) xs)"
    by (metis append_Nil append_take_drop_id filter_append)
  then show "length (filter (\<lambda>x. val (xs ! i) < val x) xs) \<le> length xs - Suc i"
    using length_filter_le [of _ "drop (Suc i) xs"] by (metis length_drop)
qed

section \<open>Properties\<close>

text \<open>
  The median is one: of samples that are numbers, \<open>robust_median\<close> returns one of them with at most half
  of the samples below it and less than half above it, and it does not panic.
\<close>

theorem robust_median_is_middle:
  assumes "compares_by f val samples" and "samples \<noteq> []"
  shows "\<exists>m. robust_median f samples = Some (Some m) \<and> m \<in> set samples \<and>
    2 * length (filter (\<lambda>x. val x < val m) samples) \<le> length samples \<and>
    2 * length (filter (\<lambda>x. val m < val x) samples) < length samples"
proof -
  define sorted where "sorted = sort_key val samples"
  let ?i = "length samples div 2"
  have i: "?i < length sorted" "length sorted = length samples" using assms(2) by (simp_all add: sorted_def)
  have sort: "f_sort f samples = Some sorted" using f_sort_sorts [OF assms(1)] by (simp add: sorted_def)
  have same: "length (filter P samples) = length (filter P sorted)" for P
    by (metis mset_filter mset_sort size_mset sorted_def)
  have "robust_median f samples = Some (Some (sorted ! ?i))"
    using assms(2) sort i by (simp add: robust_median_def access_simps)
  moreover have "sorted ! ?i \<in> set samples" using nth_mem [OF i(1)] by (simp add: sorted_def)
  ultimately show ?thesis
    using sorted_rank [of val sorted ?i] i by (intro exI [of _ "sorted ! ?i"]) (auto simp: same sorted_def)
qed

text \<open>Numbers as such a type: the naturals.\<close>

definition nat_f64 :: "nat f64" where
  "nat_f64 = \<lparr>f_of_i64 = nat, f_of_u64 = unat, f_of_u32 = unat, f_of_usize = id, f_lit = (\<lambda>n d. n div d),
     f_add = (+), f_sub = (-), f_mul = (*), f_div = (div), f_max = max, f_le = (\<lambda>a b. Some (a \<le> b)),
     f_round = id, f_show = show_dec\<rparr>"

theorem robust_median_is_middle_witness:
  "\<exists>m. robust_median nat_f64 [7, 3, 9, 3] = Some (Some m) \<and> m \<in> set [7, 3, 9, 3] \<and>
    2 * length (filter (\<lambda>x. x < m) [7, 3, 9, 3]) \<le> length [7, 3, 9, 3 :: nat]"
proof -
  have "compares_by nat_f64 (\<lambda>x. x) [7, 3, 9, 3]" by (simp add: compares_by_def nat_f64_def)
  moreover have "[7, 3, 9, 3 :: nat] \<noteq> []" by simp
  ultimately show ?thesis using robust_median_is_middle by blast
qed

end
