(* ===== verification/Bench_Synthetic.thy ===== *)
theory Bench_Synthetic
  imports Latency_Bench Chuni Mercury Mai2_Runtime
begin

unbundle bit_operations_syntax

text \<open>
  The synthetic half of \<open>examples/e2e_latency_bench.rs\<close>, built with the feature \<open>latency-bench\<close>: the
  three runtimes are driven in the process, without a board.  No device thread is spawned, since none
  of the paths calls \<open>init\<close>.  The three static counters are incremented by the three callbacks and by
  nothing else, so their value is the number of calls in the history.
\<close>

section \<open>The entry points of the feature\<close>

text \<open>\<open>bench_inject_input\<close> of the chuni and mercury runtimes; the one of mai2 is in \<open>Mai2_Runtime\<close>.\<close>

definition chuni_bench_inject_input :: "os \<Rightarrow> u8 list \<Rightarrow> u8 \<Rightarrow> chuni_world \<Rightarrow> chuni_world" where
  "chuni_bench_inject_input os pressure beams w = apply_scan_frame os pressure (Some beams) w"

definition mercury_bench_inject_input :: "os \<Rightarrow> bool list \<Rightarrow> mercury_world \<Rightarrow> mercury_world" where
  "mercury_bench_inject_input os cells w = apply_cells_frame os cells w"

section \<open>Callbacks and their counters\<close>

text \<open>The three functions as the runtimes are given them.\<close>

definition MAI2_CALLBACK :: nat where "MAI2_CALLBACK = 1"
definition CHUNI_CALLBACK :: nat where "CHUNI_CALLBACK = 2"
definition MERCURY_CALLBACK :: nat where "MERCURY_CALLBACK = 3"

fun counts_mai2 :: "event \<Rightarrow> bool" where
  "counts_mai2 (EvMai2Callback f _ _) = (f = MAI2_CALLBACK)"
| "counts_mai2 _ = False"

fun counts_chuni :: "event \<Rightarrow> bool" where
  "counts_chuni (EvSliderCallback f _) = (f = CHUNI_CALLBACK)"
| "counts_chuni _ = False"

fun counts_mercury :: "event \<Rightarrow> bool" where
  "counts_mercury (EvTouchCallback f _) = (f = MERCURY_CALLBACK)"
| "counts_mercury _ = False"

definition counter :: "(event \<Rightarrow> bool) \<Rightarrow> history \<Rightarrow> nat" where
  "counter counts h = length (filter counts h)"

section \<open>Inputs\<close>

definition make_mai2_touch :: "u64 \<Rightarrow> u8 list" where
  "make_mai2_touch sequence = map (\<lambda>index. ucast (sequence * 17 + of_nat index * 11) AND 0x1F) [0..<7]"

definition make_chuni_pressure :: "u64 \<Rightarrow> u8 list" where
  "make_chuni_pressure sequence = map (\<lambda>index. ucast (sequence * 5 + of_nat index * 3)) [0..<32]"

definition make_mercury_cells :: "u64 \<Rightarrow> bool list" where
  "make_mercury_cells sequence = map (\<lambda>index. unat (sequence + of_nat index) mod 3 = 0) [0..<240]"

section \<open>The paths\<close>

text \<open>
  How the program can fail to finish: the hardware half panics in a statistic or does not return from
  an enumeration of ports, a runtime cannot be created (its \<open>expect\<close>), the statistics of a path panic,
  or an \<open>assert_eq!\<close> fails, with its message and the iteration it fails in.
\<close>

datatype bench_failure =
    HardwareFailed
  | NoRuntime rstr
  | StatisticsFailed rstr
  | AssertionFailed rstr nat

definition on_ok :: "'e + 'a \<Rightarrow> ('a \<Rightarrow> 'e + 'b) \<Rightarrow> 'e + 'b" where
  "on_ok r f = (case r of Inl e \<Rightarrow> Inl e | Inr x \<Rightarrow> f x)"

definition ok_or :: "'a option \<Rightarrow> 'e \<Rightarrow> 'e + 'a" where
  "ok_or x e = (case x of None \<Rightarrow> Inl e | Some y \<Rightarrow> Inr y)"

lemma on_ok_simps [simp]: "on_ok (Inl e) f = Inl e" "on_ok (Inr x) f = f x"
  "ok_or None e = Inl e" "ok_or (Some x) e = Inr x"
  by (simp_all add: on_ok_def ok_or_def)

definition path_stats :: "'f bench_env \<Rightarrow> rstr \<Rightarrow> int list \<Rightarrow> bench_failure + rstr list" where
  "path_stats env label samples =
     ok_or (sample_stats_ticks (be_f64 env) (be_frequency env) label samples) (StatisticsFailed label)"

text \<open>Each loop carries the samples.\<close>

fun direct_loop :: "'f bench_env \<Rightarrow> nat \<Rightarrow> int list \<Rightarrow> history \<Rightarrow> int list \<times> history" where
  "direct_loop env 0 samples h = (samples, h)"
| "direct_loop env (Suc n) samples h =
     (let (start, h) = perf_counter env h; (stop, h) = perf_counter env h
      in direct_loop env n (samples @ [stop - start]) h)"

definition bench_direct_call :: "'f bench_env \<Rightarrow> nat \<Rightarrow> history \<Rightarrow> bench_failure + rstr list \<times> history" where
  "bench_direct_call env iterations h =
     (let (samples, h) = direct_loop env iterations [] h
      in on_ok (path_stats env (lit ''direct-call'') samples) (\<lambda>lines. Inr (lines, h)))"

fun mai2_poll_loop :: "'f bench_env \<Rightarrow> nat list \<Rightarrow> int list \<Rightarrow> mai2_world \<Rightarrow> int list \<times> mai2_world" where
  "mai2_poll_loop env [] samples w = (samples, w)"
| "mai2_poll_loop env (sequence # rest) samples w =
     (let buttons0 = word_rotl 1 (of_nat sequence :: u8);
          buttons1 = (of_nat (sequence * 3) :: u8) AND 0x0F;
          touch = make_mai2_touch (of_nat sequence);
          (start, h) = perf_counter env (mw_hist w);
          w = bench_inject_input (be_os env) 1 buttons0 buttons1 touch (w\<lparr>mw_hist := h\<rparr>);
          w = snd (mai2_poll (be_os env) w);
          w = snd (mai2_get_gamebtns (be_os env) w);
          (stop, h) = perf_counter env (mw_hist w)
      in mai2_poll_loop env rest (samples @ [stop - start]) (w\<lparr>mw_hist := h\<rparr>))"

definition bench_mai2_poll_path :: "'f bench_env \<Rightarrow> nat \<Rightarrow> mai2_world \<Rightarrow> bench_failure + rstr list \<times> mai2_world" where
  "bench_mai2_poll_path env iterations w =
     (let (samples, w) = mai2_poll_loop env [0..<iterations] [] (mai2_set_touch_enabled (be_os env) False False w)
      in on_ok (path_stats env (lit ''mai2-poll-end-to-end'') samples) (\<lambda>lines. Inr (lines, w)))"

fun mai2_callback_loop :: "'f bench_env \<Rightarrow> nat list \<Rightarrow> int list \<Rightarrow> mai2_world \<Rightarrow> bench_failure + int list \<times> mai2_world" where
  "mai2_callback_loop env [] samples w = Inr (samples, w)"
| "mai2_callback_loop env (sequence # rest) samples w =
     (let before = counter counts_mai2 (mw_hist w);
          touch = make_mai2_touch (of_nat sequence);
          (start, h) = perf_counter env (mw_hist w);
          w = bench_inject_input (be_os env) 1 0x5A 0x03 touch (w\<lparr>mw_hist := h\<rparr>);
          (stop, h) = perf_counter env (mw_hist w);
          w = w\<lparr>mw_hist := h\<rparr>;
          after = counter counts_mai2 (mw_hist w)
      in if after \<noteq> before + 1 then Inl (AssertionFailed (lit ''mai2 callback not observed'') sequence)
         else mai2_callback_loop env rest (samples @ [stop - start]) w)"

definition bench_mai2_callback_path :: "'f bench_env \<Rightarrow> nat \<Rightarrow> mai2_world \<Rightarrow> bench_failure + rstr list \<times> mai2_world" where
  "bench_mai2_callback_path env iterations w =
     (let w = mai2_set_touch_enabled (be_os env) True True (mai2_set_touch_callback (Some MAI2_CALLBACK) w)
      in on_ok (mai2_callback_loop env [0..<iterations] [] w) (\<lambda>(samples, w).
         on_ok (path_stats env (lit ''mai2-callback-end-to-end'') samples) (\<lambda>lines.
         Inr (lines, w))))"

fun chuni_callback_loop :: "'f bench_env \<Rightarrow> nat list \<Rightarrow> int list \<Rightarrow> chuni_world \<Rightarrow> bench_failure + int list \<times> chuni_world" where
  "chuni_callback_loop env [] samples w = Inr (samples, w)"
| "chuni_callback_loop env (sequence # rest) samples w =
     (let before = counter counts_chuni (w_hist w);
          pressure = make_chuni_pressure (of_nat sequence);
          (start, h) = perf_counter env (w_hist w);
          w = chuni_bench_inject_input (be_os env) pressure (of_nat sequence AND 0x3F) (w\<lparr>w_hist := h\<rparr>);
          (stop, h) = perf_counter env (w_hist w);
          w = w\<lparr>w_hist := h\<rparr>;
          after = counter counts_chuni (w_hist w)
      in if after \<noteq> before + 1 then Inl (AssertionFailed (lit ''chuni callback not observed'') sequence)
         else chuni_callback_loop env rest (samples @ [stop - start]) w)"

definition bench_chuni_callback_path :: "'f bench_env \<Rightarrow> nat \<Rightarrow> chuni_world \<Rightarrow> bench_failure + rstr list \<times> chuni_world" where
  "bench_chuni_callback_path env iterations w =
     on_ok (chuni_callback_loop env [0..<iterations] [] (chuni_start (be_os env) (Some CHUNI_CALLBACK) w)) (\<lambda>(samples, w).
     on_ok (path_stats env (lit ''chuni-callback-end-to-end'') samples) (\<lambda>lines.
     Inr (lines, chuni_stop (be_os env) w)))"

fun mercury_callback_loop :: "'f bench_env \<Rightarrow> nat list \<Rightarrow> int list \<Rightarrow> mercury_world \<Rightarrow> bench_failure + int list \<times> mercury_world" where
  "mercury_callback_loop env [] samples w = Inr (samples, w)"
| "mercury_callback_loop env (sequence # rest) samples w =
     (let before = counter counts_mercury (w_hist w);
          cells = make_mercury_cells (of_nat sequence);
          (start, h) = perf_counter env (w_hist w);
          w = mercury_bench_inject_input (be_os env) cells (w\<lparr>w_hist := h\<rparr>);
          (stop, h) = perf_counter env (w_hist w);
          w = w\<lparr>w_hist := h\<rparr>;
          after = counter counts_mercury (w_hist w)
      in if after \<noteq> before + 1 then Inl (AssertionFailed (lit ''mercury callback not observed'') sequence)
         else mercury_callback_loop env rest (samples @ [stop - start]) w)"

definition bench_mercury_callback_path :: "'f bench_env \<Rightarrow> nat \<Rightarrow> mercury_world \<Rightarrow> bench_failure + rstr list \<times> mercury_world" where
  "bench_mercury_callback_path env iterations w =
     on_ok (mercury_callback_loop env [0..<iterations] [] (mercury_start (be_os env) (Some MERCURY_CALLBACK) w)) (\<lambda>(samples, w).
     on_ok (path_stats env (lit ''mercury-callback-end-to-end'') samples) (\<lambda>lines.
     Inr (lines, w)))"

section \<open>The program\<close>

text \<open>
  What the process finds when the runtimes are created on first use: the configuration and the contents
  of the memory the pages are mapped to.
\<close>

record bench_process =
  bp_config :: "rstr option"
  bp_mai2_input :: "mai2_input_page memory"
  bp_mai2_output :: "mai2_output_page memory"
  bp_mai2_poll :: "mai2_poll_page memory"
  bp_chuni_state :: "chuni_state_page memory"
  bp_chuni_control :: "chuni_control_page memory"
  bp_mercury_state :: "mercury_state_page memory"
  bp_mercury_control :: "mercury_control_page memory"

definition bench_synthetic ::
  "'f bench_env \<Rightarrow> bench_process \<Rightarrow> nat \<Rightarrow> history \<Rightarrow> bench_failure + rstr list \<times> history" where
  "bench_synthetic env proc iterations h =
     (let os = be_os env in
      on_ok (bench_direct_call env iterations h) (\<lambda>(lines1, h).
      on_ok (ok_or (mai2_runtime_new os (bp_config proc) (bp_mai2_input proc) (bp_mai2_output proc) (bp_mai2_poll proc) h)
        (NoRuntime (lit ''mai2''))) (\<lambda>w.
      on_ok (bench_mai2_poll_path env iterations w) (\<lambda>(lines2, w).
      on_ok (bench_mai2_callback_path env iterations w) (\<lambda>(lines3, w).
      on_ok (ok_or (chuni_runtime os (bp_chuni_state proc) (bp_chuni_control proc) (mw_hist w))
        (NoRuntime (lit ''chuni''))) (\<lambda>c.
      on_ok (bench_chuni_callback_path env iterations c) (\<lambda>(lines4, c).
      on_ok (ok_or (mercury_runtime os (bp_mercury_state proc) (bp_mercury_control proc) (w_hist c))
        (NoRuntime (lit ''mercury''))) (\<lambda>m.
      on_ok (bench_mercury_callback_path env iterations m) (\<lambda>(lines5, m).
      Inr (lit ''synthetic benchmark mode enabled'' # lines1 @ lines2 @ lines3 @ lines4 @ lines5, w_hist m))))))))))"

definition bench_run ::
  "'f bench_env \<Rightarrow> bench_process \<Rightarrow> rstr list \<Rightarrow> history \<Rightarrow> bench_failure + rstr list \<times> history" where
  "bench_run env proc args h =
     (let config = parse_args args;
          first = lit ''affine hardware e2e benchmark ('' @ show_dec (bc_iterations config) @ lit '' iterations)''
      in on_ok (if bc_synthetic_only config then Inr ([], h)
                else ok_or (bench_hardware env (bc_iterations config) h) HardwareFailed) (\<lambda>(lines, h).
         on_ok (if bc_include_synthetic config then bench_synthetic env proc (bc_iterations config) h
                else Inr ([], h)) (\<lambda>(more, h).
         Inr (first # lines @ more, h))))"

section \<open>What the callbacks see\<close>

lemma counter_simps [simp]:
  "counter c [] = 0" "counter c (e # es) = (if c e then 1 else 0) + counter c es"
  "counter c (h @ es) = counter c h + counter c es"
  by (simp_all add: counter_def)

lemma page_lock_counter [simp]:
  "counter counts_chuni (w_hist (snd (state_update os f w))) = counter counts_chuni (w_hist w)"
  "counter counts_mercury (w_hist (snd (state_update os f w))) = counter counts_mercury (w_hist w)"
  by (auto simp: world_defs split: prod.splits)

text \<open>An injected mai2 input is written to the page and calls nobody.\<close>

lemma mai2_inject_counter:
  "counter counts_mai2 (mw_hist (bench_inject_input os player b0 b1 touch w)) = counter counts_mai2 (mw_hist w)"
proof -
  have "counter counts_mai2 (mw_hist (input_update os i g w)) = counter counts_mai2 (mw_hist w)" for i g w
    by (auto simp: input_update_def page_defs split: prod.splits)
  then show ?thesis
    by (simp add: bench_inject_input_def apply_device_frame_def dev_update_def w_tick_def tick_ms_def Let_def)
qed

lemma mai2_callback_loop_fails: "mai2_callback_loop env (sequence # rest) samples w =
    Inl (AssertionFailed (lit ''mai2 callback not observed'') sequence)"
  by (simp add: perf_counter_def mai2_inject_counter Let_def)

text \<open>An injected chuni or mercury input calls the game once.\<close>

lemma chuni_inject:
  assumes "w_callback w = Some CHUNI_CALLBACK"
  shows "counter counts_chuni (w_hist (chuni_bench_inject_input os pressure beams w)) = counter counts_chuni (w_hist w) + 1"
    "w_callback (chuni_bench_inject_input os pressure beams w) = Some CHUNI_CALLBACK"
    "cs_pressure (state_of (chuni_bench_inject_input os pressure beams w)) = pressure"
  using assms
  by (simp_all add: chuni_bench_inject_input_def apply_scan_frame_def chuni_invoke_callback_def split_beta Let_def
      world_simps scan_update_def invoke_with_def)

lemma mercury_inject:
  assumes "w_callback w = Some MERCURY_CALLBACK"
  shows "counter counts_mercury (w_hist (mercury_bench_inject_input os cells w)) = counter counts_mercury (w_hist w) + 1"
    "w_callback (mercury_bench_inject_input os cells w) = Some MERCURY_CALLBACK"
  using assms
  by (simp_all add: mercury_bench_inject_input_def apply_cells_frame_def mercury_invoke_callback_def split_beta Let_def
      world_simps cells_update_def invoke_with_def)

lemma chuni_callback_loop_runs:
  assumes "w_callback w = Some CHUNI_CALLBACK"
  shows "\<exists>samples' w'. chuni_callback_loop env seqs samples w = Inr (samples', w') \<and>
    length samples' = length samples + length seqs \<and>
    counter counts_chuni (w_hist w') = counter counts_chuni (w_hist w) + length seqs \<and>
    (seqs \<noteq> [] \<longrightarrow> cs_pressure (state_of w') = make_chuni_pressure (of_nat (last seqs)))"
  using assms
proof (induction seqs arbitrary: samples w)
  case (Cons s seqs)
  define pressure where "pressure = make_chuni_pressure (of_nat s)"
  define v where "v = chuni_bench_inject_input (be_os env) pressure (of_nat s AND 0x3F) (w\<lparr>w_hist := w_hist w @ [EvTick]\<rparr>)"
  define w1 where "w1 = v\<lparr>w_hist := w_hist v @ [EvTick]\<rparr>"
  have v: "counter counts_chuni (w_hist v) = counter counts_chuni (w_hist w) + 1" "w_callback v = Some CHUNI_CALLBACK"
    "cs_pressure (state_of v) = pressure"
    using chuni_inject [of "w\<lparr>w_hist := w_hist w @ [EvTick]\<rparr>" "be_os env" pressure "of_nat s AND 0x3F"] Cons.prems
    by (simp_all add: v_def)
  then have w1: "counter counts_chuni (w_hist w1) = counter counts_chuni (w_hist w) + 1" "w_callback w1 = Some CHUNI_CALLBACK"
    "cs_pressure (state_of w1) = pressure"
    by (simp_all add: w1_def world_simps)
  have step: "\<exists>sample. chuni_callback_loop env (s # seqs) samples w = chuni_callback_loop env seqs (samples @ [sample]) w1"
    using v(1) by (simp add: perf_counter_def Let_def pressure_def [symmetric] v_def [symmetric] w1_def [symmetric]) blast
  then obtain sample where step: "chuni_callback_loop env (s # seqs) samples w = chuni_callback_loop env seqs (samples @ [sample]) w1"
    by blast
  from Cons.IH [OF w1(2), of "samples @ [sample]"] show ?case
    unfolding step using w1 by (cases "seqs = []") (auto simp: pressure_def)
qed simp

lemma mercury_callback_loop_runs:
  assumes "w_callback w = Some MERCURY_CALLBACK"
  shows "\<exists>samples' w'. mercury_callback_loop env seqs samples w = Inr (samples', w') \<and>
    length samples' = length samples + length seqs \<and>
    counter counts_mercury (w_hist w') = counter counts_mercury (w_hist w) + length seqs"
  using assms
proof (induction seqs arbitrary: samples w)
  case (Cons s seqs)
  define v where "v = mercury_bench_inject_input (be_os env) (make_mercury_cells (of_nat s)) (w\<lparr>w_hist := w_hist w @ [EvTick]\<rparr>)"
  define w1 where "w1 = v\<lparr>w_hist := w_hist v @ [EvTick]\<rparr>"
  have v: "counter counts_mercury (w_hist v) = counter counts_mercury (w_hist w) + 1" "w_callback v = Some MERCURY_CALLBACK"
    using mercury_inject [of "w\<lparr>w_hist := w_hist w @ [EvTick]\<rparr>" "be_os env" "make_mercury_cells (of_nat s)"] Cons.prems
    by (simp_all add: v_def)
  then have w1: "counter counts_mercury (w_hist w1) = counter counts_mercury (w_hist w) + 1" "w_callback w1 = Some MERCURY_CALLBACK"
    by (simp_all add: w1_def)
  have "\<exists>sample. mercury_callback_loop env (s # seqs) samples w = mercury_callback_loop env seqs (samples @ [sample]) w1"
    using v(1) by (simp add: perf_counter_def Let_def v_def [symmetric] w1_def [symmetric]) blast
  then obtain sample where step: "mercury_callback_loop env (s # seqs) samples w = mercury_callback_loop env seqs (samples @ [sample]) w1"
    by blast
  from Cons.IH [OF w1(2), of "samples @ [sample]"] show ?case unfolding step using w1 by auto
qed simp

text \<open>The command line never asks for no iterations.\<close>

lemma parse_args_iterations: "0 < bc_iterations (parse_args args)"
proof -
  have "0 < bc_iterations config \<Longrightarrow> 0 < bc_iterations (foldl f config args)"
    if "\<And>c arg. 0 < bc_iterations c \<Longrightarrow> 0 < bc_iterations (f c arg)" for f and config :: bench_config
    by (induction args arbitrary: config) (simp_all add: that)
  then show ?thesis
    unfolding parse_args_def by (simp add: DEFAULT_ITERATIONS_def split: option.split)
qed

text \<open>What the two switches do to the configuration, wherever they stand on the command line.\<close>

lemma parse_args_switches:
  "bc_synthetic_only (parse_args args) \<longleftrightarrow> lit ''--synthetic'' \<in> set args"
  "bc_include_synthetic (parse_args args) \<longleftrightarrow> lit ''--all'' \<in> set args \<or> lit ''--synthetic'' \<in> set args"
proof -
  have "lit ''--synthetic'' \<noteq> lit ''--all''" by (simp add: lit_def)
  then show "bc_synthetic_only (parse_args args) \<longleftrightarrow> lit ''--synthetic'' \<in> set args"
    "bc_include_synthetic (parse_args args) \<longleftrightarrow> lit ''--all'' \<in> set args \<or> lit ''--synthetic'' \<in> set args"
    by (induction args rule: rev_induct) (auto simp: parse_args_def split: option.splits)
qed

definition first_assertion :: bench_failure where
  "first_assertion = AssertionFailed (lit ''mai2 callback not observed'') 0"

lemma bench_mai2_callback_path_fails:
  "0 < iterations \<Longrightarrow> bench_mai2_callback_path env iterations w = Inl first_assertion"
  by (simp add: bench_mai2_callback_path_def upt_conv_Cons mai2_callback_loop_fails first_assertion_def Let_def
      del: mai2_callback_loop.simps)

text \<open>The statistics of the paths work and the mai2 runtime can be created.\<close>

definition bench_can_start :: "'f bench_env \<Rightarrow> bench_process \<Rightarrow> bool" where
  "bench_can_start env proc \<longleftrightarrow>
     (\<forall>label samples. sample_stats_ticks (be_f64 env) (be_frequency env) label samples \<noteq> None) \<and>
     (\<forall>h. mai2_runtime_new (be_os env) (bp_config proc) (bp_mai2_input proc) (bp_mai2_output proc)
        (bp_mai2_poll proc) h \<noteq> None)"

lemma bench_synthetic_fails:
  assumes "0 < iterations"
  shows "bench_synthetic env proc iterations h \<in> Inl ` {first_assertion, NoRuntime (lit ''mai2''),
      StatisticsFailed (lit ''direct-call''), StatisticsFailed (lit ''mai2-poll-end-to-end'')}"
  using assms
  by (auto simp: bench_synthetic_def bench_direct_call_def bench_mai2_poll_path_def path_stats_def
      bench_mai2_callback_path_fails ok_or_def on_ok_def Let_def
      split: option.splits sum.splits prod.splits)

lemma bench_synthetic_first_assertion:
  assumes "0 < iterations" "bench_can_start env proc"
  shows "bench_synthetic env proc iterations h = Inl first_assertion"
proof -
  have stats: "\<exists>lines. path_stats env label samples = Inr lines" for label samples
    using assms(2) by (auto simp: bench_can_start_def path_stats_def ok_or_def split: option.split)
  obtain samples1 h1 where d: "direct_loop env iterations [] h = (samples1, h1)"
    by (cases "direct_loop env iterations [] h")
  obtain lines1 where "path_stats env (lit ''direct-call'') samples1 = Inr lines1" using stats by blast
  then have direct: "bench_direct_call env iterations h = Inr (lines1, h1)"
    by (simp add: bench_direct_call_def d)
  obtain w where new: "mai2_runtime_new (be_os env) (bp_config proc) (bp_mai2_input proc) (bp_mai2_output proc)
      (bp_mai2_poll proc) h1 = Some w"
    using assms(2) unfolding bench_can_start_def by blast
  obtain samples2 w2 where p: "mai2_poll_loop env [0..<iterations] [] (mai2_set_touch_enabled (be_os env) False False w) =
      (samples2, w2)"
    by (cases "mai2_poll_loop env [0..<iterations] [] (mai2_set_touch_enabled (be_os env) False False w)")
  obtain lines2 where "path_stats env (lit ''mai2-poll-end-to-end'') samples2 = Inr lines2" using stats by blast
  then have poll: "bench_mai2_poll_path env iterations w = Inr (lines2, w2)"
    by (simp add: bench_mai2_poll_path_def p)
  show ?thesis
    by (simp add: bench_synthetic_def direct new poll bench_mai2_callback_path_fails [OF assms(1)])
qed

lemma nat_stats: "sample_stats_ticks nat_f64 frequency label samples \<noteq> None"
  by (cases "foldr (f_insert nat_f64) (map (\<lambda>ticks. ticks_to_us nat_f64 ticks frequency) samples) []")
    (auto simp: sample_stats_ticks_def sample_stats_us_def f_sort_def percentile_def get_at_def list_ex_iff
      nat_f64_def Let_def)

lemma willing_mai2_runtime:
  "mai2_runtime_new willing_os None (\<lambda>a. mai2_input_default) (\<lambda>a. mai2_output_default) (\<lambda>a. mai2_poll_default) h \<noteq> None"
  by (auto simp: mai2_runtime_new_def device_handle_new_def page_create_def page_defs willing_os_def
      NULL_HANDLE_def ERROR_ALREADY_EXISTS_def)

section \<open>Properties\<close>

text \<open>
  C38. The synthetic benchmark never finishes: with \<open>--synthetic\<close> or \<open>--all\<close> among the arguments, on any
  machine, the program never returns a result and never gets past the mai2 callback path.  If the
  hardware half returns (or is left out by \<open>--synthetic\<close>), the statistics of the samples work and the
  mai2 runtime can be created, it is the assertion \<open>mai2 callback not observed\<close> that fails, in the
  first iteration; otherwise the run may fail before.  The path asserts that the callback has run
  when the input is injected, while the mai2 runtime leaves the callback to a thread that the
  benchmark does not start.
\<close>

theorem bench_synthetic_always_panics:
  assumes "lit ''--all'' \<in> set args \<or> lit ''--synthetic'' \<in> set args"
  shows "if bench_can_start env proc \<and>
        (lit ''--synthetic'' \<in> set args \<or> bench_hardware env (bc_iterations (parse_args args)) h \<noteq> None)
    then bench_run env proc args h = Inl (AssertionFailed (lit ''mai2 callback not observed'') 0)
    else bench_run env proc args h \<in> Inl ` {AssertionFailed (lit ''mai2 callback not observed'') 0, HardwareFailed,
      NoRuntime (lit ''mai2''), StatisticsFailed (lit ''direct-call''), StatisticsFailed (lit ''mai2-poll-end-to-end'')}"
proof -
  let ?n = "bc_iterations (parse_args args)"
  note n = parse_args_iterations [of args]
  consider (skipped) "lit ''--synthetic'' \<in> set args"
    | (failed) "lit ''--synthetic'' \<notin> set args" "bench_hardware env ?n h = None"
    | (returned) lines h1 where "lit ''--synthetic'' \<notin> set args" "bench_hardware env ?n h = Some (lines, h1)"
    by (metis not_Some_eq surj_pair)
  then show ?thesis
  proof cases
    case skipped
    then have "bench_run env proc args h = Inl f" if "bench_synthetic env proc ?n h = Inl f" for f
      using that by (simp add: bench_run_def parse_args_switches Let_def)
    then show ?thesis
      using skipped bench_synthetic_fails [OF n, of env proc h] bench_synthetic_first_assertion [OF n, of env proc h]
      by (auto simp: first_assertion_def)
  next
    case failed
    then show ?thesis by (simp add: bench_run_def parse_args_switches Let_def)
  next
    case (returned lines h1)
    then have "bench_run env proc args h = Inl f" if "bench_synthetic env proc ?n h1 = Inl f" for f
      using that assms by (auto simp: bench_run_def parse_args_switches Let_def)
    then show ?thesis
      using returned bench_synthetic_fails [OF n, of env proc h1] bench_synthetic_first_assertion [OF n, of env proc h1]
      by (auto simp: first_assertion_def)
  qed
qed

theorem bench_synthetic_always_panics_witness:
  "bench_run \<lparr>be_os = willing_os, be_now = length, be_perf = length, be_frequency = 1, be_f64 = nat_f64\<rparr>
     \<lparr>bp_config = None, bp_mai2_input = (\<lambda>a. mai2_input_default), bp_mai2_output = (\<lambda>a. mai2_output_default),
       bp_mai2_poll = (\<lambda>a. mai2_poll_default), bp_chuni_state = (\<lambda>a. chuni_state_default),
       bp_chuni_control = (\<lambda>a. chuni_control_default), bp_mercury_state = (\<lambda>a. mercury_state_default),
       bp_mercury_control = (\<lambda>a. mercury_control_default)\<rparr>
     [lit ''--iterations=3'', lit ''--synthetic''] [] =
   Inl (AssertionFailed (lit ''mai2 callback not observed'') 0)"
  (is "bench_run ?env ?proc ?args [] = _")
proof -
  have "bench_can_start ?env ?proc"
    using nat_stats willing_mai2_runtime by (simp add: bench_can_start_def)
  then show ?thesis
    using bench_synthetic_always_panics [of ?args ?env ?proc "[]"] by simp
qed

text \<open>
  The chuni and mercury runtimes do what the benchmark asserts: every injected input calls the game's
  function exactly once before the call returns, so the assertions hold in every iteration, and the
  chuni page ends with the pressures injected last.
\<close>

theorem bench_callbacks_observed:
  "(\<exists>samples c. chuni_callback_loop env [0..<Suc n] [] (chuni_start os (Some CHUNI_CALLBACK) w) = Inr (samples, c) \<and>
     length samples = Suc n \<and>
     counter counts_chuni (w_hist c) = counter counts_chuni (w_hist (chuni_start os (Some CHUNI_CALLBACK) w)) + Suc n \<and>
     cs_pressure (state_of c) = make_chuni_pressure (of_nat n)) \<and>
   (\<exists>samples m. mercury_callback_loop env [0..<Suc n] [] (mercury_start os (Some MERCURY_CALLBACK) v) = Inr (samples, m) \<and>
     length samples = Suc n \<and>
     counter counts_mercury (w_hist m) = counter counts_mercury (w_hist (mercury_start os (Some MERCURY_CALLBACK) v)) + Suc n)"
proof -
  have "w_callback (chuni_start os (Some CHUNI_CALLBACK) w) = Some CHUNI_CALLBACK"
    "w_callback (mercury_start os (Some MERCURY_CALLBACK) v) = Some MERCURY_CALLBACK"
    by (simp_all add: chuni_start_def mercury_start_def world_simps)
  from chuni_callback_loop_runs [OF this(1), of env "[0..<Suc n]" "[]"]
    mercury_callback_loop_runs [OF this(2), of env "[0..<Suc n]" "[]"]
  show ?thesis by (simp del: upt_Suc)
qed

end
