(* ===== verification/Spec2Isabelle.thy ===== *)
theory Spec2Isabelle
  imports Mai2_Source_Runs Mai2_System Aime_Exports Game_Exports Process_Info Hardware_Probe Bench_Synthetic
begin

text \<open>
  Affine IO is the library an arcade game loads to talk to Affine controllers.  Four crates drive four
  kinds of device; a fifth holds what they share; \<open>src/exports\<close> is the C interface the game calls.  This
  development translates the Rust code of all of them, and of the two example programs, into HOL and
  proves what makes each part correct.

  \<^bold>\<open>The program.\<close>  Every runtime is an object in a static cell with shared-memory pages, a callback of the
  game and threads that own the hardware.  The game's calls read the state pages and publish LED data
  on control pages by writing a value and raising a sequence number; the threads read the device,
  update the state page, call the game back and send what was published since they last looked.  The
  chuni and mercury runtimes have one thread around a slider protocol on a COM port; mai2 has six
  threads for each of two players, around a framed serial protocol and three HID interfaces that may
  come and go independently; the card reader of the aime crate has no thread and answers in the call.

  \<^bold>\<open>Theories and sources.\<close>
  \<^item> \<open>Prelude\<close>: words, checked array access, byte sums; the locales \<open>wire_format\<close> and \<open>invariant_system\<close>.
  \<^item> \<open>Rust_Text\<close>, \<open>Util\<close>, \<open>Platform\<close>, \<open>Process_Info\<close>: Rust strings; \<open>affine-core/src/util.rs\<close> (log lines, ini
    files, rate limiter, console, clock) and \<open>affine-core/build.rs\<close>; the operating system and hidapi as
    the record \<open>os\<close> of answers and the history of the calls made.
  \<^item> \<open>Slider\<close>: \<open>affine-core/src/slider.rs\<close>.  \<open>Serial\<close>, \<open>Port_Use\<close>: \<open>serial.rs\<close>.  \<open>Shared_Memory\<close>:
    \<open>shared_memory.rs\<close>.  \<open>Types\<close>: \<open>types.rs\<close> and the game's memory.
  \<^item> \<open>Slider_Runtime\<close>, \<open>Chuni\<close>, \<open>Mercury\<close>: \<open>affine-chuni\<close> and \<open>affine-mercury\<close>; the thread is a machine with
    the control points of its loop, and the game may call in between two of them.
  \<^item> \<open>Aime\<close>: \<open>affine-aime\<close>.
  \<^item> \<open>Mai2_Frames\<close>, \<open>Mai2_Hid\<close>: the wire formats of \<open>affine-mai2\<close>.  \<open>Mai2_Device\<close>: its shared state.
    \<open>Mai2_Runtime\<close>, \<open>Mai2_Calls\<close>: the game's side.  \<open>Mai2_Serial_Threads\<close>, \<open>Mai2_Hid_Threads\<close>: the threads,
    one iteration at a time.  \<open>Mai2_Sources\<close>, \<open>Mai2_Source_Runs\<close>: the writers of one input page at the
    grain of single atomic accesses, their finite and infinite interleavings.  \<open>Mai2_Effects\<close>,
    \<open>Mai2_System\<close>: all threads of both players and all calls as one machine.
  \<^item> \<open>Aime_Exports\<close>, \<open>Game_Exports\<close>: \<open>src/exports\<close>, over the game's memory, for any width of \<open>usize\<close>; a
    game's runtime is created by the first exported call that needs it (\<open>runtime()\<close>, a \<open>OnceLock\<close>).
  \<^item> \<open>Hardware_Probe\<close>: \<open>examples/mai2_hardware_probe.rs\<close>.  \<open>Bench_Frames\<close>, \<open>Latency_Bench\<close>, \<open>Bench_Synthetic\<close>:
    \<open>examples/e2e_latency_bench.rs\<close>, its protocol, its measurements and its in-process paths.

  \<^bold>\<open>Conventions.\<close>  A Rust struct is a record, an enum a datatype, a w-bit integer a \<open>w word\<close>, an array or
  slice a list.  An index out of range is \<open>None\<close> of \<open>get_at\<close>, \<open>set_at\<close> and \<open>slice\<close>, so \<open>None\<close> as the outermost
  result of a definition is a panic of the code or a loop that does not end; errors the code returns
  are values below that.  The synthetic benchmark tells its ways to fail apart (\<open>bench_failure\<close>).  State is passed explicitly.  An environment \<open>os\<close> is one behaviour of Windows
  and hidapi, each answer a function of the history so far; a theorem about every \<open>os\<close> holds for every
  behaviour, and the trace properties (handles closed, I/O not in flight, frames sent, callbacks called)
  speak about the history.  Atomics are sequentially consistent in the code (\<open>SeqCst\<close>), so interleaving
  is the composition of single accesses.

  \<^bold>\<open>What is proved.\<close>
  \<^item> Parsers: the buffered parsers of the slider and mai2 protocols never panic and refine scanners over
    lists; streams of frames, cut anywhere, decode to what was sent; the aime decoder accepts a frame
    exactly when its checksum holds.
  \<^item> Resources: a serial port or shared page closes every handle it opened, on every failure path, and no
    overlapped operation is in flight when a call returns.
  \<^item> Runtimes: invariants of every reachable state (no input stays on when its source is gone, the pages
    keep their shapes, the connected flags match the open devices), delivery of published LED data,
    order and content of callbacks, that the threads never panic, that the game's function runs with
    the mutex free (mai2).
  \<^item> Interleavings: in any interleaving of the atomic accesses of a player's sources no stale input
    survives the last source, and a live source is not erased by a drop that began after it connected (one
    that looked for it before can erase a frame of it); in every fair infinite run that falls
    silent the inputs are cleared in the end.
  \<^item> Interface: the exported functions write only behind the result pointers they are given, only when
    they may, and never through null; those of the games return unless the runtime cannot be created.
  \<^item> Process: the log is coloured uniformly and sets the console mode at most once; rate-limited lines
    keep their distance.
  \<^item> Examples: the probe counts the frames the driver assembles; both programs' readers end at their
    deadlines; a benchmark reply is matched to its request; the synthetic benchmark fails the assertion of
    its mai2 callback path in the first iteration.

  \<^bold>\<open>Interfaces.\<close>  Contracts are locales, each interpreted on the model's own definitions: \<open>wire_format\<close>
  (slider with and without stuffing, mai2 serial), \<open>handle_owner\<close> and \<open>serial_link\<close> (the serial port),
  \<open>page_cell\<close> (a shared page), \<open>publisher\<close>, \<open>counting_publisher\<close> and \<open>changing_publisher\<close> (the LED channels of all
  runtimes),
  \<open>exported_interface\<close> (the four groups of exported functions), \<open>hid_loop\<close> (the three HID threads) and
  \<open>invariant_system\<close> (the chuni, mercury and mai2 machines and the input sources).

  \<^bold>\<open>Loops and bounds.\<close>  Structural loops and those with a measure are total functions.  Four kinds may not
  end and are \<open>partial_function (option)\<close>: the enumeration of COM ports (\<open>find_com_loop\<close>, which ends when
  the enumeration reports its end), \<open>read_frame\<close> of the card reader (which has no timeout; a silent
  reader is proved to block it), and the timed loops of the examples, which are proved to return on a
  clock that runs (\<open>clock_runs\<close>, by \<open>deadline_induct\<close>).  The device threads loop for ever and are step
  relations.  The 512-byte receive buffer of mai2 never holds more than 258 bytes between bytes, so its
  full-buffer branch is not reached.  LED delivery assumes fewer than 2^64 publications between two
  looks.  A source drop takes at most five atomic accesses, a disconnect at most four.

  \<^bold>\<open>Not modelled.\<close>  The layout padding of the pages and \<open>repr(C)\<close> structs, the marker implementations
  \<open>Send\<close> and \<open>Sync\<close>, module declarations and re-exports have no behaviour.  \<open>AimeIoVfdState\<close> is never read.
  Weak-memory effects of the shared mapping between processes, a poisoned mutex after a panic in the
  game's callback, a failing write to standard output or error, an argument of the examples that is not
  Unicode (on which \<open>env::args\<close> panics) and exhausted memory or threads are outside the model.  \<open>list_affine_devices\<close> of the probe only prints.  The rounding of \<open>f64\<close> in the benchmark is a
  parameter.  The operating system, hidapi and the game itself are the environment.
\<close>

end
